theory Spec2Isabelle
  imports Complex_Main
begin

section \<open>JavaScript numbers\<close>

text \<open>
  The services compute prices with JavaScript's \<^verbatim>\<open>number\<close> type (IEEE-754 binary64) and
  store them as strings. A number is modelled by its exact value: not-a-number, an infinity
  or a zero with its sign (\<open>True\<close> is negative), or a non-zero rational, always one that
  binary64 represents. Every arithmetic operation computes the exact rational result and
  rounds it to the nearest binary64 value, ties to even (\<open>round64\<close>).
\<close>

datatype number = NaN | Infinity bool | Zero bool | Fin rat

text \<open>Powers with an integer exponent, by repeated squaring.\<close>

function pow_int :: "rat \<Rightarrow> int \<Rightarrow> rat" where
  "pow_int b n =
     (if n \<le> 0 then 1
      else if even n then pow_int (b * b) (n div 2)
      else b * pow_int (b * b) (n div 2))"
  by pat_completeness auto
termination
  by (relation "measure (\<lambda>(b, n). nat n)") auto

declare pow_int.simps [simp del]

definition pow2 :: "int \<Rightarrow> rat" where
  "pow2 e = (if 0 \<le> e then pow_int 2 e else 1 / pow_int 2 (- e))"

definition pow10 :: "int \<Rightarrow> rat" where
  "pow10 e = (if 0 \<le> e then pow_int 10 e else 1 / pow_int 10 (- e))"

function bit_length :: "int \<Rightarrow> int" where
  "bit_length n = (if n \<le> 0 then 0 else 1 + bit_length (n div 2))"
  by pat_completeness auto
termination
  by (relation "measure nat") auto

declare bit_length.simps [simp del]

text \<open>\<open>floor_log2 a\<close> is the \<open>e\<close> with \<open>2 ^ e \<le> a < 2 ^ (e + 1)\<close>, for \<open>a > 0\<close>.\<close>

definition floor_log2 :: "rat \<Rightarrow> int" where
  "floor_log2 a =
     (let (p, q) = quotient_of a;
          e0 = bit_length p - bit_length q
      in if pow2 e0 \<le> a then e0 else e0 - 1)"

definition round_half_even :: "rat \<Rightarrow> int" where
  "round_half_even x =
     (let f = \<lfloor>x\<rfloor>; d = x - of_int f
      in if d < 1 / 2 then f else if 1 / 2 < d then f + 1
         else if even f then f else f + 1)"

text \<open>
  Rounding to binary64: 53 significant bits, the exponent of the least normal binade
  \<open>- 1022\<close> (below it the spacing stays \<open>2 ^ - 1074\<close>), underflow to a zero that
  keeps the sign, overflow to infinity when the rounded value \<open>m * 2 ^ (e - 52)\<close>
  reaches \<open>2 ^ 1024\<close>: the binade \<open>e\<close> is beyond \<open>1023\<close>, or it is \<open>1023\<close> and the
  significand rounded up to \<open>2 ^ 53\<close>.
\<close>

definition round64 :: "rat \<Rightarrow> number" where
  "round64 q =
     (if q = 0 then Zero False
      else
        let a = \<bar>q\<bar>;
            e = max (floor_log2 a) (- 1022);
            u = pow2 (e - 52);
            m = round_half_even (a / u);
            v = of_int m * u
        in if 1024 \<le> e \<or> (e = 1023 \<and> 9007199254740992 \<le> m) then Infinity (q < 0)
           else if m = 0 then Zero (q < 0)
           else Fin (if q < 0 then - v else v))"

fun is_neg :: "number \<Rightarrow> bool" where
  "is_neg NaN = False"
| "is_neg (Infinity s) = s"
| "is_neg (Zero s) = s"
| "is_neg (Fin q) = (q < 0)"

text \<open>The operators \<^verbatim>\<open>*\<close>, \<^verbatim>\<open>/\<close> and \<^verbatim>\<open>+\<close> on numbers.\<close>

fun num_mul :: "number \<Rightarrow> number \<Rightarrow> number" where
  "num_mul NaN y = NaN"
| "num_mul x NaN = NaN"
| "num_mul (Infinity s) (Zero t) = NaN"
| "num_mul (Zero s) (Infinity t) = NaN"
| "num_mul (Infinity s) y = Infinity (s \<noteq> is_neg y)"
| "num_mul x (Infinity t) = Infinity (is_neg x \<noteq> t)"
| "num_mul (Zero s) y = Zero (s \<noteq> is_neg y)"
| "num_mul x (Zero t) = Zero (is_neg x \<noteq> t)"
| "num_mul (Fin a) (Fin b) = round64 (a * b)"

fun num_div :: "number \<Rightarrow> number \<Rightarrow> number" where
  "num_div NaN y = NaN"
| "num_div x NaN = NaN"
| "num_div (Infinity s) (Infinity t) = NaN"
| "num_div (Infinity s) y = Infinity (s \<noteq> is_neg y)"
| "num_div x (Infinity t) = Zero (is_neg x \<noteq> t)"
| "num_div (Zero s) (Zero t) = NaN"
| "num_div (Zero s) y = Zero (s \<noteq> is_neg y)"
| "num_div x (Zero t) = Infinity (is_neg x \<noteq> t)"
| "num_div (Fin a) (Fin b) = round64 (a / b)"

fun num_add :: "number \<Rightarrow> number \<Rightarrow> number" where
  "num_add NaN y = NaN"
| "num_add x NaN = NaN"
| "num_add (Infinity s) (Infinity t) = (if s = t then Infinity s else NaN)"
| "num_add (Infinity s) y = Infinity s"
| "num_add x (Infinity t) = Infinity t"
| "num_add (Zero s) (Zero t) = Zero (s \<and> t)"
| "num_add (Zero s) y = y"
| "num_add x (Zero t) = x"
| "num_add (Fin a) (Fin b) = (if a + b = 0 then Zero False else round64 (a + b))"

text \<open>
  Comparison: \<open>ord_key\<close> places the numbers that compare on a line (the zeros together);
  every comparison with \<^verbatim>\<open>NaN\<close> is false.
\<close>

fun ord_key :: "number \<Rightarrow> (int \<times> rat) option" where
  "ord_key NaN = None"
| "ord_key (Infinity s) = Some (if s then - 1 else 1, 0)"
| "ord_key (Zero s) = Some (0, 0)"
| "ord_key (Fin q) = Some (0, q)"

definition num_lt :: "number \<Rightarrow> number \<Rightarrow> bool" where
  "num_lt x y =
     (case (ord_key x, ord_key y) of
        (Some (a, p), Some (b, q)) \<Rightarrow> a < b \<or> (a = b \<and> p < q)
      | _ \<Rightarrow> False)"

definition num_gt :: "number \<Rightarrow> number \<Rightarrow> bool" where
  "num_gt x y = num_lt y x"

text \<open>\<^verbatim>\<open>x === y\<close> on numbers, and the truth value of a number in a condition.\<close>

definition strict_eq :: "number \<Rightarrow> number \<Rightarrow> bool" where
  "strict_eq x y =
     (case (ord_key x, ord_key y) of
        (Some k, Some l) \<Rightarrow> k = l
      | _ \<Rightarrow> False)"

fun truthy :: "number \<Rightarrow> bool" where
  "truthy NaN = False"
| "truthy (Infinity s) = True"
| "truthy (Zero s) = False"
| "truthy (Fin q) = (q \<noteq> 0)"

text \<open>\<^verbatim>\<open>Math.max\<close> and \<^verbatim>\<open>Math.min\<close> of two numbers: \<open>+0\<close> counts as larger than \<open>-0\<close>.\<close>

definition Math_max :: "number \<Rightarrow> number \<Rightarrow> number" where
  "Math_max x y =
     (if x = NaN \<or> y = NaN then NaN
      else if num_lt x y then y
      else if num_lt y x then x
      else if x = Zero True then y else x)"

definition Math_min :: "number \<Rightarrow> number \<Rightarrow> number" where
  "Math_min x y =
     (if x = NaN \<or> y = NaN then NaN
      else if num_lt x y then x
      else if num_lt y x then y
      else if x = Zero False then y else x)"

text \<open>
  \<^verbatim>\<open>Number(b)\<close> of a BigInt rounds it. The language leaves \<^verbatim>\<open>Math.pow\<close>
  implementation-approximated, so what the engine returns for \<^verbatim>\<open>Math.pow(10, d)\<close> is a
  parameter of the runtime (the field \<open>Math_pow10\<close> below). \<open>rounded_pow10\<close> is the
  correctly rounded power, which the examples take as their engine's.
\<close>

definition Number_of_BigInt :: "int \<Rightarrow> number" where
  "Number_of_BigInt i = round64 (of_int i)"

definition rounded_pow10 :: "nat \<Rightarrow> number" where
  "rounded_pow10 d = round64 (pow10 (int d))"

subsection \<open>Numbers as strings\<close>

definition digit_char :: "nat \<Rightarrow> char" where
  "digit_char d = ''0123456789'' ! d"

function dec_digits :: "int \<Rightarrow> string" where
  "dec_digits n =
     (if n < 10 then [digit_char (nat n)]
      else dec_digits (n div 10) @ [digit_char (nat (n mod 10))])"
  by pat_completeness auto
termination
  by (relation "measure nat") auto

declare dec_digits.simps [simp del]

text \<open>\<open>floor_log10 a + 1\<close> is the number of digits before the decimal point of \<open>a > 0\<close>.\<close>

definition floor_log10 :: "rat \<Rightarrow> int" where
  "floor_log10 a =
     (let (p, q) = quotient_of a;
          n0 = int (length (dec_digits p)) - int (length (dec_digits q))
      in if pow10 n0 \<le> a then n0 else n0 - 1)"

text \<open>
  \<^verbatim>\<open>Number.prototype.toString\<close>: the shortest digit string \<open>s\<close> of \<open>k\<close> digits with
  \<open>s * 10 ^ (n - k)\<close> rounding to the number, the closest such \<open>s\<close> when there are two,
  the even one on a tie. For \<open>k\<close> digits only the two neighbours of the number on the
  \<open>k\<close>-digit grid can qualify. The result is \<open>(s, n)\<close>.
\<close>

fun shortest_digits :: "nat \<Rightarrow> rat \<Rightarrow> int \<Rightarrow> nat \<Rightarrow> int \<times> int" where
  "shortest_digits 0 a n k = (\<lfloor>a / pow10 (n - int k)\<rfloor>, n)"
| "shortest_digits (Suc fuel) a n k =
     (let sc = pow10 (n - int k);
          lo = \<lfloor>a / sc\<rfloor>;
          hi = lo + 1;
          ok_lo = (round64 (of_int lo * sc) = Fin a);
          ok_hi = (round64 (of_int hi * sc) = Fin a);
          dl = a - of_int lo * sc;
          dh = of_int hi * sc - a;
          up = (if of_int hi = pow10 (int k) then (hi div 10, n + 1) else (hi, n))
      in if ok_lo \<and> ok_hi then
           (if dl < dh then (lo, n) else if dh < dl then up
            else if even lo then (lo, n) else up)
         else if ok_lo then (lo, n)
         else if ok_hi then up
         else shortest_digits fuel a n (Suc k))"

definition pos_toString :: "rat \<Rightarrow> string" where
  "pos_toString a =
     (let (s, n) = shortest_digits 17 a (floor_log10 a + 1) 1;
          ds = dec_digits s;
          k = int (length ds)
      in if k \<le> n \<and> n \<le> 21 then ds @ replicate (nat (n - k)) (CHR ''0'')
         else if 0 < n \<and> n \<le> 21 then take (nat n) ds @ ''.'' @ drop (nat n) ds
         else if - 6 < n \<and> n \<le> 0 then ''0.'' @ replicate (nat (- n)) (CHR ''0'') @ ds
         else
           (let ex = (if 0 \<le> n - 1 then ''+'' else ''-'') @ dec_digits \<bar>n - 1\<bar>
            in if k = 1 then ds @ ''e'' @ ex
               else take 1 ds @ ''.'' @ drop 1 ds @ ''e'' @ ex))"

fun Number_toString :: "number \<Rightarrow> string" where
  "Number_toString NaN = ''NaN''"
| "Number_toString (Infinity s) = (if s then ''-Infinity'' else ''Infinity'')"
| "Number_toString (Zero s) = ''0''"
| "Number_toString (Fin q) = (if q < 0 then ''-'' else '''') @ pos_toString \<bar>q\<bar>"

text \<open>
  \<^verbatim>\<open>x.toFixed(f)\<close>: the integer \<open>n\<close> with \<open>n / 10 ^ f\<close> closest to \<open>x\<close> (the larger
  one on a tie), printed with \<open>f\<close> digits after the point; from \<open>10 ^ 21\<close> on, and for
  values that are not finite, the result of \<^verbatim>\<open>toString\<close>.
\<close>

definition fixed_digits :: "nat \<Rightarrow> int \<Rightarrow> string" where
  "fixed_digits f n =
     (let m = dec_digits n;
          m' = (if length m \<le> f then replicate (f + 1 - length m) (CHR ''0'') @ m else m);
          k = length m'
      in if f = 0 then m else take (k - f) m' @ ''.'' @ drop (k - f) m')"

fun toFixed :: "nat \<Rightarrow> number \<Rightarrow> string" where
  "toFixed f NaN = ''NaN''"
| "toFixed f (Infinity s) = (if s then ''-Infinity'' else ''Infinity'')"
| "toFixed f (Zero s) = fixed_digits f 0"
| "toFixed f (Fin q) =
     (if pow10 21 \<le> \<bar>q\<bar> then Number_toString (Fin q)
      else (if q < 0 then ''-'' else '''') @ fixed_digits f \<lfloor>\<bar>q\<bar> * pow10 (int f) + 1 / 2\<rfloor>)"

text \<open>
  \<^verbatim>\<open>parseFloat\<close>: leading white space, a sign, then \<^verbatim>\<open>Infinity\<close> or the longest
  decimal literal (digits, a fraction, an exponent); \<^verbatim>\<open>NaN\<close> when there is none.
\<close>

definition digit_val :: "char \<Rightarrow> int option" where
  "digit_val c = map_of (zip ''0123456789'' [0, 1, 2, 3, 4, 5, 6, 7, 8, 9]) c"

definition is_digit :: "char \<Rightarrow> bool" where
  "is_digit c = (digit_val c \<noteq> None)"

definition digits_val :: "string \<Rightarrow> int" where
  "digits_val ds = foldl (\<lambda>acc c. 10 * acc + the (digit_val c)) 0 ds"

definition is_space :: "char \<Rightarrow> bool" where
  "is_space c = (c = CHR '' '' \<or> c = CHR 0x09 \<or> c = CHR 0x0A \<or> c = CHR 0x0B
                 \<or> c = CHR 0x0C \<or> c = CHR 0x0D)"

definition take_sign :: "string \<Rightarrow> bool \<times> string" where
  "take_sign s =
     (case s of
        c # r \<Rightarrow> (if c = CHR ''-'' then (True, r) else if c = CHR ''+'' then (False, r)
                  else (False, s))
      | [] \<Rightarrow> (False, s))"

definition take_exponent :: "string \<Rightarrow> int" where
  "take_exponent s =
     (case s of
        c # r \<Rightarrow>
          (if c = CHR ''e'' \<or> c = CHR ''E'' then
             (let (neg, r') = take_sign r; ds = takeWhile is_digit r'
              in if ds = [] then 0 else if neg then - digits_val ds else digits_val ds)
           else 0)
      | [] \<Rightarrow> 0)"

definition parseFloat :: "string \<Rightarrow> number" where
  "parseFloat s =
     (let (neg, s2) = take_sign (dropWhile is_space s)
      in if take 8 s2 = ''Infinity'' then Infinity neg
         else
           (let ip = takeWhile is_digit s2;
                r1 = dropWhile is_digit s2;
                fp = (case r1 of c # r \<Rightarrow> (if c = CHR ''.'' then takeWhile is_digit r else [])
                      | [] \<Rightarrow> []);
                r2 = (case r1 of c # r \<Rightarrow> (if c = CHR ''.'' then dropWhile is_digit r else r1)
                      | [] \<Rightarrow> [])
            in if ip = [] \<and> fp = [] then NaN
               else
                 (let mant = digits_val (ip @ fp);
                      v = of_int mant * pow10 (take_exponent r2 - int (length fp))
                  in if mant = 0 then Zero neg
                     else round64 (if neg then - v else v))))"

section \<open>Data model\<close>

text \<open>
  The persisted collections. A decimal string that holds a BigInt (\<^verbatim>\<open>x.toString()\<close>, read
  back with \<^verbatim>\<open>BigInt(s)\<close>) is modelled by the integer; a string that holds a number
  (written by \<^verbatim>\<open>toString\<close> or \<^verbatim>\<open>toFixed\<close>, read back with \<^verbatim>\<open>parseFloat\<close>) stays a
  string. Block numbers, ticks, fees and counters are integers; a \<^verbatim>\<open>Date\<close> is its time
  value in milliseconds.

  Addresses and ids are strings as they are given. Several schema fields declare the setter
  \<^verbatim>\<open>val => val.toLowerCase()\<close>: \<^verbatim>\<open>poolId\<close>, \<^verbatim>\<open>currency0\<close>, \<^verbatim>\<open>currency1\<close>, \<^verbatim>\<open>hooks\<close> and
  \<^verbatim>\<open>transactionHash\<close> of Pool, \<^verbatim>\<open>address\<close> of Token, and \<^verbatim>\<open>tokenAddress\<close> of TokenMinute
  (TokenHour has none; the schema of TokenDay is not among the files, so the setter of its
  \<^verbatim>\<open>tokenAddress\<close> is a parameter, \<open>TokenDay_setter\<close> below, and its unique index is taken
  like that of the other two). The object mapper runs a setter where a document
  is created, on the value of the field in the filter of a query, and on the values of
  \<^verbatim>\<open>$set\<close> and \<^verbatim>\<open>$setOnInsert\<close>; \<open>toLowerCase\<close> is written at each of these places. It maps
  the letters \<^verbatim>\<open>A\<close> to \<^verbatim>\<open>Z\<close>, which covers the hexadecimal strings at hand.
\<close>

type_synonym address = string
type_synonym date = int

definition lower_char :: "char \<Rightarrow> char" where
  "lower_char c =
     (case map_of (zip ''ABCDEFGHIJKLMNOPQRSTUVWXYZ'' ''abcdefghijklmnopqrstuvwxyz'') c of
        Some l \<Rightarrow> l
      | None \<Rightarrow> c)"

definition toLowerCase :: "string \<Rightarrow> string" where
  "toLowerCase s = map lower_char s"

record pool =
  poolId :: string
  currency0 :: address
  currency1 :: address
  fee :: int
  tickSpacing :: int
  hooks :: address
  sqrtPriceX96 :: int
  tick :: int
  blockNumber :: int
  blockTimestamp :: date
  transactionHash :: string
  token0Price :: string
  token1Price :: string
  liquidity :: int
  totalValueLockedToken0 :: int
  totalValueLockedToken1 :: int

record swap_event =
  poolAddress :: string
  token0Address :: address
  token1Address :: address
  se_transactionHash :: string
  se_blockNumber :: int
  se_blockTimestamp :: date
  sender :: address
  recipient :: address
  amount0 :: int
  amount1 :: int
  se_sqrtPriceX96 :: int
  se_liquidity :: int
  se_tick :: int
  logIndex :: int
  se_fee :: int
  amountUSD :: string

record sync_state =
  poolManagerAddress :: address
  lastSyncedBlock :: int
  currentBlock :: int
  isInitialSyncComplete :: bool
  lastSyncedAt :: "date option"

record token =
  address :: address
  symbol :: string
  name :: string
  decimals :: nat
  volume :: int
  volumeUSD :: string
  untrackedVolumeUSD :: string
  feesUSD :: string
  totalValueLocked :: string
  totalValueLockedUSD :: string
  derivedBTC :: string
  txCount :: int
  whitelistPools :: "string list"

datatype TimeInterval = MINUTE | HOUR | DAY

datatype RecordStatus = CURRENT | FINALIZED

text \<open>One row of a candle collection (\<^verbatim>\<open>TokenMinute\<close>, \<^verbatim>\<open>TokenHour\<close>, \<^verbatim>\<open>TokenDay\<close>).\<close>

record candle =
  tokenAddress :: address
  c_date :: date
  status :: RecordStatus
  c_volume :: int
  c_volumeUSD :: string
  c_untrackedVolumeUSD :: string
  c_totalValueLocked :: int
  c_totalValueLockedUSD :: string
  priceUSD :: string
  c_feesUSD :: string
  c_open :: string
  c_high :: string
  c_low :: string
  c_close :: string
  c_txCount :: int

text \<open>
  Errors are values. \<open>DuplicateKey\<close> is the driver's error with \<^verbatim>\<open>code === 11000\<close>, raised by
  an insert that violates a unique index; \<open>ValidationError\<close> is the object mapper's, raised
  before the insert when a value cannot be cast to the type of its field; the others come
  from the chain provider, from a property read on \<^verbatim>\<open>null\<close>, from the log decoder and from
  the tick mathematics.
\<close>

datatype error = DuplicateKey | ValidationError | RpcError | TypeError | ParseError | MathError

datatype level = LOG | WARN | ERROR | DEBUG

type_synonym log_entry = "level \<times> string"

datatype bus_event = SwapCreated swap_event | CandleFinalized TimeInterval candle

text \<open>
  The logs of the pool manager, decoded. \<open>parsed\<close> is the result of
  \<^verbatim>\<open>contract.interface.parseLog\<close>: it throws, returns \<^verbatim>\<open>null\<close>, or yields the arguments of
  one of the three events, which is also what the first topic tells.
\<close>

datatype event_args =
    Initialize string address address int int address int int
  | Swap string address int int int int int int
  | ModifyLiquidity string address int int int string

datatype parse_result = ParseThrows | ParseNull | Parsed event_args

record log =
  l_blockNumber :: int
  l_transactionHash :: string
  l_index :: int
  parsed :: parse_result

text \<open>
  The chain provider and the contracts, as the services call them, and what the JavaScript
  runtime supplies. A call that rejects is \<open>Inl\<close>; \<open>getBlock\<close> resolves to a block's
  timestamp in seconds, or to \<^verbatim>\<open>null\<close> (\<open>None\<close>). \<open>getAmount0\<close> and \<open>getAmount1\<close> are the
  tick mathematics of \<^verbatim>\<open>liquidityMath/liquidityAmounts\<close>, whose source is not part of the
  files at hand: they are parameters. \<open>now\<close> is the wall clock. \<open>LocalTZA t isUTC\<close> is the
  offset of the process's local time zone in milliseconds, as the language defines it: at
  the instant \<open>t\<close> when \<open>isUTC\<close>, at the local time \<open>t\<close> otherwise; it changes with
  daylight saving. \<open>Math_pow10 d\<close> is the engine's \<^verbatim>\<open>Math.pow(10, d)\<close>. \<open>TokenDay_setter\<close>
  is what the schema of TokenDay does to a \<^verbatim>\<open>tokenAddress\<close>: the identity when it declares no
  setter.
\<close>

record chain =
  getBlockNumber :: "error + int"
  getBlock :: "int \<Rightarrow> error + int option"
  getLogs :: "int \<Rightarrow> int \<Rightarrow> error + log list"
  erc20_decimals :: "address \<Rightarrow> error + nat"
  erc20_symbol :: "address \<Rightarrow> error + string"
  erc20_name :: "address \<Rightarrow> error + string"
  getAmount0 :: "int \<Rightarrow> int \<Rightarrow> int \<Rightarrow> int \<Rightarrow> int \<Rightarrow> error + int"
  getAmount1 :: "int \<Rightarrow> int \<Rightarrow> int \<Rightarrow> int \<Rightarrow> int \<Rightarrow> error + int"
  now :: date
  LocalTZA :: "date \<Rightarrow> bool \<Rightarrow> int"
  Math_pow10 :: "nat \<Rightarrow> number"
  TokenDay_setter :: "address \<Rightarrow> address"

text \<open>The values \<^verbatim>\<open>ConfigService\<close> hands out.\<close>

record config =
  uniswapV4PoolManagerAddress :: address
  startingBlock :: int
  syncBatchSize :: int
  stablecoinWrappedNativePoolId :: string
  stablecoinIsToken0 :: bool
  wrappedNativeAddress :: address
  whitelistTokens :: "address list"
  stablecoinAddresses :: "address list"

text \<open>
  \<^verbatim>\<open>ConfigService\<close> reads the variables of the process environment, each with its default. A
  variable is \<open>None\<close> when it is unset or empty; a number is given as the integer that
  \<^verbatim>\<open>parseInt\<close> reads from it, a list as its trimmed items.
\<close>

record process_env =
  UNISWAP_V4_POOL_MANAGER_ADDRESS :: "string option"
  STARTING_BLOCK :: "int option"
  SYNC_BATCH_SIZE :: "int option"
  STABLECOIN_WRAPPED_NATIVE_POOL_ID :: "string option"
  STABLECOIN_IS_TOKEN0 :: "string option"
  WRAPPED_NATIVE_ADDRESS :: "string option"
  WHITELIST_TOKENS :: "string list option"
  STABLECOIN_ADDRESSES :: "string list option"

definition configService :: "process_env \<Rightarrow> config" where
  "configService penv =
     \<lparr>uniswapV4PoolManagerAddress =
        (case UNISWAP_V4_POOL_MANAGER_ADDRESS penv of None \<Rightarrow> [] | Some a \<Rightarrow> a),
      startingBlock = (case STARTING_BLOCK penv of None \<Rightarrow> 0 | Some n \<Rightarrow> n),
      syncBatchSize = (case SYNC_BATCH_SIZE penv of None \<Rightarrow> 1000 | Some n \<Rightarrow> n),
      stablecoinWrappedNativePoolId =
        (case STABLECOIN_WRAPPED_NATIVE_POOL_ID penv of None \<Rightarrow> [] | Some a \<Rightarrow> a),
      stablecoinIsToken0 = (STABLECOIN_IS_TOKEN0 penv = Some ''true''),
      wrappedNativeAddress = (case WRAPPED_NATIVE_ADDRESS penv of None \<Rightarrow> [] | Some a \<Rightarrow> a),
      whitelistTokens = (case WHITELIST_TOKENS penv of None \<Rightarrow> [] | Some l \<Rightarrow> l),
      stablecoinAddresses = (case STABLECOIN_ADDRESSES penv of None \<Rightarrow> [] | Some l \<Rightarrow> l)\<rparr>"

text \<open>
  The state of the two services: the collections, the logger's output, the events emitted on
  the bus, and the fields of \<^verbatim>\<open>SwapEventsService\<close> (\<^verbatim>\<open>isSyncing\<close>, and the cache of token
  decimals as the list of its entries, the latest first). A collection is the list of its documents in insertion order; documents are
  never deleted, so a document's \<^verbatim>\<open>_id\<close> is its position.
\<close>

record state =
  pools :: "pool list"
  swapEvents :: "swap_event list"
  syncStates :: "sync_state list"
  tokens :: "token list"
  tokenMinutes :: "candle list"
  tokenHours :: "candle list"
  tokenDays :: "candle list"
  logs :: "log_entry list"
  emitted :: "bus_event list"
  isSyncing :: bool
  tokenDecimalsCache :: "(address \<times> nat) list"

subsection \<open>Collections\<close>

text \<open>
  \<^verbatim>\<open>findOne\<close> returns the first document that matches, \<^verbatim>\<open>updateOne\<close> changes the first
  document that matches and nothing when there is none, \<^verbatim>\<open>updateMany\<close> changes every one, and
  \<^verbatim>\<open>create\<close> is refused with \<open>DuplicateKey\<close> when a document with the same key of the
  unique index exists.
\<close>

definition findOne :: "('a \<Rightarrow> bool) \<Rightarrow> 'a list \<Rightarrow> 'a option" where
  "findOne P xs = find P xs"

fun findIndex :: "('a \<Rightarrow> bool) \<Rightarrow> 'a list \<Rightarrow> nat option" where
  "findIndex P [] = None"
| "findIndex P (x # xs) = (if P x then Some 0 else map_option Suc (findIndex P xs))"

fun updateOne :: "('a \<Rightarrow> bool) \<Rightarrow> ('a \<Rightarrow> 'a) \<Rightarrow> 'a list \<Rightarrow> 'a list" where
  "updateOne P f [] = []"
| "updateOne P f (x # xs) = (if P x then f x # xs else x # updateOne P f xs)"

definition updateMany :: "('a \<Rightarrow> bool) \<Rightarrow> ('a \<Rightarrow> 'a) \<Rightarrow> 'a list \<Rightarrow> 'a list" where
  "updateMany P f xs = map (\<lambda>x. if P x then f x else x) xs"

definition create :: "('a \<Rightarrow> 'k) \<Rightarrow> 'a \<Rightarrow> 'a list \<Rightarrow> error + 'a list" where
  "create key x xs = (if key x \<in> key ` set xs then Inl DuplicateKey else Inr (xs @ [x]))"

definition logger :: "level \<Rightarrow> string \<Rightarrow> state \<Rightarrow> state" where
  "logger lv msg st = st\<lparr>logs := logs st @ [(lv, msg)]\<rparr>"

definition emit :: "bus_event \<Rightarrow> state \<Rightarrow> state" where
  "emit ev st = st\<lparr>emitted := emitted st @ [ev]\<rparr>"

fun getModelByInterval :: "TimeInterval \<Rightarrow> state \<Rightarrow> candle list" where
  "getModelByInterval MINUTE st = tokenMinutes st"
| "getModelByInterval HOUR st = tokenHours st"
| "getModelByInterval DAY st = tokenDays st"

fun setModel :: "TimeInterval \<Rightarrow> candle list \<Rightarrow> state \<Rightarrow> state" where
  "setModel MINUTE cs st = st\<lparr>tokenMinutes := cs\<rparr>"
| "setModel HOUR cs st = st\<lparr>tokenHours := cs\<rparr>"
| "setModel DAY cs st = st\<lparr>tokenDays := cs\<rparr>"

text \<open>The setter of \<^verbatim>\<open>tokenAddress\<close> in the candle collection of an interval.\<close>

definition candleAddress :: "chain \<Rightarrow> TimeInterval \<Rightarrow> address \<Rightarrow> address" where
  "candleAddress env interval a =
     (case interval of
        MINUTE \<Rightarrow> toLowerCase a
      | HOUR \<Rightarrow> a
      | DAY \<Rightarrow> TokenDay_setter env a)"

section \<open>The aggregation service\<close>

definition ZERO_BI :: int where
  "ZERO_BI = 0"

definition ZERO_BD :: number where
  "ZERO_BD = Zero False"

definition ONE_BD :: number where
  "ONE_BD = Fin 1"

definition ADDRESS_ZERO :: address where
  "ADDRESS_ZERO = ''0x0000000000000000000000000000000000000000''"

text \<open>
  \<^verbatim>\<open>fetchTokenMetadata\<close>: the native and the wrapped-native token have fixed metadata; a
  failing \<^verbatim>\<open>decimals()\<close> falls back to the defaults for all three, a failing
  \<^verbatim>\<open>symbol()\<close> or \<^verbatim>\<open>name()\<close> to its own default.
\<close>

definition fetchTokenMetadata ::
  "chain \<Rightarrow> config \<Rightarrow> address \<Rightarrow> state \<Rightarrow> (nat \<times> string \<times> string) \<times> state" where
  "fetchTokenMetadata env cfg tokenAddr st =
     (if tokenAddr = ADDRESS_ZERO \<or> tokenAddr = wrappedNativeAddress cfg
      then ((18, ''ETH'', ''Ethereum''), st)
      else
        (case erc20_decimals env tokenAddr of
           Inl e \<Rightarrow>
             ((18, ''UNKNOWN'', ''Unknown Token''),
              logger ERROR ''Failed to fetch metadata, using defaults'' st)
         | Inr d \<Rightarrow>
             ((d,
               (case erc20_symbol env tokenAddr of Inl e \<Rightarrow> ''UNKNOWN'' | Inr sy \<Rightarrow> sy),
               (case erc20_name env tokenAddr of Inl e \<Rightarrow> ''Unknown Token'' | Inr nm \<Rightarrow> nm)),
              logger LOG ''Fetched metadata'' st)))"

text \<open>\<^verbatim>\<open>getNativePriceInUSD\<close>: the price read from the stablecoin / wrapped-native pool.\<close>

definition getNativePriceInUSD :: "config \<Rightarrow> state \<Rightarrow> number \<times> state" where
  "getNativePriceInUSD cfg st =
     (if stablecoinWrappedNativePoolId cfg = [] then
        (ZERO_BD, logger WARN ''Stablecoin-wrapped native pool ID not configured'' st)
      else
        (case findOne (\<lambda>p. poolId p = toLowerCase (stablecoinWrappedNativePoolId cfg))
                (pools st) of
           None \<Rightarrow> (ZERO_BD, logger WARN ''Stablecoin-wrapped native pool not found'' st)
         | Some pool \<Rightarrow>
             (let nativePriceUSD =
                    (if stablecoinIsToken0 cfg then parseFloat (token0Price pool)
                     else parseFloat (token1Price pool))
              in (if truthy nativePriceUSD then nativePriceUSD else ZERO_BD, st))))"

definition abs_bigint :: "int \<Rightarrow> int" where
  "abs_bigint amount = (if amount < 0 then - amount else amount)"

text \<open>Division and remainder of BigInts truncate towards zero.\<close>

definition bigint_div :: "int \<Rightarrow> int \<Rightarrow> int" where
  "bigint_div a b = sgn a * sgn b * (\<bar>a\<bar> div \<bar>b\<bar>)"

definition bigint_rem :: "int \<Rightarrow> int \<Rightarrow> int" where
  "bigint_rem a b = sgn a * (\<bar>a\<bar> mod \<bar>b\<bar>)"

definition toDecimal :: "int \<Rightarrow> nat \<Rightarrow> number" where
  "toDecimal amount dec =
     (let divisor = 10 ^ dec;
          whole = Number_of_BigInt (bigint_div amount divisor);
          remainder = Number_of_BigInt (bigint_rem amount divisor)
      in num_add whole (num_div remainder (Number_of_BigInt divisor)))"

text \<open>
  \<^verbatim>\<open>roundTimestamp\<close> clears the fields of the local time below the interval
  (\<^verbatim>\<open>setSeconds(0, 0)\<close>, \<^verbatim>\<open>setMinutes(0, 0, 0)\<close>, \<^verbatim>\<open>setHours(0, 0, 0, 0)\<close>), and
  \<^verbatim>\<open>getPreviousPeriod\<close> steps one minute, hour or calendar day back in local time
  (\<^verbatim>\<open>setMinutes(getMinutes() - 1)\<close>, \<^verbatim>\<open>setHours(getHours() - 1)\<close>,
  \<^verbatim>\<open>setDate(getDate() - 1)\<close>). A setter of \<^verbatim>\<open>Date\<close> takes the local time of the instant,
  changes it, and converts the local time back: \<open>LocalTime\<close> and \<open>UTC\<close> of the language.
  Across a change of daylight saving the calendar day stepped back is 23 or 25 hours long.
\<close>

definition LocalTime :: "chain \<Rightarrow> date \<Rightarrow> date" where
  "LocalTime env t = t + LocalTZA env t True"

definition UTC :: "chain \<Rightarrow> date \<Rightarrow> date" where
  "UTC env t = t - LocalTZA env t False"

fun period_ms :: "TimeInterval \<Rightarrow> int" where
  "period_ms MINUTE = 60000"
| "period_ms HOUR = 3600000"
| "period_ms DAY = 86400000"

definition roundTimestamp :: "chain \<Rightarrow> date \<Rightarrow> TimeInterval \<Rightarrow> date" where
  "roundTimestamp env d interval =
     (let local = LocalTime env d
      in UTC env (local - local mod period_ms interval))"

definition getPreviousPeriod :: "chain \<Rightarrow> date \<Rightarrow> TimeInterval \<Rightarrow> date" where
  "getPreviousPeriod env d interval = UTC env (LocalTime env d - period_ms interval)"

text \<open>
  \<^verbatim>\<open>findNativePerToken\<close>: the price of a token in the wrapped-native unit. \<open>poolStep\<close> is
  the body of its loop over the token's whitelist pools, on the pair
  \<open>(largestLiquidityBTC, priceSoFar)\<close>.
\<close>

definition poolStep ::
  "state \<Rightarrow> address \<Rightarrow> int \<Rightarrow> number \<times> number \<Rightarrow> string \<Rightarrow> number \<times> number" where
  "poolStep st tokenAddr minimumNativeLocked acc poolAddr =
     (case findOne (\<lambda>p. poolId p = toLowerCase poolAddr) (pools st) of
        None \<Rightarrow> acc
      | Some pool \<Rightarrow>
          (if liquidity pool > 0 then
             (let acc1 =
                    (if currency0 pool = tokenAddr then
                       (case findOne (\<lambda>t. address t = toLowerCase (currency1 pool))
                               (tokens st) of
                          None \<Rightarrow> acc
                        | Some token1 \<Rightarrow>
                            (let tvlDecimal = toDecimal (totalValueLockedToken1 pool) (decimals token1);
                                 btcLocked = num_mul tvlDecimal (parseFloat (derivedBTC token1))
                             in if num_gt btcLocked (fst acc)
                                   \<and> num_gt btcLocked (Number_of_BigInt minimumNativeLocked)
                                then (btcLocked,
                                      num_mul (parseFloat (token1Price pool))
                                        (parseFloat (derivedBTC token1)))
                                else acc))
                     else acc)
              in if currency1 pool = tokenAddr then
                   (case findOne (\<lambda>t. address t = toLowerCase (currency0 pool))
                           (tokens st) of
                      None \<Rightarrow> acc1
                    | Some token0 \<Rightarrow>
                        (let tvlDecimal = toDecimal (totalValueLockedToken0 pool) (decimals token0);
                             btcLocked = num_mul tvlDecimal (parseFloat (derivedBTC token0))
                         in if num_gt btcLocked (fst acc1)
                               \<and> num_gt btcLocked (Number_of_BigInt minimumNativeLocked)
                            then (btcLocked,
                                  num_mul (parseFloat (token0Price pool))
                                    (parseFloat (derivedBTC token0)))
                            else acc1))
                 else acc1)
           else acc))"

definition findNativePerToken ::
  "config \<Rightarrow> token \<Rightarrow> address \<Rightarrow> address list \<Rightarrow> int \<Rightarrow> state \<Rightarrow> number \<times> state" where
  "findNativePerToken cfg tok wrappedNative stablecoins minimumNativeLocked st =
     (if address tok = wrappedNative \<or> address tok = ADDRESS_ZERO then (Fin 1, st)
      else if address tok \<in> set stablecoins then
        (let (btcPrice, st1) = getNativePriceInUSD cfg st
         in if \<not> truthy btcPrice then (Fin 1, st1)
            else (num_div (Fin 1) btcPrice, st1))
      else
        (snd (foldl (poolStep st (address tok) minimumNativeLocked) (ZERO_BD, ZERO_BD)
                (whitelistPools tok)),
         st))"

text \<open>
  \<^verbatim>\<open>processTokenWhitelistUpdate\<close>: an upsert that adds the pool to the token's set of whitelist
  pools and inserts the token with defaults when it is new. \<^verbatim>\<open>$addToSet\<close> takes the pool id
  as it is given.
\<close>

definition processTokenWhitelistUpdate :: "address \<Rightarrow> string \<Rightarrow> state \<Rightarrow> state" where
  "processTokenWhitelistUpdate tokenAddr pid st =
     (let ts =
            (case findOne (\<lambda>t. address t = toLowerCase tokenAddr) (tokens st) of
               Some t \<Rightarrow>
                 updateOne (\<lambda>t. address t = toLowerCase tokenAddr)
                   (\<lambda>t. if pid \<in> set (whitelistPools t) then t
                        else t\<lparr>whitelistPools := whitelistPools t @ [pid]\<rparr>)
                   (tokens st)
             | None \<Rightarrow>
                 tokens st @
                   [\<lparr>address = toLowerCase tokenAddr, symbol = ''UNKNOWN'',
                     name = ''Unknown Token'',
                     decimals = 18, volume = 0, volumeUSD = ''0'', untrackedVolumeUSD = ''0'',
                     feesUSD = ''0'', totalValueLocked = ''0'', totalValueLockedUSD = ''0'',
                     derivedBTC = ''0'', txCount = 0, whitelistPools = [pid]\<rparr>])
      in logger LOG ''Updated whitelist for token'' (st\<lparr>tokens := ts\<rparr>))"

text \<open>
  \<^verbatim>\<open>updateOrCreateCurrentRecord\<close>: fold one swap into the current candle of an interval, or
  insert the candle. It works in two steps with an \<^verbatim>\<open>await\<close> between them. The first reads
  the current candle of the bucket (\<^verbatim>\<open>findOne\<close> with \<^verbatim>\<open>status: current\<close>). The second writes:
  when a candle was read, an \<^verbatim>\<open>updateOne\<close> addressed by the \<^verbatim>\<open>_id\<close> of that candle alone,
  which sets the twelve fields to values computed from the candle as it was read
  (\<open>foldCandle\<close>) and leaves the others, the status among them, as the document has them
  by then; otherwise an insert, subject to the unique index on \<open>(tokenAddress, date)\<close>.
  Another task, such as a timer of the finalizer, can run between the two steps, so they are
  two functions: \<open>findCurrentRecord\<close> and \<open>writeRecord\<close>. \<open>updateOrCreateCurrentRecord\<close> is
  the run in which nothing comes between them. The result of a write is the error thrown,
  if any, and the state.
\<close>

definition foldCandle :: "candle \<Rightarrow> int \<Rightarrow> number \<Rightarrow> number \<Rightarrow> number \<Rightarrow> int \<Rightarrow> number \<Rightarrow> candle" where
  "foldCandle existingRecord volumeDelta volumeUSDDelta feesDelta currentPrice tvl tvlUSD =
     (let newVolume = c_volume existingRecord + volumeDelta;
          newVolumeUSD = num_add (parseFloat (c_volumeUSD existingRecord)) volumeUSDDelta;
          newUntrackedVolumeUSD =
            num_add (parseFloat (c_untrackedVolumeUSD existingRecord)) volumeUSDDelta;
          newFeesUSD = num_add (parseFloat (c_feesUSD existingRecord)) feesDelta;
          newTxCount = c_txCount existingRecord + 1;
          opn = (if c_open existingRecord \<noteq> ''0'' then parseFloat (c_open existingRecord)
                 else currentPrice);
          high = Math_max (parseFloat (c_high existingRecord)) currentPrice;
          low = (if c_low existingRecord \<noteq> ''0''
                 then Math_min (parseFloat (c_low existingRecord)) currentPrice
                 else currentPrice);
          cls = currentPrice
      in existingRecord
           \<lparr>c_volume := newVolume,
            c_volumeUSD := toFixed 6 newVolumeUSD,
            c_untrackedVolumeUSD := toFixed 6 newUntrackedVolumeUSD,
            c_feesUSD := toFixed 6 newFeesUSD,
            c_totalValueLocked := tvl,
            c_totalValueLockedUSD := toFixed 6 tvlUSD,
            priceUSD := toFixed 6 currentPrice,
            c_open := toFixed 6 opn,
            c_high := toFixed 6 high,
            c_low := toFixed 6 low,
            c_close := toFixed 6 cls,
            c_txCount := newTxCount\<rparr>)"

definition newCandle :: "address \<Rightarrow> date \<Rightarrow> int \<Rightarrow> number \<Rightarrow> number \<Rightarrow> number \<Rightarrow> int \<Rightarrow> number \<Rightarrow> candle" where
  "newCandle tokenAddr d volumeDelta volumeUSDDelta feesDelta currentPrice tvl tvlUSD =
     \<lparr>tokenAddress = tokenAddr, c_date = d, status = CURRENT,
      c_volume = volumeDelta,
      c_volumeUSD = toFixed 6 volumeUSDDelta,
      c_untrackedVolumeUSD = toFixed 6 volumeUSDDelta,
      c_totalValueLocked = tvl,
      c_totalValueLockedUSD = toFixed 6 tvlUSD,
      priceUSD = toFixed 6 currentPrice,
      c_feesUSD = toFixed 6 feesDelta,
      c_open = toFixed 6 currentPrice,
      c_high = toFixed 6 currentPrice,
      c_low = toFixed 6 currentPrice,
      c_close = toFixed 6 currentPrice,
      c_txCount = 1\<rparr>"

definition candle_key :: "candle \<Rightarrow> address \<times> date" where
  "candle_key c = (tokenAddress c, c_date c)"

definition setFields :: "candle \<Rightarrow> candle \<Rightarrow> candle" where
  "setFields upd doc =
     doc\<lparr>c_volume := c_volume upd,
         c_volumeUSD := c_volumeUSD upd,
         c_untrackedVolumeUSD := c_untrackedVolumeUSD upd,
         c_feesUSD := c_feesUSD upd,
         c_totalValueLocked := c_totalValueLocked upd,
         c_totalValueLockedUSD := c_totalValueLockedUSD upd,
         priceUSD := priceUSD upd,
         c_open := c_open upd,
         c_high := c_high upd,
         c_low := c_low upd,
         c_close := c_close upd,
         c_txCount := c_txCount upd\<rparr>"

definition findCurrentRecord ::
  "chain \<Rightarrow> address \<Rightarrow> TimeInterval \<Rightarrow> date \<Rightarrow> state \<Rightarrow> (nat \<times> candle) option" where
  "findCurrentRecord env tokenAddr interval timestamp st =
     (let d = roundTimestamp env timestamp interval;
          model = getModelByInterval interval st
      in case findIndex (\<lambda>c. tokenAddress c = candleAddress env interval tokenAddr \<and> c_date c = d
                               \<and> status c = CURRENT)
                model of
           None \<Rightarrow> None
         | Some i \<Rightarrow> Some (i, model ! i))"

definition writeRecord ::
  "chain \<Rightarrow> address \<Rightarrow> TimeInterval \<Rightarrow> date \<Rightarrow> int \<Rightarrow> number \<Rightarrow> number \<Rightarrow> number \<Rightarrow> int
     \<Rightarrow> number \<Rightarrow> (nat \<times> candle) option \<Rightarrow> state \<Rightarrow> error option \<times> state" where
  "writeRecord env tokenAddr interval timestamp volumeDelta volumeUSDDelta feesDelta
       currentPrice tvl tvlUSD existing st =
     (let d = roundTimestamp env timestamp interval;
          model = getModelByInterval interval st
      in case existing of
           Some (i, existingRecord) \<Rightarrow>
             (None,
              (if i < length model then
                 setModel interval
                   (model[i := setFields
                                 (foldCandle existingRecord volumeDelta volumeUSDDelta
                                    feesDelta currentPrice tvl tvlUSD)
                                 (model ! i)])
                   st
               else st))
         | None \<Rightarrow>
             (case create candle_key
                     (newCandle (candleAddress env interval tokenAddr) d volumeDelta
                        volumeUSDDelta feesDelta currentPrice tvl tvlUSD)
                     model of
                Inl e \<Rightarrow> (Some e, st)
              | Inr model' \<Rightarrow> (None, setModel interval model' st)))"

definition updateOrCreateCurrentRecord ::
  "chain \<Rightarrow> address \<Rightarrow> TimeInterval \<Rightarrow> date \<Rightarrow> int \<Rightarrow> number \<Rightarrow> number \<Rightarrow> number \<Rightarrow> int
     \<Rightarrow> number \<Rightarrow> state \<Rightarrow> error option \<times> state" where
  "updateOrCreateCurrentRecord env tokenAddr interval timestamp volumeDelta volumeUSDDelta
       feesDelta currentPrice tvl tvlUSD st =
     writeRecord env tokenAddr interval timestamp volumeDelta volumeUSDDelta feesDelta
       currentPrice tvl tvlUSD (findCurrentRecord env tokenAddr interval timestamp st) st"

text \<open>
  \<^verbatim>\<open>updateCurrentRecord\<close>: the cumulative values of one token of a swap, then its three
  candles. \<open>number_of_int\<close> is a number that holds an integer (the fee of a swap).
  \<^verbatim>\<open>Promise.all\<close> starts the three candle updates together; they work on three different
  collections, so they are run one after the other, all three, and the first error is the one
  thrown. Every address is the one the caller hands in; the filters and the inserted
  document pass through the setter of \<^verbatim>\<open>Token.address\<close>.
\<close>

definition number_of_int :: "int \<Rightarrow> number" where
  "number_of_int i = round64 (of_int i)"

definition amountUSD_const :: number where
  "amountUSD_const = Zero False"

definition swap_feesUSD :: "swap_event \<Rightarrow> number" where
  "swap_feesUSD swap =
     (let feePercentage = num_div (number_of_int (se_fee swap)) (Fin 10000)
      in num_mul amountUSD_const feePercentage)"

definition first_error :: "error option \<Rightarrow> error option \<Rightarrow> error option" where
  "first_error a b = (case a of Some e \<Rightarrow> Some e | None \<Rightarrow> b)"

text \<open>
  The body of \<^verbatim>\<open>updateCurrentRecord\<close> in its four steps: get or create the token, refresh
  metadata that still holds the defaults, write the cumulative values, fold the swap into the
  three candles.
\<close>

definition getOrCreateToken :: "chain \<Rightarrow> config \<Rightarrow> address \<Rightarrow> state \<Rightarrow> token option \<times> state" where
  "getOrCreateToken env cfg tokenAddr st =
     (case findOne (\<lambda>t. address t = toLowerCase tokenAddr) (tokens st) of
        Some t \<Rightarrow> (Some t, st)
      | None \<Rightarrow>
          (let ((dec, sym, nam), sa) = fetchTokenMetadata env cfg tokenAddr st;
               t = \<lparr>address = toLowerCase tokenAddr, symbol = sym, name = nam,
                    decimals = dec,
                    volume = 0, volumeUSD = ''0'', untrackedVolumeUSD = ''0'',
                    feesUSD = ''0'', totalValueLocked = ''0'',
                    totalValueLockedUSD = ''0'', derivedBTC = ''0'', txCount = 0,
                    whitelistPools = []\<rparr>
           in case create address t (tokens sa) of
                Inr ts \<Rightarrow> (Some t, sa\<lparr>tokens := ts\<rparr>)
              | Inl e \<Rightarrow> (findOne (\<lambda>t. address t = toLowerCase tokenAddr) (tokens sa), sa)))"

definition refreshTokenMetadata :: "chain \<Rightarrow> config \<Rightarrow> address \<Rightarrow> token \<Rightarrow> state \<Rightarrow> token \<times> state" where
  "refreshTokenMetadata env cfg tokenAddr t0 st =
     (if symbol t0 = ''UNKNOWN'' then
        (let ((dec, sym, nam), sa) = fetchTokenMetadata env cfg tokenAddr st
         in (t0\<lparr>decimals := dec, symbol := sym, name := nam\<rparr>,
             sa\<lparr>tokens :=
                  updateOne (\<lambda>t. address t = toLowerCase tokenAddr)
                    (\<lambda>t. t\<lparr>decimals := dec, symbol := sym, name := nam\<rparr>)
                    (tokens sa)\<rparr>))
      else (t0, st))"

definition updateTokenTotals :: "address \<Rightarrow> token \<Rightarrow> int \<Rightarrow> number \<Rightarrow> number \<Rightarrow> number \<Rightarrow> state \<Rightarrow> state" where
  "updateTokenTotals tokenAddr tok absAmountBigInt amountUSD' feesUSD' derived st =
     st\<lparr>tokens :=
          updateOne (\<lambda>t. address t = toLowerCase tokenAddr)
            (\<lambda>t. t\<lparr>txCount := txCount t + 1,
                   volume := volume tok + absAmountBigInt,
                   volumeUSD := toFixed 6 (num_add (parseFloat (volumeUSD tok)) amountUSD'),
                   untrackedVolumeUSD :=
                     toFixed 6 (num_add (parseFloat (untrackedVolumeUSD tok)) amountUSD'),
                   feesUSD := toFixed 6 (num_add (parseFloat (feesUSD tok)) feesUSD'),
                   derivedBTC := toFixed 18 derived\<rparr>)
            (tokens st)\<rparr>"

definition updateCandles ::
  "chain \<Rightarrow> address \<Rightarrow> date \<Rightarrow> int \<Rightarrow> number \<Rightarrow> number \<Rightarrow> number \<Rightarrow> int \<Rightarrow> number \<Rightarrow> state
     \<Rightarrow> error option \<times> state" where
  "updateCandles env tokenAddr timestamp absAmountBigInt amountUSD' feesUSD' derived newTVL
       newTVLUSD st =
     (let (e1, s1) =
            updateOrCreateCurrentRecord env tokenAddr MINUTE timestamp absAmountBigInt
              amountUSD' feesUSD' derived newTVL newTVLUSD st;
          (e2, s2) =
            updateOrCreateCurrentRecord env tokenAddr HOUR timestamp absAmountBigInt
              amountUSD' feesUSD' derived newTVL newTVLUSD s1;
          (e3, s3) =
            updateOrCreateCurrentRecord env tokenAddr DAY timestamp absAmountBigInt
              amountUSD' feesUSD' derived newTVL newTVLUSD s2
      in (first_error e1 (first_error e2 e3), s3))"

definition updateCurrentRecord ::
  "chain \<Rightarrow> config \<Rightarrow> swap_event \<Rightarrow> address \<Rightarrow> bool \<Rightarrow> state \<Rightarrow> error option \<times> state" where
  "updateCurrentRecord env cfg swap tokenAddr isToken0 st =
     (let (tok0, st1) = getOrCreateToken env cfg tokenAddr st
      in case tok0 of
           None \<Rightarrow> (Some TypeError, st1)
         | Some t0 \<Rightarrow>
             (let (tok, st2) = refreshTokenMetadata env cfg tokenAddr t0 st1;
                  amount = (if isToken0 then amount0 swap else amount1 swap);
                  absAmountBigInt = abs_bigint amount;
                  amountUSD' = amountUSD_const;
                  feesUSD' = swap_feesUSD swap;
                  newTVL = 0;
                  newTVLUSD = Zero False;
                  (derived, st3) =
                    findNativePerToken cfg tok (wrappedNativeAddress cfg)
                      (stablecoinAddresses cfg) ZERO_BI st2;
                  st4 = updateTokenTotals tokenAddr tok absAmountBigInt amountUSD' feesUSD'
                          derived st3
              in updateCandles env tokenAddr (se_blockTimestamp swap) absAmountBigInt
                   amountUSD' feesUSD' derived newTVL newTVLUSD st4))"

text \<open>\<^verbatim>\<open>processSwapEvent\<close>: both tokens of the swap, inside one \<^verbatim>\<open>try\<close>.\<close>

definition processSwapEvent :: "chain \<Rightarrow> config \<Rightarrow> swap_event \<Rightarrow> state \<Rightarrow> state" where
  "processSwapEvent env cfg swap st =
     (case updateCurrentRecord env cfg swap (token0Address swap) True st of
        (Some e, st1) \<Rightarrow> logger ERROR ''Error handling swap event for aggregation'' st1
      | (None, st1) \<Rightarrow>
          (case updateCurrentRecord env cfg swap (token1Address swap) False st1 of
             (Some e, st2) \<Rightarrow> logger ERROR ''Error handling swap event for aggregation'' st2
           | (None, st2) \<Rightarrow> st2))"

text \<open>
  \<^verbatim>\<open>finalizeRecords\<close>, run by the three timers: every current candle of the period that
  just ended becomes finalized, and one \<^verbatim>\<open>candle.finalized\<close> event is emitted for each.
\<close>

definition finalizeRecords :: "chain \<Rightarrow> TimeInterval \<Rightarrow> state \<Rightarrow> state" where
  "finalizeRecords env interval st =
     (let model = getModelByInterval interval st;
          previousPeriod = getPreviousPeriod env (now env) interval;
          previousPeriodDate = roundTimestamp env previousPeriod interval;
          due = (\<lambda>c. c_date c = previousPeriodDate \<and> status c = CURRENT);
          recordsToFinalize = filter due model;
          st1 = setModel interval (updateMany due (\<lambda>c. c\<lparr>status := FINALIZED\<rparr>) model) st;
          st2 = logger LOG ''Finalized records'' st1
      in foldl (\<lambda>s r. emit (CandleFinalized interval r) s) st2 recordsToFinalize)"

section \<open>The swap events service\<close>

definition exponentToBigDecimal :: "chain \<Rightarrow> nat \<Rightarrow> number" where
  "exponentToBigDecimal env dec = Math_pow10 env dec"

definition safeDiv :: "number \<Rightarrow> number \<Rightarrow> number" where
  "safeDiv numerator denominator =
     (if \<not> strict_eq denominator (Zero False) then num_div numerator denominator
      else Zero False)"

text \<open>
  \<^verbatim>\<open>sqrtPriceX96ToTokenPrices\<close>. \<open>price1_of\<close> is its \<^verbatim>\<open>price1\<close>; the result is the pair
  \<open>(token0Price, token1Price)\<close>. The runtime is a parameter for its \<^verbatim>\<open>Math.pow\<close>.
\<close>

definition price1_of :: "chain \<Rightarrow> int \<Rightarrow> nat \<Rightarrow> nat \<Rightarrow> number" where
  "price1_of env sqrtPrice token0Decimals token1Decimals =
     (let Q192 = 2 ^ 192;
          num = sqrtPrice * sqrtPrice;
          numDecimal = Number_of_BigInt num;
          denomDecimal = Number_of_BigInt Q192
      in num_div
           (num_mul (num_div numDecimal denomDecimal) (exponentToBigDecimal env token0Decimals))
           (exponentToBigDecimal env token1Decimals))"

definition sqrtPriceX96ToTokenPrices ::
  "chain \<Rightarrow> int \<Rightarrow> nat \<Rightarrow> nat \<Rightarrow> string \<times> string" where
  "sqrtPriceX96ToTokenPrices env sqrtPrice token0Decimals token1Decimals =
     (let price1 = price1_of env sqrtPrice token0Decimals token1Decimals;
          price0 = safeDiv (Fin 1) price1
      in (Number_toString price0, Number_toString price1))"

text \<open>
  \<^verbatim>\<open>fetchTokenDecimals\<close>: the cache, then the Token collection, then the contract. The cache
  is keyed by the address as it is given, so the check-summed address of an Initialize event
  and the lower-case \<^verbatim>\<open>currency0\<close> of the pool it created are two keys.
\<close>

definition fetchTokenDecimals :: "chain \<Rightarrow> address \<Rightarrow> state \<Rightarrow> nat \<times> state" where
  "fetchTokenDecimals env tokenAddr st =
     (case map_of (tokenDecimalsCache st) tokenAddr of
        Some d \<Rightarrow> (d, st)
      | None \<Rightarrow>
          (if tokenAddr = ADDRESS_ZERO then
             (18, st\<lparr>tokenDecimalsCache := (tokenAddr, 18) # tokenDecimalsCache st\<rparr>)
           else
             (case findOne (\<lambda>t. address t = toLowerCase tokenAddr) (tokens st) of
                Some t \<Rightarrow>
                  (decimals t,
                   logger DEBUG ''Fetched decimals from database''
                     (st\<lparr>tokenDecimalsCache := (tokenAddr, decimals t) # tokenDecimalsCache st\<rparr>))
              | None \<Rightarrow>
                  (case erc20_decimals env tokenAddr of
                     Inr d \<Rightarrow>
                       (d,
                        logger DEBUG ''Fetched decimals from contract''
                          (st\<lparr>tokenDecimalsCache := (tokenAddr, d) # tokenDecimalsCache st\<rparr>))
                   | Inl e \<Rightarrow>
                       (18,
                        (logger WARN ''Failed to fetch decimals, using default 18'' st)
                          \<lparr>tokenDecimalsCache := (tokenAddr, 18) # tokenDecimalsCache st\<rparr>)))))"

definition updateTokenWhitelists :: "config \<Rightarrow> string \<Rightarrow> address \<Rightarrow> address \<Rightarrow> state \<Rightarrow> state" where
  "updateTokenWhitelists cfg pid c0 c1 st =
     (let st1 = (if toLowerCase c0 \<in> set (whitelistTokens cfg)
                 then processTokenWhitelistUpdate c1 pid st
                 else st)
      in if toLowerCase c1 \<in> set (whitelistTokens cfg)
         then processTokenWhitelistUpdate c0 pid st1
         else st1)"

text \<open>
  The event handlers. Each returns the error it throws, if any, and the state it leaves:
  the writes made before a throw stay.
\<close>

definition handleInitializeEvent ::
  "chain \<Rightarrow> config \<Rightarrow> log \<Rightarrow> string \<Rightarrow> address \<Rightarrow> address \<Rightarrow> int \<Rightarrow> int \<Rightarrow> address \<Rightarrow> int \<Rightarrow> int
     \<Rightarrow> state \<Rightarrow> error option \<times> state" where
  "handleInitializeEvent env cfg ev pid c0 c1 fee' tickSpacing' hooks' sqrtPrice tick' st =
     (case getBlock env (l_blockNumber ev) of
        Inl e \<Rightarrow> (Some e, st)
      | Inr block \<Rightarrow>
          (let (token0Decimals, st1) = fetchTokenDecimals env c0 st;
               (token1Decimals, st2) = fetchTokenDecimals env c1 st1;
               (t0p, t1p) =
                 sqrtPriceX96ToTokenPrices env sqrtPrice token0Decimals token1Decimals
           in case block of
                None \<Rightarrow> (Some TypeError, st2)
              | Some ts \<Rightarrow>
                  (case create poolId
                          \<lparr>poolId = toLowerCase pid, currency0 = toLowerCase c0,
                           currency1 = toLowerCase c1, fee = fee',
                           tickSpacing = tickSpacing', hooks = toLowerCase hooks',
                           sqrtPriceX96 = sqrtPrice,
                           tick = tick', blockNumber = l_blockNumber ev,
                           blockTimestamp = ts * 1000,
                           transactionHash = toLowerCase (l_transactionHash ev),
                           token0Price = t0p, token1Price = t1p, liquidity = 0,
                           totalValueLockedToken0 = 0, totalValueLockedToken1 = 0\<rparr>
                          (pools st2) of
                     Inl e \<Rightarrow>
                       (if e = DuplicateKey
                        then (None, logger WARN ''Duplicate pool initialization'' st2)
                        else (Some e, st2))
                   | Inr ps \<Rightarrow>
                       (None,
                        updateTokenWhitelists cfg pid c0 c1
                          (logger LOG ''New pool initialized'' (st2\<lparr>pools := ps\<rparr>))))))"

text \<open>
  The fee handed to \<^verbatim>\<open>handleSwapEvent\<close>: \<^verbatim>\<open>syncBatch\<close> converts the decoded value with
  \<^verbatim>\<open>Number(fee)\<close>, \<^verbatim>\<open>handleSwapEventFromLog\<close> hands over the decoded \<^verbatim>\<open>bigint\<close> as it is. The
  schema of SwapEvent declares \<^verbatim>\<open>fee: number\<close>, and the object mapper refuses a \<^verbatim>\<open>bigint\<close>
  there when the document is validated.
\<close>

datatype fee_arg = NumberFee int | BigIntFee int

fun fee_value :: "fee_arg \<Rightarrow> int" where
  "fee_value (NumberFee f) = f"
| "fee_value (BigIntFee f) = f"

record swap_data =
  d_poolId :: string
  d_sender :: address
  d_amount0 :: int
  d_amount1 :: int
  d_sqrtPriceX96 :: int
  d_liquidity :: int
  d_tick :: int
  d_fee :: fee_arg
  d_event :: log

text \<open>
  \<^verbatim>\<open>handleSwapEvent\<close> in its steps: the pool's new price, liquidity and locked amounts
  (written before the swap is stored), the SwapEvent document, and the \<^verbatim>\<open>try\<close> block that
  stores it, hands it to the aggregation and moves SyncState, with its \<^verbatim>\<open>catch\<close>. The
  insert validates the document first, so a \<^verbatim>\<open>bigint\<close> fee fails it with a validation error,
  whatever the collection holds.
\<close>

definition applySwapToPool :: "chain \<Rightarrow> swap_data \<Rightarrow> pool \<Rightarrow> state \<Rightarrow> state" where
  "applySwapToPool env data pool st =
     (let token0Addr = currency0 pool;
          token1Addr = currency1 pool;
          (token0Decimals, st1) = fetchTokenDecimals env token0Addr st;
          (token1Decimals, st2) = fetchTokenDecimals env token1Addr st1;
          (t0p, t1p) =
            sqrtPriceX96ToTokenPrices env (d_sqrtPriceX96 data) token0Decimals token1Decimals;
          currentTVL0 = totalValueLockedToken0 pool;
          currentTVL1 = totalValueLockedToken1 pool;
          newTVL0 = currentTVL0 + d_amount0 data;
          newTVL1 = currentTVL1 + d_amount1 data
      in st2\<lparr>pools :=
               updateOne (\<lambda>p. poolId p = toLowerCase (d_poolId data))
                 (\<lambda>p. p\<lparr>sqrtPriceX96 := d_sqrtPriceX96 data,
                        tick := d_tick data,
                        token0Price := t0p,
                        token1Price := t1p,
                        liquidity := d_liquidity data,
                        totalValueLockedToken0 := newTVL0,
                        totalValueLockedToken1 := newTVL1\<rparr>)
                 (pools st2)\<rparr>)"

definition makeSwapEvent :: "swap_data \<Rightarrow> pool \<Rightarrow> int \<Rightarrow> swap_event" where
  "makeSwapEvent data pool ts =
     \<lparr>poolAddress = d_poolId data,
      token0Address = currency0 pool,
      token1Address = currency1 pool,
      se_transactionHash = l_transactionHash (d_event data),
      se_blockNumber = l_blockNumber (d_event data),
      se_blockTimestamp = ts * 1000,
      sender = d_sender data,
      recipient = d_sender data,
      amount0 = d_amount0 data,
      amount1 = d_amount1 data,
      se_sqrtPriceX96 = d_sqrtPriceX96 data,
      se_liquidity = d_liquidity data,
      se_tick = d_tick data,
      logIndex = l_index (d_event data),
      se_fee = fee_value (d_fee data),
      amountUSD = ''0''\<rparr>"

definition swap_key :: "swap_event \<Rightarrow> string \<times> int" where
  "swap_key s = (se_transactionHash s, logIndex s)"

definition recordSwapEvent ::
  "chain \<Rightarrow> config \<Rightarrow> swap_data \<Rightarrow> swap_event \<Rightarrow> state \<Rightarrow> error option \<times> state" where
  "recordSwapEvent env cfg data swapEvent st =
     (case (case d_fee data of
              BigIntFee f \<Rightarrow> Inl ValidationError
            | NumberFee f \<Rightarrow> create swap_key swapEvent (swapEvents st)) of
        Inl e \<Rightarrow>
          (if e = DuplicateKey then (None, logger WARN ''Duplicate swap event'' st)
           else (Some e, st))
      | Inr evs \<Rightarrow>
          (let st4 = logger LOG ''New swap event'' (st\<lparr>swapEvents := evs\<rparr>);
               st5 = emit (SwapCreated swapEvent) st4;
               st6 = processSwapEvent env cfg swapEvent st5
           in (None,
               st6\<lparr>syncStates :=
                     updateOne
                       (\<lambda>s. poolManagerAddress s = uniswapV4PoolManagerAddress cfg)
                       (\<lambda>s. s\<lparr>lastSyncedBlock := l_blockNumber (d_event data),
                              currentBlock := l_blockNumber (d_event data),
                              lastSyncedAt := Some (now env)\<rparr>)
                       (syncStates st6)\<rparr>)))"

definition handleSwapEvent :: "chain \<Rightarrow> config \<Rightarrow> swap_data \<Rightarrow> state \<Rightarrow> error option \<times> state" where
  "handleSwapEvent env cfg data st =
     (case getBlock env (l_blockNumber (d_event data)) of
        Inl e \<Rightarrow> (Some e, st)
      | Inr block \<Rightarrow>
          (case findOne (\<lambda>p. poolId p = toLowerCase (d_poolId data)) (pools st) of
             None \<Rightarrow> (None, logger WARN ''Pool not found for poolId. Skipping swap event.'' st)
           | Some pool \<Rightarrow>
               (let st3 = applySwapToPool env data pool st
                in case block of
                     None \<Rightarrow> (Some TypeError, st3)
                   | Some ts \<Rightarrow> recordSwapEvent env cfg data (makeSwapEvent data pool ts) st3)))"

record modify_data =
  m_poolId :: string
  m_sender :: address
  m_tickLower :: int
  m_tickUpper :: int
  m_liquidityDelta :: int
  m_salt :: string
  m_event :: log

definition handleModifyLiquidityEvent ::
  "chain \<Rightarrow> config \<Rightarrow> modify_data \<Rightarrow> state \<Rightarrow> error option \<times> state" where
  "handleModifyLiquidityEvent env cfg data st =
     (case findOne (\<lambda>p. poolId p = toLowerCase (m_poolId data)) (pools st) of
        None \<Rightarrow>
          (None, logger WARN ''Pool not found for poolId. Skipping ModifyLiquidity event.'' st)
      | Some pool \<Rightarrow>
          (let newLiquidity = liquidity pool + m_liquidityDelta data
           in case getAmount0 env (m_tickLower data) (m_tickUpper data) (tick pool)
                     (m_liquidityDelta data) (sqrtPriceX96 pool) of
                Inl e \<Rightarrow> (Some e, logger ERROR ''Error handling ModifyLiquidity event'' st)
              | Inr a0 \<Rightarrow>
                  (case getAmount1 env (m_tickLower data) (m_tickUpper data) (tick pool)
                          (m_liquidityDelta data) (sqrtPriceX96 pool) of
                     Inl e \<Rightarrow> (Some e, logger ERROR ''Error handling ModifyLiquidity event'' st)
                   | Inr a1 \<Rightarrow>
                       (None,
                        logger LOG ''Updated pool''
                          (st\<lparr>pools :=
                                updateOne (\<lambda>p. poolId p = toLowerCase (m_poolId data))
                                  (\<lambda>p. p\<lparr>liquidity := newLiquidity,
                                         totalValueLockedToken0 := totalValueLockedToken0 pool + a0,
                                         totalValueLockedToken1 := totalValueLockedToken1 pool + a1\<rparr>)
                                  (pools st)\<rparr>)))))"

text \<open>
  The dispatch on the first topic. \<open>dispatch\<close> is the one \<^verbatim>\<open>syncBatch\<close> makes in its loop,
  converting tick and fee with \<^verbatim>\<open>Number\<close>. \<open>dispatchFromLog\<close> is the one of the live queue,
  which calls \<^verbatim>\<open>handleInitializeEvent\<close>, \<^verbatim>\<open>handleSwapEventFromLog\<close> and
  \<^verbatim>\<open>handleModifyLiquidityEventFromLog\<close>: the second hands the decoded fee over unconverted.
\<close>

fun dispatch :: "chain \<Rightarrow> config \<Rightarrow> log \<Rightarrow> event_args \<Rightarrow> state \<Rightarrow> error option \<times> state" where
  "dispatch env cfg lg (Initialize pid c0 c1 f ts hk sp tk) st =
     handleInitializeEvent env cfg lg pid c0 c1 f ts hk sp tk st"
| "dispatch env cfg lg (Swap pid sndr a0 a1 sp liq tk f) st =
     handleSwapEvent env cfg
       \<lparr>d_poolId = pid, d_sender = sndr, d_amount0 = a0, d_amount1 = a1,
        d_sqrtPriceX96 = sp, d_liquidity = liq, d_tick = tk, d_fee = NumberFee f,
        d_event = lg\<rparr> st"
| "dispatch env cfg lg (ModifyLiquidity pid sndr tlo tup ld sl) st =
     handleModifyLiquidityEvent env cfg
       \<lparr>m_poolId = pid, m_sender = sndr, m_tickLower = tlo, m_tickUpper = tup,
        m_liquidityDelta = ld, m_salt = sl, m_event = lg\<rparr> st"

definition handleSwapEventFromLog ::
  "chain \<Rightarrow> config \<Rightarrow> log \<Rightarrow> string \<Rightarrow> address \<Rightarrow> int \<Rightarrow> int \<Rightarrow> int \<Rightarrow> int \<Rightarrow> int \<Rightarrow> int
     \<Rightarrow> state \<Rightarrow> error option \<times> state" where
  "handleSwapEventFromLog env cfg event pid sndr a0 a1 sp liq tk f st =
     handleSwapEvent env cfg
       \<lparr>d_poolId = pid, d_sender = sndr, d_amount0 = a0, d_amount1 = a1,
        d_sqrtPriceX96 = sp, d_liquidity = liq, d_tick = tk, d_fee = BigIntFee f,
        d_event = event\<rparr> st"

definition handleModifyLiquidityEventFromLog ::
  "chain \<Rightarrow> config \<Rightarrow> log \<Rightarrow> string \<Rightarrow> address \<Rightarrow> int \<Rightarrow> int \<Rightarrow> int \<Rightarrow> string
     \<Rightarrow> state \<Rightarrow> error option \<times> state" where
  "handleModifyLiquidityEventFromLog env cfg event pid sndr tlo tup ld sl st =
     handleModifyLiquidityEvent env cfg
       \<lparr>m_poolId = pid, m_sender = sndr, m_tickLower = tlo, m_tickUpper = tup,
        m_liquidityDelta = ld, m_salt = sl, m_event = event\<rparr> st"

fun dispatchFromLog ::
  "chain \<Rightarrow> config \<Rightarrow> log \<Rightarrow> event_args \<Rightarrow> state \<Rightarrow> error option \<times> state" where
  "dispatchFromLog env cfg lg (Initialize pid c0 c1 f ts hk sp tk) st =
     handleInitializeEvent env cfg lg pid c0 c1 f ts hk sp tk st"
| "dispatchFromLog env cfg lg (Swap pid sndr a0 a1 sp liq tk f) st =
     handleSwapEventFromLog env cfg lg pid sndr a0 a1 sp liq tk f st"
| "dispatchFromLog env cfg lg (ModifyLiquidity pid sndr tlo tup ld sl) st =
     handleModifyLiquidityEventFromLog env cfg lg pid sndr tlo tup ld sl st"

text \<open>
  \<^verbatim>\<open>syncBatch\<close>: the logs of a block window, in the order returned. \<open>syncBatch_logs\<close> is
  its loop: a duplicate-key error skips the log, any other error is logged and thrown again.
\<close>

fun syncBatch_logs :: "chain \<Rightarrow> config \<Rightarrow> log list \<Rightarrow> state \<Rightarrow> error option \<times> state" where
  "syncBatch_logs env cfg [] st = (None, st)"
| "syncBatch_logs env cfg (lg # rest) st =
     (case parsed lg of
        ParseThrows \<Rightarrow> (Some ParseError, logger ERROR ''Error processing event in batch'' st)
      | ParseNull \<Rightarrow>
          syncBatch_logs env cfg rest (logger WARN ''Failed to parse log in batch sync'' st)
      | Parsed args \<Rightarrow>
          (case dispatch env cfg lg args st of
             (None, st1) \<Rightarrow> syncBatch_logs env cfg rest st1
           | (Some e, st1) \<Rightarrow>
               (if e = DuplicateKey then syncBatch_logs env cfg rest st1
                else (Some e, logger ERROR ''Error processing event in batch'' st1))))"

definition syncBatch :: "chain \<Rightarrow> config \<Rightarrow> int \<Rightarrow> int \<Rightarrow> state \<Rightarrow> error option \<times> state" where
  "syncBatch env cfg fromBlock toBlock st =
     (case getLogs env fromBlock toBlock of
        Inl e \<Rightarrow> (Some e, logger ERROR ''Error syncing batch'' st)
      | Inr lgs \<Rightarrow>
          (case syncBatch_logs env cfg lgs (logger LOG ''Found events in blocks'' st) of
             (Some e, st1) \<Rightarrow> (Some e, logger ERROR ''Error syncing batch'' st1)
           | (None, st1) \<Rightarrow> (None, st1)))"

text \<open>
  The loop of \<^verbatim>\<open>syncHistoricalEvents\<close>. It need not terminate (a batch size of zero never
  advances), so not returning is the value \<open>None\<close>. The last argument records, for each
  batch committed, its window \<open>(fromBlock, toBlock)\<close> and the SyncState collection right
  after the commit.
\<close>

type_synonym sync_trace = "(int \<times> int \<times> sync_state list) list"

definition commitBatch :: "chain \<Rightarrow> config \<Rightarrow> int \<Rightarrow> int \<Rightarrow> state \<Rightarrow> state" where
  "commitBatch env cfg currentBlk toBlock st =
     st\<lparr>syncStates :=
          updateOne (\<lambda>s. poolManagerAddress s = uniswapV4PoolManagerAddress cfg)
            (\<lambda>s. s\<lparr>lastSyncedBlock := toBlock,
                   currentBlock := currentBlk,
                   lastSyncedAt := Some (now env),
                   isInitialSyncComplete := (currentBlk \<le> toBlock)\<rparr>)
            (syncStates st)\<rparr>"

partial_function (option) syncLoop ::
  "chain \<Rightarrow> config \<Rightarrow> int \<Rightarrow> int \<Rightarrow> state \<Rightarrow> sync_trace
     \<Rightarrow> (error option \<times> state \<times> sync_trace) option" where
  "syncLoop env cfg currentBlk fromBlock st tr =
     (if fromBlock \<le> currentBlk then
        (let toBlock = min (fromBlock + syncBatchSize cfg - 1) currentBlk
         in case syncBatch env cfg fromBlock toBlock (logger LOG ''Syncing blocks'' st) of
              (Some e, st1) \<Rightarrow> Some (Some e, st1, tr)
            | (None, st1) \<Rightarrow>
                (let st2 = commitBatch env cfg currentBlk toBlock st1
                 in syncLoop env cfg currentBlk (toBlock + 1) st2
                      (tr @ [(fromBlock, toBlock, syncStates st2)])))
      else Some (None, st, tr))"

definition syncHistoricalEvents ::
  "chain \<Rightarrow> config \<Rightarrow> state \<Rightarrow> (error option \<times> state \<times> sync_trace) option" where
  "syncHistoricalEvents env cfg st =
     (let st0 = st\<lparr>isSyncing := True\<rparr>;
          found = findOne (\<lambda>s. poolManagerAddress s = uniswapV4PoolManagerAddress cfg)
                    (syncStates st0)
      in case getBlockNumber env of
           Inl e \<Rightarrow>
             Some (Some e,
                   (logger ERROR ''Error during historical sync'' st0)\<lparr>isSyncing := False\<rparr>, [])
         | Inr currentBlk \<Rightarrow>
             (let (syncState, st1) =
                    (case found of
                       None \<Rightarrow>
                         (let s = \<lparr>poolManagerAddress = uniswapV4PoolManagerAddress cfg,
                                   lastSyncedBlock = startingBlock cfg - 1,
                                   currentBlock = currentBlk,
                                   isInitialSyncComplete = False,
                                   lastSyncedAt = None\<rparr>
                          in (s, logger LOG ''Starting initial sync''
                                   (st0\<lparr>syncStates := syncStates st0 @ [s]\<rparr>)))
                     | Some s \<Rightarrow>
                         (s, logger LOG
                               (if isInitialSyncComplete s then ''Resuming sync''
                                else ''Continuing incomplete sync'') st0))
              in case syncLoop env cfg currentBlk (lastSyncedBlock syncState + 1) st1 [] of
                   None \<Rightarrow> None
                 | Some (Some e, st2, tr) \<Rightarrow>
                     Some (Some e,
                           (logger ERROR ''Error during historical sync'' st2)
                             \<lparr>isSyncing := False\<rparr>, tr)
                 | Some (None, st2, tr) \<Rightarrow>
                     Some (None,
                           (logger LOG ''Historical sync complete'' st2)\<lparr>isSyncing := False\<rparr>,
                           tr)))"

text \<open>
  The consumer of the live queue (\<^verbatim>\<open>processQueue\<close> in \<^verbatim>\<open>startListening\<close>), draining the
  entries in order: an entry is dropped while the historical sync runs, and whatever its
  handling throws is logged.
\<close>

fun processQueue :: "chain \<Rightarrow> config \<Rightarrow> log list \<Rightarrow> state \<Rightarrow> state" where
  "processQueue env cfg [] st = st"
| "processQueue env cfg (lg # rest) st =
     (if isSyncing st then processQueue env cfg rest st
      else
        (case parsed lg of
           ParseThrows \<Rightarrow>
             processQueue env cfg rest (logger ERROR ''Error processing event from queue'' st)
         | ParseNull \<Rightarrow> processQueue env cfg rest (logger WARN ''Failed to parse log'' st)
         | Parsed args \<Rightarrow>
             (case dispatchFromLog env cfg lg args st of
                (None, st1) \<Rightarrow> processQueue env cfg rest st1
              | (Some e, st1) \<Rightarrow>
                  processQueue env cfg rest
                    (logger ERROR ''Error processing event from queue'' st1))))"

section \<open>Notions for the properties\<close>

definition candles :: "state \<Rightarrow> candle list \<times> candle list \<times> candle list" where
  "candles st = (tokenMinutes st, tokenHours st, tokenDays st)"

definition syncRow :: "config \<Rightarrow> state \<Rightarrow> sync_state option" where
  "syncRow cfg st =
     findOne (\<lambda>s. poolManagerAddress s = uniswapV4PoolManagerAddress cfg) (syncStates st)"

definition collections ::
  "state \<Rightarrow> pool list \<times> swap_event list \<times> sync_state list \<times> token list \<times> candle list \<times> candle list \<times> candle list" where
  "collections st =
     (pools st, swapEvents st, syncStates st, tokens st, tokenMinutes st, tokenHours st,
      tokenDays st)"

text \<open>
  An event is an orphan when it is a Swap or a ModifyLiquidity and no pool has its id.
  \<open>block_read\<close> says that the provider returns the block of the log, where the handler of the
  event asks for it at all: the handler of a Swap does, before it looks for the pool; the
  handler of a ModifyLiquidity does not.
\<close>

definition orphan :: "event_args \<Rightarrow> state \<Rightarrow> bool" where
  "orphan args st =
     (case args of
        Initialize pid c0 c1 f ts hk sp tk \<Rightarrow> False
      | Swap pid sndr a0 a1 sp liq tk f \<Rightarrow>
          findOne (\<lambda>p. poolId p = toLowerCase pid) (pools st) = None
      | ModifyLiquidity pid sndr tlo tup ld sl \<Rightarrow>
          findOne (\<lambda>p. poolId p = toLowerCase pid) (pools st) = None)"

definition block_read :: "chain \<Rightarrow> log \<Rightarrow> event_args \<Rightarrow> bool" where
  "block_read env lg args =
     (case args of
        Swap pid sndr a0 a1 sp liq tk f \<Rightarrow>
          (case getBlock env (l_blockNumber lg) of Inr b \<Rightarrow> True | Inl e \<Rightarrow> False)
      | Initialize pid c0 c1 f ts hk sp tk \<Rightarrow> True
      | ModifyLiquidity pid sndr tlo tup ld sl \<Rightarrow> True)"

definition skip_warning :: "event_args \<Rightarrow> string" where
  "skip_warning args =
     (case args of
        Initialize pid c0 c1 f ts hk sp tk \<Rightarrow> []
      | Swap pid sndr a0 a1 sp liq tk f \<Rightarrow> ''Pool not found for poolId. Skipping swap event.''
      | ModifyLiquidity pid sndr tlo tup ld sl \<Rightarrow>
          ''Pool not found for poolId. Skipping ModifyLiquidity event.'')"

text \<open>
  A list of logs each of which is an orphan whose block is read, and the state after all of
  them were skipped: one warning per log.
\<close>

definition all_skipped :: "chain \<Rightarrow> log list \<Rightarrow> state \<Rightarrow> bool" where
  "all_skipped env lgs st =
     list_all (\<lambda>lg. case parsed lg of
                      Parsed args \<Rightarrow> orphan args st \<and> block_read env lg args
                    | ParseNull \<Rightarrow> False
                    | ParseThrows \<Rightarrow> False) lgs"

definition warn_each :: "log list \<Rightarrow> state \<Rightarrow> state" where
  "warn_each lgs st =
     foldl (\<lambda>s lg. case parsed lg of
                     Parsed args \<Rightarrow> logger WARN (skip_warning args) s
                   | ParseNull \<Rightarrow> s
                   | ParseThrows \<Rightarrow> s) st lgs"

subsection \<open>Examples\<close>

text \<open>
  The runtime of the examples: every block has the timestamp \<open>1700000000\<close> plus twelve
  seconds per block after block 100, local time is UTC, \<^verbatim>\<open>Math.pow\<close> is correctly rounded,
  and TokenDay declares no setter.
\<close>

definition ex_cfg :: config where
  "ex_cfg =
     \<lparr>uniswapV4PoolManagerAddress = ''0xpm'', startingBlock = 100, syncBatchSize = 1000,
      stablecoinWrappedNativePoolId = ''0xusdweth'', stablecoinIsToken0 = True,
      wrappedNativeAddress = ''0xweth'', whitelistTokens = [''0xweth''],
      stablecoinAddresses = [''0xusdc'']\<rparr>"

text \<open>A process environment that sets no batch size: its configuration is \<open>ex_cfg\<close>.\<close>

definition ex_penv :: process_env where
  "ex_penv =
     \<lparr>UNISWAP_V4_POOL_MANAGER_ADDRESS = Some ''0xpm'', STARTING_BLOCK = Some 100,
      SYNC_BATCH_SIZE = None, STABLECOIN_WRAPPED_NATIVE_POOL_ID = Some ''0xusdweth'',
      STABLECOIN_IS_TOKEN0 = Some ''true'', WRAPPED_NATIVE_ADDRESS = Some ''0xweth'',
      WHITELIST_TOKENS = Some [''0xweth''], STABLECOIN_ADDRESSES = Some [''0xusdc'']\<rparr>"

definition ex_cfg10 :: config where
  "ex_cfg10 = ex_cfg\<lparr>syncBatchSize := 10\<rparr>"

definition ex_swap_log :: log where
  "ex_swap_log =
     \<lparr>l_blockNumber = 100, l_transactionHash = ''0xtx1'', l_index = 1,
      parsed = Parsed (Swap ''0xaa'' ''0xsender'' 1000000000000000000 (- 2000000000000000000)
                         79228162514264337593543950336 5000000000000000000 100 3000)\<rparr>"

definition ex_env :: chain where
  "ex_env =
     \<lparr>getBlockNumber = Inr 120,
      getBlock = (\<lambda>n. Inr (Some (1700000000 + 12 * (n - 100)))),
      getLogs = (\<lambda>f t. Inr [ex_swap_log]),
      erc20_decimals = (\<lambda>a. Inr 18),
      erc20_symbol = (\<lambda>a. Inr ''TKN''),
      erc20_name = (\<lambda>a. Inr ''Token''),
      getAmount0 = (\<lambda>tlo tup t l p. Inr 0),
      getAmount1 = (\<lambda>tlo tup t l p. Inr 0),
      now = 1700000100000,
      LocalTZA = (\<lambda>t isUTC. 0),
      Math_pow10 = rounded_pow10,
      TokenDay_setter = (\<lambda>a. a)\<rparr>"

definition ex_sync_row :: sync_state where
  "ex_sync_row =
     \<lparr>poolManagerAddress = ''0xpm'', lastSyncedBlock = 99, currentBlock = 99,
      isInitialSyncComplete = False, lastSyncedAt = None\<rparr>"

definition ex_state :: state where
  "ex_state =
     \<lparr>pools = [], swapEvents = [], syncStates = [ex_sync_row], tokens = [],
      tokenMinutes = [], tokenHours = [], tokenDays = [], logs = [], emitted = [],
      isSyncing = False, tokenDecimalsCache = []\<rparr>"

definition ex_init_log :: log where
  "ex_init_log =
     \<lparr>l_blockNumber = 101, l_transactionHash = ''0xtx2'', l_index = 0,
      parsed = Parsed (Initialize ''0xbb'' ''0xtokena'' ''0xtokenb'' 3000 60 ADDRESS_ZERO
                         79228162514264337593543950336 0)\<rparr>"

definition ex_modify_log :: log where
  "ex_modify_log =
     \<lparr>l_blockNumber = 100, l_transactionHash = ''0xtx4'', l_index = 2,
      parsed = Parsed (ModifyLiquidity ''0xaa'' ''0xsender'' (- 60) 60 1000000 [])\<rparr>"

text \<open>The same runtime with a provider that fails to return block 100.\<close>

definition ex_env_rpc :: chain where
  "ex_env_rpc =
     ex_env\<lparr>getBlock := (\<lambda>n. if n = 100 then Inl RpcError
                               else Inr (Some (1700000000 + 12 * (n - 100))))\<rparr>"

definition ex_usd_pool :: pool where
  "ex_usd_pool =
     \<lparr>poolId = ''0xusdweth'', currency0 = ''0xusdc'', currency1 = ''0xweth'', fee = 500,
      tickSpacing = 10, hooks = ADDRESS_ZERO, sqrtPriceX96 = 1771845812700903892492222464,
      tick = - 76013, blockNumber = 90, blockTimestamp = 1699999000000,
      transactionHash = ''0xtx0'', token0Price = ''2000'', token1Price = ''0.0005'',
      liquidity = 1000000, totalValueLockedToken0 = 0, totalValueLockedToken1 = 0\<rparr>"

definition ex_token :: "address \<Rightarrow> token" where
  "ex_token a =
     \<lparr>address = a, symbol = ''TKN'', name = ''Token'', decimals = 18, volume = 0,
      volumeUSD = ''0'', untrackedVolumeUSD = ''0'', feesUSD = ''0'', totalValueLocked = ''0'',
      totalValueLockedUSD = ''0'', derivedBTC = ''0'', txCount = 0, whitelistPools = []\<rparr>"

subsection \<open>Prices\<close>


subsection \<open>Finalized candles\<close>

text \<open>
  \<open>finalized_kept st st'\<close>: every candle that is finalized in \<open>st\<close> is the same document in
  \<open>st'\<close>.
\<close>

definition finalized_kept :: "state \<Rightarrow> state \<Rightarrow> bool" where
  "finalized_kept st st' =
     (\<forall>I i. i < length (getModelByInterval I st)
              \<and> status (getModelByInterval I st ! i) = FINALIZED \<longrightarrow>
            i < length (getModelByInterval I st')
              \<and> getModelByInterval I st' ! i = getModelByInterval I st ! i)"

text \<open>
  A swap is late for an interval when the candle of its bucket is there and finalized. The
  unique index on \<open>(tokenAddress, date)\<close> is the distinctness of the keys.
\<close>

definition late :: "chain \<Rightarrow> TimeInterval \<Rightarrow> address \<Rightarrow> date \<Rightarrow> state \<Rightarrow> bool" where
  "late env I a ts st =
     (distinct (map candle_key (getModelByInterval I st))
      \<and> (\<exists>c \<in> set (getModelByInterval I st).
            candle_key c = (candleAddress env I a, roundTimestamp env ts I)
            \<and> status c = FINALIZED))"

text \<open>
  The finalizer's timer fires between the two steps of a fold: the candle is read, the
  finalizer runs, the write follows.
\<close>

definition foldAcrossFinalizer ::
  "chain \<Rightarrow> address \<Rightarrow> TimeInterval \<Rightarrow> date \<Rightarrow> int \<Rightarrow> number \<Rightarrow> number \<Rightarrow> number \<Rightarrow> int
     \<Rightarrow> number \<Rightarrow> state \<Rightarrow> error option \<times> state" where
  "foldAcrossFinalizer env tokenAddr interval timestamp volumeDelta volumeUSDDelta feesDelta
       currentPrice tvl tvlUSD st =
     (let existing = findCurrentRecord env tokenAddr interval timestamp st;
          st1 = finalizeRecords env interval st
      in writeRecord env tokenAddr interval timestamp volumeDelta volumeUSDDelta feesDelta
           currentPrice tvl tvlUSD existing st1)"

definition ex_late_candle :: candle where
  "ex_late_candle =
     \<lparr>tokenAddress = ''0xtokena'', c_date = 1699999980000, status = FINALIZED,
      c_volume = 5, c_volumeUSD = ''0.000000'', c_untrackedVolumeUSD = ''0.000000'',
      c_totalValueLocked = 0, c_totalValueLockedUSD = ''0.000000'', priceUSD = ''0.000000'',
      c_feesUSD = ''0.000000'', c_open = ''0.000000'', c_high = ''0.000000'',
      c_low = ''0.000000'', c_close = ''0.000000'', c_txCount = 1\<rparr>"

definition ex_late_state :: state where
  "ex_late_state =
     ex_state\<lparr>tokens := [ex_token ''0xtokena'', ex_token ''0xtokenb''],
              tokenMinutes := [ex_late_candle]\<rparr>"

definition ex_swap :: swap_event where
  "ex_swap =
     \<lparr>poolAddress = ''0xbb'', token0Address = ''0xtokena'', token1Address = ''0xtokenb'',
      se_transactionHash = ''0xtx3'', se_blockNumber = 102, se_blockTimestamp = 1700000000000,
      sender = ''0xsender'', recipient = ''0xsender'', amount0 = 1000000000000000000,
      amount1 = - 2000000000000000000, se_sqrtPriceX96 = 79228162514264337593543950336,
      se_liquidity = 5000000000000000000, se_tick = 100, logIndex = 0, se_fee = 3000,
      amountUSD = ''0''\<rparr>"

definition ex_swap_weth :: swap_event where
  "ex_swap_weth = ex_swap\<lparr>token0Address := ''0xweth''\<rparr>"

definition ex_current_candle :: candle where
  "ex_current_candle =
     \<lparr>tokenAddress = ''0xtokena'', c_date = 1699999980000, status = CURRENT,
      c_volume = 5, c_volumeUSD = ''0.000000'', c_untrackedVolumeUSD = ''0.000000'',
      c_totalValueLocked = 0, c_totalValueLockedUSD = ''0.000000'', priceUSD = ''0.500000'',
      c_feesUSD = ''0.000000'', c_open = ''0.500000'', c_high = ''0.500000'',
      c_low = ''0.500000'', c_close = ''0.500000'', c_txCount = 1\<rparr>"

definition ex_current_state :: state where
  "ex_current_state = ex_state\<lparr>tokenMinutes := [ex_current_candle]\<rparr>"

definition ex_zero_candle :: candle where
  "ex_zero_candle =
     \<lparr>tokenAddress = ''0xtokena'', c_date = 1699999980000, status = CURRENT,
      c_volume = 5, c_volumeUSD = ''0.000000'', c_untrackedVolumeUSD = ''0.000000'',
      c_totalValueLocked = 0, c_totalValueLockedUSD = ''0.000000'', priceUSD = ''0.000000'',
      c_feesUSD = ''0.000000'', c_open = ''0.000000'', c_high = ''0.000000'',
      c_low = ''0.000000'', c_close = ''0.000000'', c_txCount = 1\<rparr>"

definition ex_zero_state :: state where
  "ex_zero_state = ex_state\<lparr>tokenMinutes := [ex_zero_candle]\<rparr>"

text \<open>The clock of the minute timer that closes the minute of block 100.\<close>

definition ex_env_timer :: chain where
  "ex_env_timer = ex_env\<lparr>now := 1700000050000\<rparr>"

subsection \<open>The backfill\<close>

text \<open>
  The windows of a backfill from block \<open>f\<close> to the head \<open>cur\<close> with batch size \<open>bs\<close>: each holds
  \<open>bs\<close> blocks, the last one what is left. \<open>runBatches\<close> runs the batches of a list of windows
  one after the other as the loop of \<^verbatim>\<open>syncHistoricalEvents\<close> does: sync the window, commit it,
  and stop at the first window whose sync throws. It records each commit like \<open>syncLoop\<close>.
\<close>

function windows :: "int \<Rightarrow> int \<Rightarrow> int \<Rightarrow> (int \<times> int) list" where
  "windows bs cur f =
     (if f \<le> cur \<and> 1 \<le> bs
      then (f, min (f + bs - 1) cur) # windows bs cur (min (f + bs - 1) cur + 1)
      else [])"
  by pat_completeness auto
termination
  by (relation "measure (\<lambda>(bs, cur, f). nat (cur + 1 - f))") auto

declare windows.simps [simp del]

fun runBatches ::
  "chain \<Rightarrow> config \<Rightarrow> int \<Rightarrow> (int \<times> int) list \<Rightarrow> state \<Rightarrow> sync_trace
     \<Rightarrow> error option \<times> state \<times> sync_trace" where
  "runBatches env cfg cur [] st tr = (None, st, tr)"
| "runBatches env cfg cur ((a, b) # ws) st tr =
     (case syncBatch env cfg a b (logger LOG ''Syncing blocks'' st) of
        (Some e, st1) \<Rightarrow> (Some e, st1, tr)
      | (None, st1) \<Rightarrow>
          runBatches env cfg cur ws (commitBatch env cfg cur b st1)
            (tr @ [(a, b, syncStates (commitBatch env cfg cur b st1))]))"

text \<open>
  The commit of a batch, as the trace records it: the SyncState row holds the batch's end
  block, the head, and the completion flag, set exactly when the batch reaches the head.
\<close>

definition committed :: "config \<Rightarrow> int \<Rightarrow> int \<times> int \<times> sync_state list \<Rightarrow> bool" where
  "committed cfg cur w =
     (case w of (a, b, ss) \<Rightarrow>
        (case findOne (\<lambda>s. poolManagerAddress s = uniswapV4PoolManagerAddress cfg) ss of
           None \<Rightarrow> False
         | Some s \<Rightarrow>
             lastSyncedBlock s = b \<and> currentBlock s = cur
             \<and> isInitialSyncComplete s = (b = cur)))"

text \<open>
  The state in which the loop of \<^verbatim>\<open>syncHistoricalEvents\<close> starts, given the head: the flag
  \<^verbatim>\<open>isSyncing\<close> is set, the row of SyncState is there (inserted with the block before the
  starting block when it was absent), and the start is logged.
\<close>

definition startSync :: "config \<Rightarrow> int \<Rightarrow> state \<Rightarrow> state" where
  "startSync cfg currentBlk st =
     (let st0 = st\<lparr>isSyncing := True\<rparr>
      in case findOne (\<lambda>s. poolManagerAddress s = uniswapV4PoolManagerAddress cfg)
                (syncStates st0) of
           None \<Rightarrow>
             logger LOG ''Starting initial sync''
               (st0\<lparr>syncStates := syncStates st0 @
                      [\<lparr>poolManagerAddress = uniswapV4PoolManagerAddress cfg,
                        lastSyncedBlock = startingBlock cfg - 1,
                        currentBlock = currentBlk,
                        isInitialSyncComplete = False,
                        lastSyncedAt = None\<rparr>]\<rparr>)
         | Some s \<Rightarrow>
             logger LOG (if isInitialSyncComplete s then ''Resuming sync''
                         else ''Continuing incomplete sync'') st0)"

definition first_block :: "config \<Rightarrow> state \<Rightarrow> int" where
  "first_block cfg st =
     (case syncRow cfg st of None \<Rightarrow> startingBlock cfg | Some s \<Rightarrow> lastSyncedBlock s + 1)"

definition window_of :: "int \<times> int \<times> sync_state list \<Rightarrow> int \<times> int" where
  "window_of w = (case w of (a, b, ss) \<Rightarrow> (a, b))"

subsection \<open>A replayed batch and a late swap\<close>

text \<open>
  The logs of two blocks. Block 100 holds the initialization of a pool, with the addresses
  in the mixed case of a check-sum, and a swap in the pool; block 101, twelve seconds later
  and in the same minute, holds a second swap. \<open>synced_once\<close> is the state after the batch
  of block 100, \<open>synced_twice\<close> the state after the same batch was run again.
\<close>

definition ex_init_aa :: log where
  "ex_init_aa =
     \<lparr>l_blockNumber = 100, l_transactionHash = ''0xtx0'', l_index = 0,
      parsed = Parsed (Initialize ''0xaa'' ''0xTokenA'' ''0xTokenB'' 3000 60 ADDRESS_ZERO
                         79228162514264337593543950336 0)\<rparr>"

definition ex_swap_log2 :: log where
  "ex_swap_log2 =
     \<lparr>l_blockNumber = 101, l_transactionHash = ''0xtx2'', l_index = 0,
      parsed = Parsed (Swap ''0xaa'' ''0xsender'' 1000000000000000000 (- 2000000000000000000)
                         79228162514264337593543950336 5000000000000000000 100 3000)\<rparr>"

definition ex_env_stream :: chain where
  "ex_env_stream =
     ex_env\<lparr>getLogs := (\<lambda>f t. Inr ((if f \<le> 100 \<and> 100 \<le> t then [ex_init_aa, ex_swap_log] else [])
                                   @ (if f \<le> 101 \<and> 101 \<le> t then [ex_swap_log2] else [])))\<rparr>"

definition synced_once :: state where
  "synced_once = snd (syncBatch ex_env_stream ex_cfg 100 100 ex_state)"

definition synced_twice :: state where
  "synced_twice = snd (syncBatch ex_env_stream ex_cfg 100 100 synced_once)"

text \<open>The pool and the swap that the first batch leaves, and the arguments of the swap.\<close>

definition ex_pool_aa :: pool where
  "ex_pool_aa =
     \<lparr>poolId = ''0xaa'', currency0 = ''0xtokena'', currency1 = ''0xtokenb'', fee = 3000,
      tickSpacing = 60, hooks = ADDRESS_ZERO, sqrtPriceX96 = 79228162514264337593543950336,
      tick = 100, blockNumber = 100, blockTimestamp = 1700000000000,
      transactionHash = ''0xtx0'', token0Price = ''1'', token1Price = ''1'',
      liquidity = 5000000000000000000, totalValueLockedToken0 = 1000000000000000000,
      totalValueLockedToken1 = - 2000000000000000000\<rparr>"

definition ex_swap_aa :: swap_event where
  "ex_swap_aa =
     \<lparr>poolAddress = ''0xaa'', token0Address = ''0xtokena'', token1Address = ''0xtokenb'',
      se_transactionHash = ''0xtx1'', se_blockNumber = 100, se_blockTimestamp = 1700000000000,
      sender = ''0xsender'', recipient = ''0xsender'', amount0 = 1000000000000000000,
      amount1 = - 2000000000000000000, se_sqrtPriceX96 = 79228162514264337593543950336,
      se_liquidity = 5000000000000000000, se_tick = 100, logIndex = 1, se_fee = 3000,
      amountUSD = ''0''\<rparr>"

definition ex_swap_data :: swap_data where
  "ex_swap_data =
     \<lparr>d_poolId = ''0xaa'', d_sender = ''0xsender'', d_amount0 = 1000000000000000000,
      d_amount1 = - 2000000000000000000, d_sqrtPriceX96 = 79228162514264337593543950336,
      d_liquidity = 5000000000000000000, d_tick = 100, d_fee = NumberFee 3000,
      d_event = ex_swap_log\<rparr>"

definition ex_replay_state :: state where
  "ex_replay_state = ex_state\<lparr>pools := [ex_pool_aa], swapEvents := [ex_swap_aa]\<rparr>"

text \<open>
  What the SwapEvent collection holds of a token: the sum of the absolute amounts of the swaps
  that touch it (\<open>amount0\<close> where it is token0, \<open>amount1\<close> where it is token1) and their number.
\<close>

definition swap_volume :: "address \<Rightarrow> swap_event list \<Rightarrow> int" where
  "swap_volume a evs =
     sum_list (map (\<lambda>s. (if token0Address s = a then \<bar>amount0 s\<bar> else 0)
                        + (if token1Address s = a then \<bar>amount1 s\<bar> else 0)) evs)"

definition swap_count :: "address \<Rightarrow> swap_event list \<Rightarrow> int" where
  "swap_count a evs =
     int (length (filter (\<lambda>s. token0Address s = a \<or> token1Address s = a) evs))"

text \<open>
  After the batch of block 100 the minute timer runs, at \<open>1700000050000\<close>, and finalizes the
  candles of the minute of both blocks; then the batch of block 101 is run.
\<close>

definition minute_finalized :: state where
  "minute_finalized = finalizeRecords ex_env_timer MINUTE synced_once"

definition late_synced :: state where
  "late_synced = snd (syncBatch ex_env_stream ex_cfg 101 101 minute_finalized)"

section \<open>Properties\<close>

subsection \<open>Rounding\<close>

lemma pow_int_eq: "pow_int b n = b ^ nat n"
proof (induction b n rule: pow_int.induct)
  case (1 b n)
  show ?case
  proof (cases "n \<le> 0")
    case True
    then show ?thesis by (simp add: pow_int.simps)
  next
    case False
    then have n: "0 < n" by simp
    show ?thesis
    proof (cases "even n")
      case True
      then have k: "nat n = 2 * nat (n div 2)" using n by (auto elim!: evenE simp: nat_mult_distrib)
      have "pow_int b n = (b * b) ^ nat (n div 2)"
        using 1(1)[OF False True] False True by (subst pow_int.simps) simp
      also have "\<dots> = b ^ nat n" unfolding k by (simp add: power_mult power2_eq_square)
      finally show ?thesis .
    next
      case odd: False
      then have k: "nat n = Suc (2 * nat (n div 2))"
        using n by (auto elim!: oddE simp: nat_mult_distrib nat_add_distrib)
      have "pow_int b n = b * (b * b) ^ nat (n div 2)"
        using 1(2)[OF False odd] False odd by (subst pow_int.simps) simp
      also have "\<dots> = b ^ nat n" unfolding k by (simp add: power_mult power2_eq_square)
      finally show ?thesis .
    qed
  qed
qed

lemma pow2_powi: "pow2 e = 2 powi e"
  by (simp add: pow2_def pow_int_eq power_int_def power_divide)

lemma pow2_pos [simp]: "0 < pow2 e"
  by (simp add: pow2_powi)

lemma pow2_nonneg [simp]: "0 \<le> pow2 e"
  by (simp add: pow2_powi)

lemma pow2_add: "pow2 (a + b) = pow2 a * pow2 b"
  by (simp add: pow2_powi power_int_add)

lemma pow2_mono: "a \<le> b \<Longrightarrow> pow2 a \<le> pow2 b"
  by (simp add: pow2_powi power_int_increasing)

lemma bit_length_bounds:
  "0 < n \<Longrightarrow> 1 \<le> bit_length n \<and> 2 ^ nat (bit_length n - 1) \<le> n \<and> n < 2 ^ nat (bit_length n)"
proof (induction n rule: bit_length.induct)
  case (1 n)
  show ?case
  proof (cases "n div 2 = 0")
    case True
    then have "n = 1" using 1(2) by presburger
    then show ?thesis by (simp add: bit_length.simps[of 1] bit_length.simps[of 0])
  next
    case False
    then have m: "0 < n div 2" using 1(2) by presburger
    have ih: "1 \<le> bit_length (n div 2)" "2 ^ nat (bit_length (n div 2) - 1) \<le> n div 2"
      "n div 2 < 2 ^ nat (bit_length (n div 2))"
      using 1(1)[OF _ m] 1(2) by auto
    have b: "bit_length n = 1 + bit_length (n div 2)"
      using 1(2) by (subst bit_length.simps) simp
    have e: "nat (bit_length n) = Suc (nat (bit_length (n div 2)))"
      "nat (bit_length n - 1) = Suc (nat (bit_length (n div 2) - 1))"
      using ih(1) b by auto
    have "2 * 2 ^ nat (bit_length (n div 2) - 1) \<le> n" using ih(2) by presburger
    moreover have "n < 2 * 2 ^ nat (bit_length (n div 2))" using ih(3) by presburger
    ultimately show ?thesis using b ih(1) unfolding e by simp
  qed
qed

lemma floor_log2_le: "0 < a \<Longrightarrow> pow2 (floor_log2 a) \<le> a"
proof -
  assume a: "0 < a"
  obtain p q where pq: "quotient_of a = (p, q)" by force
  have q: "0 < q" using quotient_of_denom_pos[OF pq] .
  have v: "a = of_int p / of_int q" using quotient_of_div[OF pq] .
  have p: "0 < p" using a q v by (simp add: zero_less_divide_iff)
  let ?e0 = "bit_length p - bit_length q"
  show ?thesis
  proof (cases "pow2 ?e0 \<le> a")
    case True
    then show ?thesis using pq by (simp add: floor_log2_def)
  next
    case False
    then have f: "floor_log2 a = ?e0 - 1" using pq by (simp add: floor_log2_def)
    have bp: "1 \<le> bit_length p" "(2::int) ^ nat (bit_length p - 1) \<le> p"
      using bit_length_bounds[OF p] by auto
    have bq: "1 \<le> bit_length q" "q < (2::int) ^ nat (bit_length q)"
      using bit_length_bounds[OF q] by auto
    have 1: "(2::rat) powi (bit_length p - 1) \<le> of_int p"
    proof -
      have "(of_int ((2::int) ^ nat (bit_length p - 1)) :: rat) \<le> of_int p"
        using bp(2) by (simp only: of_int_le_iff)
      then show ?thesis using bp(1) by (simp add: power_int_def)
    qed
    have 2: "of_int q \<le> (2::rat) powi (bit_length q)"
    proof -
      have "q \<le> (2::int) ^ nat (bit_length q)" using bq(2) by simp
      then have "(of_int q :: rat) \<le> of_int ((2::int) ^ nat (bit_length q))"
        by (simp only: of_int_le_iff)
      then show ?thesis using bq(1) by (simp add: power_int_def)
    qed
    have "pow2 (?e0 - 1) = 2 powi (bit_length p - 1) / 2 powi (bit_length q)"
      by (simp add: pow2_powi power_int_diff)
    also have "\<dots> \<le> of_int p / of_int q"
      using 1 2 q p by (intro frac_le) simp_all
    finally show ?thesis using f v by simp
  qed
qed

lemma round_half_even_near: "\<bar>of_int (round_half_even x) - x\<bar> \<le> 1 / 2"
proof -
  have "of_int \<lfloor>x\<rfloor> \<le> x" "x < of_int \<lfloor>x\<rfloor> + 1" by linarith+
  then show ?thesis by (auto simp: round_half_even_def Let_def)
qed

lemma round_half_even_nonneg: "0 \<le> x \<Longrightarrow> 0 \<le> round_half_even x"
  by (auto simp: round_half_even_def Let_def)

text \<open>A normal result of rounding is within a relative error of \<open>2 ^ - 52\<close> of the exact value.\<close>

lemma round64_rel_error:
  assumes "round64 x = Fin r" and "pow2 (- 1022) \<le> \<bar>r\<bar>"
  shows "\<bar>r - x\<bar> \<le> \<bar>x\<bar> / 2 ^ 52"
proof -
  have x: "x \<noteq> 0" using assms(1) by (auto simp: round64_def)
  define a where "a = \<bar>x\<bar>"
  define e where "e = max (floor_log2 a) (- 1022)"
  define u where "u = pow2 (e - 52)"
  define m where "m = round_half_even (a / u)"
  have a: "0 < a" using x by (simp add: a_def)
  have u: "0 < u" by (simp add: u_def)
  have r: "r = (if x < 0 then - (of_int m * u) else of_int m * u)"
    using assms(1) x
    by (simp add: round64_def Let_def a_def[symmetric] e_def[symmetric] u_def[symmetric]
          m_def[symmetric] split: if_splits)
  have m0: "0 \<le> m" using a u by (simp add: m_def round_half_even_nonneg)
  have absr: "\<bar>r\<bar> = of_int m * u" using r m0 u by (auto simp: abs_mult)
  have d: "\<bar>r - x\<bar> = \<bar>of_int m * u - a\<bar>" using r by (auto simp: a_def)
  have "\<bar>of_int m - a / u\<bar> \<le> 1 / 2" unfolding m_def by (rule round_half_even_near)
  then have "\<bar>of_int m - a / u\<bar> * u \<le> 1 / 2 * u" using u by (intro mult_right_mono) simp_all
  moreover have "\<bar>of_int m - a / u\<bar> * u = \<bar>of_int m * u - a\<bar>"
  proof -
    have eq: "of_int m * u - a = (of_int m - a / u) * u" using u by (simp add: left_diff_distrib)
    show ?thesis unfolding eq abs_mult using u by simp
  qed
  ultimately have err: "\<bar>r - x\<bar> \<le> u / 2" using d by simp
  have s: "pow2 e = 2 ^ 52 * u"
    using pow2_add[of 52 "e - 52"] by (simp add: u_def pow2_powi)
  have big: "(2 ^ 52 - 1 / 2) * u \<le> a"
  proof (cases "- 1022 \<le> floor_log2 a")
    case True
    then have "e = floor_log2 a" by (simp add: e_def)
    then have "2 ^ 52 * u \<le> a" using floor_log2_le[OF a] s by simp
    moreover have "(2 ^ 52 - 1 / 2) * u \<le> 2 ^ 52 * u" using u by (simp add: left_diff_distrib)
    ultimately show ?thesis by linarith
  next
    case False
    then have "e = - 1022" by (simp add: e_def)
    then have "2 ^ 52 * u \<le> of_int m * u" using assms(2) absr s by simp
    then have "2 ^ 52 \<le> (of_int m :: rat)" using u by simp
    moreover have "of_int m - 1 / 2 \<le> a / u"
      using round_half_even_near[of "a / u"] unfolding m_def by linarith
    ultimately have "2 ^ 52 - 1 / 2 \<le> a / u" by linarith
    then show ?thesis using u by (simp add: pos_le_divide_eq)
  qed
  have "u / 2 \<le> a / 2 ^ 52"
  proof -
    have "2 ^ 52 * (u / 2) \<le> (2 ^ 52 - 1 / 2) * u" using u by (simp add: left_diff_distrib)
    then have "2 ^ 52 * (u / 2) \<le> a" using big by linarith
    then show ?thesis by (simp add: pos_le_divide_eq mult.commute)
  qed
  then show ?thesis using err by (simp add: a_def)
qed


text \<open>A value in the normal range rounds to a number within a relative error of \<open>2 ^ - 53\<close>.\<close>

lemma round64_normal:
  assumes lo: "pow2 (- 1022) \<le> \<bar>x\<bar>" and hi: "\<bar>x\<bar> < pow2 1023"
  shows "\<exists>r. round64 x = Fin r \<and> \<bar>r - x\<bar> \<le> \<bar>x\<bar> / 2 ^ 53 \<and> (0 < x \<longrightarrow> 0 < r)"
proof -
  define a where "a = \<bar>x\<bar>"
  define e where "e = max (floor_log2 a) (- 1022)"
  define u where "u = pow2 (e - 52)"
  define m where "m = round_half_even (a / u)"
  have a: "0 < a" using lo pow2_pos[of "- 1022"] unfolding a_def by linarith
  then have x: "x \<noteq> 0" by (auto simp: a_def)
  have u: "0 < u" by (simp add: u_def)
  have el: "pow2 e \<le> a"
    using floor_log2_le[OF a] lo by (auto simp: e_def a_def max_def)
  have e: "e \<le> 1022"
  proof (rule ccontr)
    assume "\<not> e \<le> 1022"
    then have "pow2 1023 \<le> pow2 e" by (intro pow2_mono) simp
    then show False using el hi by (simp add: a_def)
  qed
  have s: "pow2 e = 2 ^ 52 * u"
    using pow2_add[of 52 "e - 52"] by (simp add: u_def pow2_powi)
  have big: "2 ^ 52 \<le> a / u" using el s u by (simp add: pos_le_divide_eq)
  have near: "\<bar>of_int m - a / u\<bar> \<le> 1 / 2" unfolding m_def by (rule round_half_even_near)
  have "(2::rat) \<le> 2 ^ 52" by simp
  then have "(1::rat) \<le> of_int m" using big near by linarith
  then have m: "1 \<le> m" by simp
  have r: "round64 x = Fin (if x < 0 then - (of_int m * u) else of_int m * u)"
    using x e m
    by (simp add: round64_def Let_def a_def[symmetric] e_def[symmetric] u_def[symmetric]
          m_def[symmetric])
  have eq: "of_int m * u - a = (of_int m - a / u) * u" using u by (simp add: left_diff_distrib)
  have "\<bar>of_int m * u - a\<bar> = \<bar>of_int m - a / u\<bar> * u"
    unfolding eq abs_mult using u by simp
  also have "\<dots> \<le> 1 / 2 * u" using near u by (intro mult_right_mono) simp_all
  finally have err: "\<bar>of_int m * u - a\<bar> \<le> u / 2" by simp
  have "2 ^ 52 * u \<le> a" using el s by simp
  then have "u / 2 \<le> a / 2 ^ 53" by simp
  then have bound: "\<bar>of_int m * u - a\<bar> \<le> a / 2 ^ 53" using err by linarith
  have pos: "0 < of_int m * u" using m u by simp
  let ?r = "if x < 0 then - (of_int m * u) else of_int m * u"
  have d: "\<bar>?r - x\<bar> = \<bar>of_int m * u - a\<bar>" by (auto simp: a_def)
  have 1: "\<bar>?r - x\<bar> \<le> \<bar>x\<bar> / 2 ^ 53" unfolding d using bound by (simp add: a_def)
  have 2: "0 < x \<longrightarrow> 0 < ?r" using pos by simp
  show ?thesis using r 1 2 by (intro exI[of _ ?r] conjI)
qed

lemma round64_pos:
  assumes "pow2 (- 1022) \<le> x" and "x < pow2 1023"
  shows "\<exists>r. round64 x = Fin r \<and> x / 2 \<le> r \<and> r \<le> 2 * x"
proof -
  have p: "0 < x" using assms(1) pow2_pos[of "- 1022"] by linarith
  then obtain r where r: "round64 x = Fin r" "\<bar>r - x\<bar> \<le> \<bar>x\<bar> / 2 ^ 53"
    using round64_normal[of x] assms by auto
  have "x / 2 ^ 53 \<le> x / 2" using p by (simp add: field_simps)
  then have "\<bar>r - x\<bar> \<le> x / 2" using r(2) p by simp
  then have "x / 2 \<le> r" "r \<le> 2 * x" using p by linarith+
  then show ?thesis using r(1) by (intro exI[of _ r]) simp
qed











text \<open>
  The fee of a swap is a 24-bit value. Multiplied by the zero that \<^verbatim>\<open>updateCurrentRecord\<close>
  takes as the amount in USD, the fee share is zero for any positive divisor in that range.
\<close>

lemma fee_share_zero:
  assumes f: "0 \<le> f" "f < 2 ^ 24" and D: "1 \<le> D" "D \<le> 2 ^ 24"
  shows "num_mul (Zero False) (num_div (number_of_int f) (Fin D)) = Zero False"
proof (cases "f = 0")
  case True
  then show ?thesis using D by (simp add: number_of_int_def round64_def)
next
  case False
  then have x1: "(1::rat) \<le> of_int f" using f(1) by simp
  have "(of_int f :: rat) < of_int (2 ^ 24)" using f(2) by (simp only: of_int_less_iff)
  then have x2: "(of_int f :: rat) < 2 ^ 24" by simp
  have lo1: "pow2 (- 1022) \<le> 1" using pow2_mono[of "- 1022" 0] by (simp add: pow2_powi)
  have hi: "(2::rat) ^ 26 < pow2 1023" by (simp add: pow2_powi)
  have "pow2 (- 1022) \<le> (of_int f :: rat)" using lo1 x1 by linarith
  moreover have "(of_int f :: rat) < pow2 1023" using x2 hi by simp
  ultimately obtain r where r: "round64 (of_int f) = Fin r" "of_int f / 2 \<le> r" "r \<le> 2 * of_int f"
    using round64_pos[of "of_int f"] by blast
  have r1: "1 / 2 \<le> r" using r(2) x1 by simp
  have r2: "r \<le> 2 ^ 25" using r(3) x2 by simp
  have Dp: "0 < D" using D(1) by simp
  have q1: "1 / 2 ^ 25 \<le> r / D"
  proof -
    have "1 / 2 ^ 25 = (1 / 2) / (2 ^ 24 :: rat)" by simp
    also have "\<dots> \<le> r / D" using r1 D Dp by (intro frac_le) simp_all
    finally show ?thesis .
  qed
  have q2: "r / D \<le> 2 ^ 25"
  proof -
    have "r / D \<le> r / 1" using D(1) r1 by (intro divide_left_mono) simp_all
    then show ?thesis using r2 by simp
  qed
  have lo2: "pow2 (- 1022) \<le> 1 / 2 ^ 25"
    using pow2_mono[of "- 1022" "- 25"] by (simp add: pow2_powi power_int_minus field_simps)
  have "pow2 (- 1022) \<le> r / D" using lo2 q1 by linarith
  moreover have "r / D < pow2 1023" using q2 hi by simp
  ultimately obtain w where w: "round64 (r / D) = Fin w" "(r / D) / 2 \<le> w"
    using round64_pos[of "r / D"] by blast
  have "0 < r" using r1 by linarith
  then have "0 < r / D / 2" using Dp by simp
  then have "0 < w" using w(2) by (rule less_le_trans)
  then show ?thesis using r(1) w(1) by (simp add: number_of_int_def)
qed

subsection \<open>The services\<close>

lemma logger_fields [simp]:
  "pools (logger lv msg st) = pools st"
  "swapEvents (logger lv msg st) = swapEvents st"
  "syncStates (logger lv msg st) = syncStates st"
  "tokens (logger lv msg st) = tokens st"
  "tokenMinutes (logger lv msg st) = tokenMinutes st"
  "tokenHours (logger lv msg st) = tokenHours st"
  "tokenDays (logger lv msg st) = tokenDays st"
  "emitted (logger lv msg st) = emitted st"
  "isSyncing (logger lv msg st) = isSyncing st"
  "tokenDecimalsCache (logger lv msg st) = tokenDecimalsCache st"
  "logs (logger lv msg st) = logs st @ [(lv, msg)]"
  by (simp_all add: logger_def)

lemma emit_fields [simp]:
  "pools (emit ev st) = pools st"
  "swapEvents (emit ev st) = swapEvents st"
  "syncStates (emit ev st) = syncStates st"
  "tokens (emit ev st) = tokens st"
  "tokenMinutes (emit ev st) = tokenMinutes st"
  "tokenHours (emit ev st) = tokenHours st"
  "tokenDays (emit ev st) = tokenDays st"
  "logs (emit ev st) = logs st"
  "isSyncing (emit ev st) = isSyncing st"
  "tokenDecimalsCache (emit ev st) = tokenDecimalsCache st"
  "emitted (emit ev st) = emitted st @ [ev]"
  by (simp_all add: emit_def)

lemma setModel_fields [simp]:
  "pools (setModel I cs st) = pools st"
  "swapEvents (setModel I cs st) = swapEvents st"
  "syncStates (setModel I cs st) = syncStates st"
  "tokens (setModel I cs st) = tokens st"
  "logs (setModel I cs st) = logs st"
  "emitted (setModel I cs st) = emitted st"
  "isSyncing (setModel I cs st) = isSyncing st"
  "tokenDecimalsCache (setModel I cs st) = tokenDecimalsCache st"
  by (cases I; simp)+

lemma getModel_setModel [simp]:
  "getModelByInterval I (setModel J cs st) = (if I = J then cs else getModelByInterval I st)"
  by (cases I; cases J; simp)

lemma getModel_logger [simp]: "getModelByInterval I (logger lv msg st) = getModelByInterval I st"
  by (cases I; simp)

lemma getModel_emit [simp]: "getModelByInterval I (emit ev st) = getModelByInterval I st"
  by (cases I; simp)

lemma getModel_upd [simp]:
  "getModelByInterval I (st\<lparr>pools := ps\<rparr>) = getModelByInterval I st"
  "getModelByInterval I (st\<lparr>swapEvents := es\<rparr>) = getModelByInterval I st"
  "getModelByInterval I (st\<lparr>syncStates := ss\<rparr>) = getModelByInterval I st"
  "getModelByInterval I (st\<lparr>tokens := ts\<rparr>) = getModelByInterval I st"
  "getModelByInterval I (st\<lparr>tokenDecimalsCache := c\<rparr>) = getModelByInterval I st"
  "getModelByInterval I (st\<lparr>isSyncing := b\<rparr>) = getModelByInterval I st"
  by (cases I; simp)+

text \<open>Frame lemmas: what a function leaves alone.\<close>

lemma fetchTokenMetadata_frame:
  "fetchTokenMetadata env cfg a st = (md, st') \<Longrightarrow>
     pools st' = pools st \<and> swapEvents st' = swapEvents st \<and> syncStates st' = syncStates st
     \<and> tokens st' = tokens st \<and> (\<forall>I. getModelByInterval I st' = getModelByInterval I st)
     \<and> isSyncing st' = isSyncing st \<and> emitted st' = emitted st"
  by (auto simp: fetchTokenMetadata_def split: if_splits sum.splits)

lemma getNativePriceInUSD_frame:
  "getNativePriceInUSD cfg st = (x, st') \<Longrightarrow>
     pools st' = pools st \<and> swapEvents st' = swapEvents st \<and> syncStates st' = syncStates st
     \<and> tokens st' = tokens st \<and> (\<forall>I. getModelByInterval I st' = getModelByInterval I st)
     \<and> isSyncing st' = isSyncing st \<and> emitted st' = emitted st"
  by (auto simp: getNativePriceInUSD_def Let_def split: if_splits option.splits)

lemma findNativePerToken_frame:
  "findNativePerToken cfg tok wn sc m st = (x, st') \<Longrightarrow>
     pools st' = pools st \<and> swapEvents st' = swapEvents st \<and> syncStates st' = syncStates st
     \<and> tokens st' = tokens st \<and> (\<forall>I. getModelByInterval I st' = getModelByInterval I st)
     \<and> isSyncing st' = isSyncing st \<and> emitted st' = emitted st"
  by (auto simp: findNativePerToken_def Let_def split: if_splits prod.splits
           dest!: getNativePriceInUSD_frame)

lemma fetchTokenDecimals_frame:
  "fetchTokenDecimals env a st = (d, st') \<Longrightarrow>
     pools st' = pools st \<and> swapEvents st' = swapEvents st \<and> syncStates st' = syncStates st
     \<and> tokens st' = tokens st \<and> (\<forall>I. getModelByInterval I st' = getModelByInterval I st)
     \<and> isSyncing st' = isSyncing st \<and> emitted st' = emitted st"
  by (auto simp: fetchTokenDecimals_def split: if_splits option.splits sum.splits)

lemma processTokenWhitelistUpdate_frame:
  "pools (processTokenWhitelistUpdate a pid st) = pools st
   \<and> swapEvents (processTokenWhitelistUpdate a pid st) = swapEvents st
   \<and> syncStates (processTokenWhitelistUpdate a pid st) = syncStates st
   \<and> (\<forall>I. getModelByInterval I (processTokenWhitelistUpdate a pid st) = getModelByInterval I st)
   \<and> isSyncing (processTokenWhitelistUpdate a pid st) = isSyncing st"
  by (simp add: processTokenWhitelistUpdate_def Let_def)

lemma updateTokenWhitelists_frame:
  "pools (updateTokenWhitelists cfg pid c0 c1 st) = pools st
   \<and> swapEvents (updateTokenWhitelists cfg pid c0 c1 st) = swapEvents st
   \<and> syncStates (updateTokenWhitelists cfg pid c0 c1 st) = syncStates st
   \<and> (\<forall>I. getModelByInterval I (updateTokenWhitelists cfg pid c0 c1 st) = getModelByInterval I st)
   \<and> isSyncing (updateTokenWhitelists cfg pid c0 c1 st) = isSyncing st"
  by (simp add: updateTokenWhitelists_def Let_def processTokenWhitelistUpdate_frame)

lemma writeRecord_frame:
  "writeRecord env a I ts v vu fd pr tvl tu ex st = (e, st') \<Longrightarrow>
     pools st' = pools st \<and> swapEvents st' = swapEvents st \<and> syncStates st' = syncStates st
     \<and> tokens st' = tokens st \<and> isSyncing st' = isSyncing st \<and> emitted st' = emitted st
     \<and> logs st' = logs st
     \<and> (\<forall>J. J \<noteq> I \<longrightarrow> getModelByInterval J st' = getModelByInterval J st)"
  by (auto simp: writeRecord_def Let_def split: option.splits sum.splits if_splits)

lemma updateOrCreateCurrentRecord_frame:
  "updateOrCreateCurrentRecord env a I ts v vu fd pr tvl tu st = (e, st') \<Longrightarrow>
     pools st' = pools st \<and> swapEvents st' = swapEvents st \<and> syncStates st' = syncStates st
     \<and> tokens st' = tokens st \<and> isSyncing st' = isSyncing st \<and> emitted st' = emitted st
     \<and> logs st' = logs st
     \<and> (\<forall>J. J \<noteq> I \<longrightarrow> getModelByInterval J st' = getModelByInterval J st)"
  unfolding updateOrCreateCurrentRecord_def by (rule writeRecord_frame)

lemma getOrCreateToken_frame:
  "getOrCreateToken env cfg a st = (t, st') \<Longrightarrow>
     pools st' = pools st \<and> swapEvents st' = swapEvents st \<and> syncStates st' = syncStates st
     \<and> (\<forall>I. getModelByInterval I st' = getModelByInterval I st)
     \<and> isSyncing st' = isSyncing st \<and> emitted st' = emitted st"
  unfolding getOrCreateToken_def Let_def
  by (auto split: option.splits sum.splits prod.splits dest!: fetchTokenMetadata_frame)

lemma refreshTokenMetadata_frame:
  "refreshTokenMetadata env cfg a t0 st = (t, st') \<Longrightarrow>
     pools st' = pools st \<and> swapEvents st' = swapEvents st \<and> syncStates st' = syncStates st
     \<and> (\<forall>I. getModelByInterval I st' = getModelByInterval I st)
     \<and> isSyncing st' = isSyncing st \<and> emitted st' = emitted st"
  unfolding refreshTokenMetadata_def Let_def
  by (auto split: if_splits prod.splits dest!: fetchTokenMetadata_frame)

lemma updateTokenTotals_frame [simp]:
  "pools (updateTokenTotals a t v x y z st) = pools st"
  "swapEvents (updateTokenTotals a t v x y z st) = swapEvents st"
  "syncStates (updateTokenTotals a t v x y z st) = syncStates st"
  "getModelByInterval I (updateTokenTotals a t v x y z st) = getModelByInterval I st"
  "isSyncing (updateTokenTotals a t v x y z st) = isSyncing st"
  "emitted (updateTokenTotals a t v x y z st) = emitted st"
  "logs (updateTokenTotals a t v x y z st) = logs st"
  by (simp_all add: updateTokenTotals_def)

lemma updateCandles_frame:
  "updateCandles env a ts v vu fd pr tvl tu st = (e, st') \<Longrightarrow>
     pools st' = pools st \<and> swapEvents st' = swapEvents st \<and> syncStates st' = syncStates st
     \<and> tokens st' = tokens st \<and> isSyncing st' = isSyncing st \<and> emitted st' = emitted st"
  unfolding updateCandles_def Let_def
  by (auto split: prod.splits dest!: updateOrCreateCurrentRecord_frame)

lemma updateCurrentRecord_frame:
  "updateCurrentRecord env cfg sw a b st = (e, st') \<Longrightarrow>
     pools st' = pools st \<and> swapEvents st' = swapEvents st \<and> syncStates st' = syncStates st
     \<and> isSyncing st' = isSyncing st \<and> emitted st' = emitted st"
  unfolding updateCurrentRecord_def Let_def
  by (auto split: option.splits prod.splits
       dest!: getOrCreateToken_frame refreshTokenMetadata_frame findNativePerToken_frame
              updateCandles_frame)

lemma processSwapEvent_frame:
  "pools (processSwapEvent env cfg sw st) = pools st
   \<and> swapEvents (processSwapEvent env cfg sw st) = swapEvents st
   \<and> syncStates (processSwapEvent env cfg sw st) = syncStates st
   \<and> isSyncing (processSwapEvent env cfg sw st) = isSyncing st
   \<and> emitted (processSwapEvent env cfg sw st) = emitted st"
  unfolding processSwapEvent_def
  by (auto split: option.splits prod.splits dest!: updateCurrentRecord_frame)

lemma collections_logger [simp]: "collections (logger lv msg st) = collections st"
  by (simp add: collections_def)

lemma syncRow_logger [simp]: "syncRow cfg (logger lv msg st) = syncRow cfg st"
  by (simp add: syncRow_def)

lemma find_updateOne_keep:
  "(\<And>x. P x \<Longrightarrow> P (f x)) \<Longrightarrow> find P (updateOne P f xs) = map_option f (find P xs)"
  by (induction xs) auto

lemma syncRow_commitBatch:
  "syncRow cfg (commitBatch env cfg cur t st) =
     map_option (\<lambda>s. s\<lparr>lastSyncedBlock := t, currentBlock := cur, lastSyncedAt := Some (now env),
                        isInitialSyncComplete := (cur \<le> t)\<rparr>) (syncRow cfg st)"
  by (simp add: syncRow_def commitBatch_def findOne_def find_updateOne_keep)

lemma commitBatch_fields [simp]:
  "pools (commitBatch env cfg cur t st) = pools st"
  "swapEvents (commitBatch env cfg cur t st) = swapEvents st"
  "tokens (commitBatch env cfg cur t st) = tokens st"
  "tokenMinutes (commitBatch env cfg cur t st) = tokenMinutes st"
  "tokenHours (commitBatch env cfg cur t st) = tokenHours st"
  "tokenDays (commitBatch env cfg cur t st) = tokenDays st"
  "logs (commitBatch env cfg cur t st) = logs st"
  "isSyncing (commitBatch env cfg cur t st) = isSyncing st"
  by (simp_all add: commitBatch_def)

lemma orphan_logger [simp]: "orphan args (logger lv m st) = orphan args st"
  by (cases args) (simp_all add: orphan_def)

lemma all_skipped_logger [simp]: "all_skipped env lgs (logger lv m st) = all_skipped env lgs st"
  by (simp add: all_skipped_def cong: parse_result.case_cong)

lemma warn_each_Cons:
  "parsed lg = Parsed args \<Longrightarrow>
     warn_each (lg # lgs) st = warn_each lgs (logger WARN (skip_warning args) st)"
  by (simp add: warn_each_def)

lemma collections_warn_each [simp]: "collections (warn_each lgs st) = collections st"
proof (induction lgs arbitrary: st)
  case Nil
  show ?case by (simp add: warn_each_def)
next
  case (Cons lg lgs)
  have "warn_each (lg # lgs) st =
          warn_each lgs (case parsed lg of Parsed args \<Rightarrow> logger WARN (skip_warning args) st
                         | ParseNull \<Rightarrow> st | ParseThrows \<Rightarrow> st)"
    by (simp add: warn_each_def)
  then show ?case using Cons.IH by (simp split: parse_result.splits)
qed

lemma isSyncing_warn_each [simp]: "isSyncing (warn_each lgs st) = isSyncing st"
proof (induction lgs arbitrary: st)
  case Nil
  show ?case by (simp add: warn_each_def)
next
  case (Cons lg lgs)
  have "warn_each (lg # lgs) st =
          warn_each lgs (case parsed lg of Parsed args \<Rightarrow> logger WARN (skip_warning args) st
                         | ParseNull \<Rightarrow> st | ParseThrows \<Rightarrow> st)"
    by (simp add: warn_each_def)
  then show ?case using Cons.IH by (simp split: parse_result.splits)
qed

lemma dispatch_orphan:
  assumes "orphan args st" and "block_read env lg args"
  shows "dispatch env cfg lg args st = (None, logger WARN (skip_warning args) st)"
  using assms
  by (cases args)
     (simp_all add: orphan_def block_read_def skip_warning_def handleSwapEvent_def
        handleModifyLiquidityEvent_def split: sum.splits)

lemma dispatchFromLog_orphan:
  assumes "orphan args st" and "block_read env lg args"
  shows "dispatchFromLog env cfg lg args st = (None, logger WARN (skip_warning args) st)"
  using assms
  by (cases args)
     (simp_all add: orphan_def block_read_def skip_warning_def handleSwapEvent_def
        handleSwapEventFromLog_def handleModifyLiquidityEventFromLog_def
        handleModifyLiquidityEvent_def split: sum.splits)

lemma syncBatch_logs_skipped:
  "all_skipped env lgs st \<Longrightarrow> syncBatch_logs env cfg lgs st = (None, warn_each lgs st)"
proof (induction lgs arbitrary: st)
  case Nil
  show ?case by (simp add: warn_each_def)
next
  case (Cons lg lgs)
  from Cons.prems obtain args where p: "parsed lg = Parsed args"
    and o: "orphan args st" and b: "block_read env lg args"
    and r: "all_skipped env lgs st"
    by (auto simp: all_skipped_def split: parse_result.splits)
  have "syncBatch_logs env cfg (lg # lgs) st =
          syncBatch_logs env cfg lgs (logger WARN (skip_warning args) st)"
    using p dispatch_orphan[OF o b] by simp
  also have "\<dots> = (None, warn_each lgs (logger WARN (skip_warning args) st))"
    using r by (intro Cons.IH) simp
  finally show ?case by (simp add: warn_each_Cons[OF p])
qed

lemma processQueue_skipped:
  "all_skipped env lgs st \<Longrightarrow> \<not> isSyncing st \<Longrightarrow> processQueue env cfg lgs st = warn_each lgs st"
proof (induction lgs arbitrary: st)
  case Nil
  show ?case by (simp add: warn_each_def)
next
  case (Cons lg lgs)
  from Cons.prems obtain args where p: "parsed lg = Parsed args"
    and o: "orphan args st" and b: "block_read env lg args"
    and r: "all_skipped env lgs st"
    by (auto simp: all_skipped_def split: parse_result.splits)
  have "processQueue env cfg (lg # lgs) st =
          processQueue env cfg lgs (logger WARN (skip_warning args) st)"
    using p dispatchFromLog_orphan[OF o b] Cons.prems(2) by simp
  also have "\<dots> = warn_each lgs (logger WARN (skip_warning args) st)"
    using r Cons.prems(2) by (intro Cons.IH) simp_all
  finally show ?case by (simp add: warn_each_Cons[OF p])
qed

lemma syncLoop_error:
  assumes "fromBlock \<le> cur"
      and "syncBatch env cfg fromBlock (min (fromBlock + syncBatchSize cfg - 1) cur)
             (logger LOG ''Syncing blocks'' st) = (Some e, st1)"
  shows "syncLoop env cfg cur fromBlock st tr = Some (Some e, st1, tr)"
  using assms by (subst syncLoop.simps) (simp add: Let_def)

lemma syncLoop_skipped:
  assumes le: "fromBlock \<le> cur"
      and gl: "getLogs env fromBlock (min (fromBlock + syncBatchSize cfg - 1) cur) = Inr lgs"
      and sk: "all_skipped env lgs st"
  shows "\<exists>st2. syncLoop env cfg cur fromBlock st tr =
                 syncLoop env cfg cur (min (fromBlock + syncBatchSize cfg - 1) cur + 1) st2
                   (tr @ [(fromBlock, min (fromBlock + syncBatchSize cfg - 1) cur,
                           syncStates st2)])
             \<and> pools st2 = pools st \<and> swapEvents st2 = swapEvents st
             \<and> tokens st2 = tokens st \<and> tokenMinutes st2 = tokenMinutes st
             \<and> tokenHours st2 = tokenHours st \<and> tokenDays st2 = tokenDays st
             \<and> map_option lastSyncedBlock (syncRow cfg st2) =
                 map_option (\<lambda>s. min (fromBlock + syncBatchSize cfg - 1) cur)
                   (syncRow cfg st)"
proof -
  let ?t = "min (fromBlock + syncBatchSize cfg - 1) cur"
  let ?s0 = "logger LOG ''Found events in blocks'' (logger LOG ''Syncing blocks'' st)"
  let ?s1 = "warn_each lgs ?s0"
  let ?s2 = "commitBatch env cfg cur ?t ?s1"
  have c: "collections ?s1 = collections st" by simp
  have r: "syncRow cfg ?s1 = syncRow cfg st"
    using c by (simp add: syncRow_def collections_def)
  have b: "syncBatch env cfg fromBlock ?t (logger LOG ''Syncing blocks'' st) = (None, ?s1)"
    using gl sk by (simp add: syncBatch_def syncBatch_logs_skipped)
  have "syncLoop env cfg cur fromBlock st tr =
          syncLoop env cfg cur (?t + 1) ?s2 (tr @ [(fromBlock, ?t, syncStates ?s2)])"
    using le b by (subst syncLoop.simps) (simp add: Let_def)
  moreover have "map_option lastSyncedBlock (syncRow cfg ?s2) = map_option (\<lambda>s. ?t) (syncRow cfg st)"
    by (simp add: syncRow_commitBatch r option.map_comp comp_def)
  ultimately show ?thesis
    using c by (intro exI[of _ ?s2]) (simp add: collections_def)
qed

text \<open>
  C7 (amended). A Swap or ModifyLiquidity event whose pool has no row is skipped, where the
  block of a Swap can be read: the handler logs a warning and returns, no collection changes,
  and the batch sync and the live queue go on with the next log. \<^verbatim>\<open>handleSwapEvent\<close> asks the
  provider for the block before it looks for the pool: when that call fails, the handler
  throws the provider's error without a warning, the batch sync stops with it, and the live
  queue logs it. A batch, or a queue, of skipped events writes one warning for each and leaves
  every collection as it was, and the iteration of the backfill over a window of skipped
  events commits \<open>lastSyncedBlock = toBlock\<close>.
\<close>

theorem C7_missing_pool_skipped:
  assumes "orphan args st"
      and "parsed lg = Parsed args"
  shows "(block_read env lg args \<longrightarrow>
            dispatch env cfg lg args st = (None, logger WARN (skip_warning args) st)
          \<and> dispatchFromLog env cfg lg args st = (None, logger WARN (skip_warning args) st)
          \<and> collections (logger WARN (skip_warning args) st) = collections st
          \<and> syncBatch_logs env cfg (lg # rest) st =
              syncBatch_logs env cfg rest (logger WARN (skip_warning args) st)
          \<and> (\<not> isSyncing st \<longrightarrow>
               processQueue env cfg (lg # rest) st =
                 processQueue env cfg rest (logger WARN (skip_warning args) st)))
     \<and> (\<forall>e. \<not> block_read env lg args \<and> getBlock env (l_blockNumber lg) = Inl e \<longrightarrow>
            dispatch env cfg lg args st = (Some e, st)
          \<and> dispatchFromLog env cfg lg args st = (Some e, st)
          \<and> (e \<noteq> DuplicateKey \<longrightarrow>
               syncBatch_logs env cfg (lg # rest) st =
                 (Some e, logger ERROR ''Error processing event in batch'' st))
          \<and> (\<not> isSyncing st \<longrightarrow>
               processQueue env cfg (lg # rest) st =
                 processQueue env cfg rest
                   (logger ERROR ''Error processing event from queue'' st)))
     \<and> (all_skipped env lgs st \<longrightarrow>
            syncBatch_logs env cfg lgs st = (None, warn_each lgs st)
          \<and> (\<not> isSyncing st \<longrightarrow> processQueue env cfg lgs st = warn_each lgs st)
          \<and> collections (warn_each lgs st) = collections st)
     \<and> (fromBlock \<le> cur
          \<and> getLogs env fromBlock (min (fromBlock + syncBatchSize cfg - 1) cur) = Inr lgs
          \<and> all_skipped env lgs st \<longrightarrow>
          (\<exists>st2. syncLoop env cfg cur fromBlock st tr =
                   syncLoop env cfg cur (min (fromBlock + syncBatchSize cfg - 1) cur + 1) st2
                     (tr @ [(fromBlock, min (fromBlock + syncBatchSize cfg - 1) cur,
                             syncStates st2)])
               \<and> pools st2 = pools st \<and> swapEvents st2 = swapEvents st
               \<and> tokens st2 = tokens st \<and> tokenMinutes st2 = tokenMinutes st
               \<and> tokenHours st2 = tokenHours st \<and> tokenDays st2 = tokenDays st
               \<and> map_option lastSyncedBlock (syncRow cfg st2) =
                   map_option (\<lambda>s. min (fromBlock + syncBatchSize cfg - 1) cur)
                     (syncRow cfg st)))"
proof (intro conjI impI allI)
  let ?w = "logger WARN (skip_warning args) st"
  {
    assume b: "block_read env lg args"
    show 1: "dispatch env cfg lg args st = (None, ?w)"
      using assms(1) b by (rule dispatch_orphan)
    show 2: "dispatchFromLog env cfg lg args st = (None, ?w)"
      using assms(1) b by (rule dispatchFromLog_orphan)
    show "collections ?w = collections st" by simp
    show "syncBatch_logs env cfg (lg # rest) st = syncBatch_logs env cfg rest ?w"
      using 1 assms(2) by simp
    show "processQueue env cfg (lg # rest) st = processQueue env cfg rest ?w"
      if "\<not> isSyncing st"
      using 2 assms(2) that by simp
  }
  {
    fix e
    assume a: "\<not> block_read env lg args \<and> getBlock env (l_blockNumber lg) = Inl e"
    then obtain pid sndr a0 a1 sp liq tk f where s: "args = Swap pid sndr a0 a1 sp liq tk f"
      by (cases args) (simp_all add: block_read_def)
    show 3: "dispatch env cfg lg args st = (Some e, st)"
      using a s by (simp add: handleSwapEvent_def)
    show 4: "dispatchFromLog env cfg lg args st = (Some e, st)"
      using a s by (simp add: handleSwapEvent_def handleSwapEventFromLog_def)
    show "syncBatch_logs env cfg (lg # rest) st =
            (Some e, logger ERROR ''Error processing event in batch'' st)"
      if "e \<noteq> DuplicateKey"
      using 3 assms(2) that by simp
    show "processQueue env cfg (lg # rest) st =
            processQueue env cfg rest (logger ERROR ''Error processing event from queue'' st)"
      if "\<not> isSyncing st"
      using 4 assms(2) that by simp
  }
  {
    assume sk: "all_skipped env lgs st"
    show "syncBatch_logs env cfg lgs st = (None, warn_each lgs st)"
      using sk by (rule syncBatch_logs_skipped)
    show "processQueue env cfg lgs st = warn_each lgs st" if "\<not> isSyncing st"
      using sk that by (rule processQueue_skipped)
    show "collections (warn_each lgs st) = collections st" by simp
  }
  {
    let ?t = "min (fromBlock + syncBatchSize cfg - 1) cur"
    assume "fromBlock \<le> cur \<and> getLogs env fromBlock ?t = Inr lgs \<and> all_skipped env lgs st"
    then show "\<exists>st2. syncLoop env cfg cur fromBlock st tr =
                   syncLoop env cfg cur (?t + 1) st2 (tr @ [(fromBlock, ?t, syncStates st2)])
               \<and> pools st2 = pools st \<and> swapEvents st2 = swapEvents st
               \<and> tokens st2 = tokens st \<and> tokenMinutes st2 = tokenMinutes st
               \<and> tokenHours st2 = tokenHours st \<and> tokenDays st2 = tokenDays st
               \<and> map_option lastSyncedBlock (syncRow cfg st2) = map_option (\<lambda>s. ?t) (syncRow cfg st)"
      using syncLoop_skipped by blast
  }
qed

theorem C7_missing_pool_skipped_witness:
  "dispatch ex_env ex_cfg ex_swap_log
     (Swap ''0xaa'' ''0xsender'' 1000000000000000000 (- 2000000000000000000)
        79228162514264337593543950336 5000000000000000000 100 3000) ex_state =
     (None, logger WARN ''Pool not found for poolId. Skipping swap event.'' ex_state)
   \<and> syncBatch_logs ex_env ex_cfg [ex_swap_log, ex_modify_log] ex_state =
       (None, logger WARN ''Pool not found for poolId. Skipping ModifyLiquidity event.''
                (logger WARN ''Pool not found for poolId. Skipping swap event.'' ex_state))
   \<and> (\<exists>st2. syncLoop ex_env ex_cfg 100 100 ex_state [] =
                syncLoop ex_env ex_cfg 100 101 st2 [(100, 100, syncStates st2)]
              \<and> pools st2 = [] \<and> swapEvents st2 = [] \<and> tokens st2 = []
              \<and> map_option lastSyncedBlock (syncRow ex_cfg st2) = Some 100)"
proof -
  let ?a = "Swap ''0xaa'' ''0xsender'' 1000000000000000000 (- 2000000000000000000)
        79228162514264337593543950336 5000000000000000000 100 3000"
  have o: "orphan ?a ex_state"
    by (simp add: orphan_def ex_state_def findOne_def)
  have p: "parsed ex_swap_log = Parsed ?a"
    by (simp add: ex_swap_log_def)
  have g: "block_read ex_env ex_swap_log ?a"
    by (simp add: block_read_def ex_env_def)
  have r: "syncRow ex_cfg ex_state = Some ex_sync_row"
    by (simp add: syncRow_def ex_state_def ex_cfg_def ex_sync_row_def findOne_def)
  have k1: "all_skipped ex_env [ex_swap_log] ex_state"
    by (simp add: all_skipped_def ex_swap_log_def orphan_def block_read_def ex_env_def
          ex_state_def findOne_def)
  have k2: "all_skipped ex_env [ex_swap_log, ex_modify_log] ex_state"
    by (simp add: all_skipped_def ex_swap_log_def ex_modify_log_def orphan_def block_read_def
          ex_env_def ex_state_def findOne_def)
  have c: "(100::int) \<le> 100 \<and> getLogs ex_env 100 (min (100 + syncBatchSize ex_cfg - 1) 100) = Inr [ex_swap_log]"
    by (simp add: ex_env_def)
  have m: "min (100 + syncBatchSize ex_cfg - 1) 100 = 100"
    by (simp add: ex_cfg_def)
  have w: "warn_each [ex_swap_log, ex_modify_log] ex_state =
             logger WARN ''Pool not found for poolId. Skipping ModifyLiquidity event.''
                (logger WARN ''Pool not found for poolId. Skipping swap event.'' ex_state)"
    by (simp add: warn_each_def ex_swap_log_def ex_modify_log_def skip_warning_def)
  note T1 = C7_missing_pool_skipped[OF o p, of ex_env ex_cfg "[]" "[ex_swap_log, ex_modify_log]"
               100 100 "[]"]
  note T2 = C7_missing_pool_skipped[OF o p, of ex_env ex_cfg "[]" "[ex_swap_log]"
               100 100 "[]", unfolded m]
  have a: "dispatch ex_env ex_cfg ex_swap_log ?a ex_state =
     (None, logger WARN ''Pool not found for poolId. Skipping swap event.'' ex_state)"
    using T1 g by (simp add: skip_warning_def)
  have b: "syncBatch_logs ex_env ex_cfg [ex_swap_log, ex_modify_log] ex_state =
       (None, logger WARN ''Pool not found for poolId. Skipping ModifyLiquidity event.''
                (logger WARN ''Pool not found for poolId. Skipping swap event.'' ex_state))"
    using T1 k2 w by simp
  have d: "\<exists>st2. syncLoop ex_env ex_cfg 100 100 ex_state [] =
                syncLoop ex_env ex_cfg 100 101 st2 [(100, 100, syncStates st2)]
              \<and> pools st2 = [] \<and> swapEvents st2 = [] \<and> tokens st2 = []
              \<and> map_option lastSyncedBlock (syncRow ex_cfg st2) = Some 100"
    using T2 c[unfolded m] k1 r by (auto simp: ex_state_def)
  show ?thesis using a b d by simp
qed

text \<open>
  Against the claim as it stands: no pool has the id of the swap, and the provider fails to
  return its block. The handler throws and logs no warning, the batch sync stops, and the
  backfill returns the error with no batch committed: the row of SyncState stays at block 99.
\<close>

theorem C7_orphan_swap_throws_counterexample:
  "orphan (Swap ''0xaa'' ''0xsender'' 1000000000000000000 (- 2000000000000000000)
        79228162514264337593543950336 5000000000000000000 100 3000) ex_state
   \<and> parsed ex_swap_log =
       Parsed (Swap ''0xaa'' ''0xsender'' 1000000000000000000 (- 2000000000000000000)
        79228162514264337593543950336 5000000000000000000 100 3000)
   \<and> dispatch ex_env_rpc ex_cfg ex_swap_log
       (Swap ''0xaa'' ''0xsender'' 1000000000000000000 (- 2000000000000000000)
        79228162514264337593543950336 5000000000000000000 100 3000) ex_state =
       (Some RpcError, ex_state)
   \<and> logs ex_state = []
   \<and> (\<exists>st'. syncHistoricalEvents ex_env_rpc ex_cfg ex_state = Some (Some RpcError, st', [])
             \<and> syncStates st' = [ex_sync_row]
             \<and> (WARN, ''Pool not found for poolId. Skipping swap event.'') \<notin> set (logs st'))"
proof -
  let ?a = "Swap ''0xaa'' ''0xsender'' 1000000000000000000 (- 2000000000000000000)
        79228162514264337593543950336 5000000000000000000 100 3000"
  have o: "orphan ?a ex_state"
    by (simp add: orphan_def ex_state_def findOne_def)
  have p: "parsed ex_swap_log = Parsed ?a"
    by (simp add: ex_swap_log_def)
  have d: "\<And>s. dispatch ex_env_rpc ex_cfg ex_swap_log ?a s = (Some RpcError, s)"
    by (simp add: handleSwapEvent_def ex_env_rpc_def ex_swap_log_def)
  let ?s0 = "logger LOG ''Continuing incomplete sync'' (ex_state\<lparr>isSyncing := True\<rparr>)"
  let ?s1 = "logger ERROR ''Error syncing batch''
               (logger ERROR ''Error processing event in batch''
                  (logger LOG ''Found events in blocks'' (logger LOG ''Syncing blocks'' ?s0)))"
  have m: "min (100 + syncBatchSize ex_cfg - 1) 120 = 120"
    by (simp add: ex_cfg_def)
  have b: "syncBatch ex_env_rpc ex_cfg 100 (min (100 + syncBatchSize ex_cfg - 1) 120)
             (logger LOG ''Syncing blocks'' ?s0) = (Some RpcError, ?s1)"
    unfolding m using p d by (simp add: syncBatch_def ex_env_rpc_def ex_env_def)
  have l: "syncLoop ex_env_rpc ex_cfg 120 100 ?s0 [] = Some (Some RpcError, ?s1, [])"
    by (rule syncLoop_error[OF _ b]) simp
  have f: "findOne (\<lambda>s. poolManagerAddress s = uniswapV4PoolManagerAddress ex_cfg)
             (syncStates (ex_state\<lparr>isSyncing := True\<rparr>)) = Some ex_sync_row"
    by (simp add: ex_state_def ex_cfg_def ex_sync_row_def findOne_def)
  have n: "getBlockNumber ex_env_rpc = Inr 120"
    by (simp add: ex_env_rpc_def ex_env_def)
  have i: "\<not> isInitialSyncComplete ex_sync_row" "lastSyncedBlock ex_sync_row + 1 = 100"
    by (simp_all add: ex_sync_row_def)
  have h: "syncHistoricalEvents ex_env_rpc ex_cfg ex_state =
             Some (Some RpcError,
                   (logger ERROR ''Error during historical sync'' ?s1)\<lparr>isSyncing := False\<rparr>, [])"
    unfolding syncHistoricalEvents_def Let_def f n using i l by simp
  have e: "\<exists>st'. syncHistoricalEvents ex_env_rpc ex_cfg ex_state = Some (Some RpcError, st', [])
             \<and> syncStates st' = [ex_sync_row]
             \<and> (WARN, ''Pool not found for poolId. Skipping swap event.'') \<notin> set (logs st')"
    unfolding h by (simp add: ex_state_def logger_def)
  show ?thesis using o p d[of ex_state] e by (simp add: ex_state_def)
qed

text \<open>
  C8 (amended). The live queue logs whatever the handling of an entry throws and goes on with
  the next entry. The batch sync goes on only after a duplicate-key error: any other error
  is logged and thrown again, so the rest of the batch is not processed, and the backfill
  loop returns the error without committing the batch.
\<close>

theorem C8_error_handling:
  assumes "parsed lg = Parsed args"
  shows "(dispatchFromLog env cfg lg args st = (Some e, st1) \<and> \<not> isSyncing st \<longrightarrow>
            processQueue env cfg (lg # rest) st =
              processQueue env cfg rest (logger ERROR ''Error processing event from queue'' st1))
     \<and> (dispatch env cfg lg args st = (Some e, st1) \<and> e = DuplicateKey \<longrightarrow>
            syncBatch_logs env cfg (lg # rest) st = syncBatch_logs env cfg rest st1)
     \<and> (dispatch env cfg lg args st = (Some e, st1) \<and> e \<noteq> DuplicateKey \<longrightarrow>
            syncBatch_logs env cfg (lg # rest) st =
              (Some e, logger ERROR ''Error processing event in batch'' st1))
     \<and> (dispatch env cfg lg args st = (Some e, st1) \<and> e \<noteq> DuplicateKey \<and> fromBlock \<le> cur
          \<and> getLogs env fromBlock (min (fromBlock + syncBatchSize cfg - 1) cur) = Inr (lg # rest)
          \<and> st = logger LOG ''Found events in blocks'' (logger LOG ''Syncing blocks'' st0) \<longrightarrow>
            syncLoop env cfg cur fromBlock st0 tr =
              Some (Some e,
                    logger ERROR ''Error syncing batch''
                      (logger ERROR ''Error processing event in batch'' st1),
                    tr))"
proof -
  have "dispatch env cfg lg args st = (Some e, st1) \<and> e \<noteq> DuplicateKey \<and> fromBlock \<le> cur
          \<and> getLogs env fromBlock (min (fromBlock + syncBatchSize cfg - 1) cur) = Inr (lg # rest)
          \<and> st = logger LOG ''Found events in blocks'' (logger LOG ''Syncing blocks'' st0) \<longrightarrow>
            syncLoop env cfg cur fromBlock st0 tr =
              Some (Some e,
                    logger ERROR ''Error syncing batch''
                      (logger ERROR ''Error processing event in batch'' st1),
                    tr)"
  proof (intro impI, elim conjE)
    assume d: "dispatch env cfg lg args st = (Some e, st1)"
      and ne: "e \<noteq> DuplicateKey" and le: "fromBlock \<le> cur"
      and gl: "getLogs env fromBlock (min (fromBlock + syncBatchSize cfg - 1) cur) = Inr (lg # rest)"
      and st: "st = logger LOG ''Found events in blocks'' (logger LOG ''Syncing blocks'' st0)"
    have "syncBatch env cfg fromBlock (min (fromBlock + syncBatchSize cfg - 1) cur)
            (logger LOG ''Syncing blocks'' st0) =
          (Some e, logger ERROR ''Error syncing batch''
                      (logger ERROR ''Error processing event in batch'' st1))"
      using gl assms d ne st by (simp add: syncBatch_def)
    then show "syncLoop env cfg cur fromBlock st0 tr =
              Some (Some e,
                    logger ERROR ''Error syncing batch''
                      (logger ERROR ''Error processing event in batch'' st1),
                    tr)"
      using le by (rule syncLoop_error[rotated])
  qed
  then show ?thesis using assms by simp
qed

lemma dispatch_swap_rpc:
  "dispatch ex_env_rpc ex_cfg ex_swap_log
     (Swap ''0xaa'' ''0xsender'' 1000000000000000000 (- 2000000000000000000)
        79228162514264337593543950336 5000000000000000000 100 3000) s = (Some RpcError, s)"
  by (simp add: handleSwapEvent_def ex_env_rpc_def ex_swap_log_def)

lemma dispatchFromLog_swap_rpc:
  "dispatchFromLog ex_env_rpc ex_cfg ex_swap_log
     (Swap ''0xaa'' ''0xsender'' 1000000000000000000 (- 2000000000000000000)
        79228162514264337593543950336 5000000000000000000 100 3000) s = (Some RpcError, s)"
  by (simp add: handleSwapEvent_def handleSwapEventFromLog_def ex_env_rpc_def ex_swap_log_def)

theorem C8_error_handling_witness:
  "processQueue ex_env_rpc ex_cfg [ex_swap_log, ex_init_log] ex_state =
     processQueue ex_env_rpc ex_cfg [ex_init_log]
       (logger ERROR ''Error processing event from queue'' ex_state)
   \<and> syncBatch_logs ex_env_rpc ex_cfg [ex_swap_log, ex_init_log] ex_state =
       (Some RpcError, logger ERROR ''Error processing event in batch'' ex_state)"
proof -
  have p: "parsed ex_swap_log = Parsed (Swap ''0xaa'' ''0xsender'' 1000000000000000000 (- 2000000000000000000)
        79228162514264337593543950336 5000000000000000000 100 3000)"
    by (simp add: ex_swap_log_def)
  have n: "\<not> isSyncing ex_state" by (simp add: ex_state_def)
  show ?thesis
    using C8_error_handling[OF p, of ex_env_rpc ex_cfg ex_state RpcError ex_state "[ex_init_log]"]
          dispatch_swap_rpc[of ex_state] dispatchFromLog_swap_rpc[of ex_state] n
    by simp
qed

text \<open>
  A batch of two logs, a Swap whose block the provider fails to return and then an
  Initialize: the batch sync stops at the first with the error, and no pool is created.
\<close>

theorem C8_backfill_halts_counterexample:
  "fst (syncBatch_logs ex_env_rpc ex_cfg [ex_swap_log, ex_init_log] ex_state) = Some RpcError
   \<and> pools (snd (syncBatch_logs ex_env_rpc ex_cfg [ex_swap_log, ex_init_log] ex_state)) = []
   \<and> length (pools (processQueue ex_env_rpc ex_cfg [ex_swap_log, ex_init_log] ex_state)) = 1"
proof -
  have p: "parsed ex_swap_log = Parsed (Swap ''0xaa'' ''0xsender'' 1000000000000000000 (- 2000000000000000000)
        79228162514264337593543950336 5000000000000000000 100 3000)"
    by (simp add: ex_swap_log_def)
  have a: "syncBatch_logs ex_env_rpc ex_cfg [ex_swap_log, ex_init_log] ex_state =
       (Some RpcError, logger ERROR ''Error processing event in batch'' ex_state)"
    using p dispatch_swap_rpc by simp
  have q: "parsed ex_init_log = Parsed (Initialize ''0xbb'' ''0xtokena'' ''0xtokenb'' 3000 60 ADDRESS_ZERO
                         79228162514264337593543950336 0)"
    by (simp add: ex_init_log_def)
  have n: "\<not> isSyncing ex_state" by (simp add: ex_state_def)
  have i: "\<And>s. pools s = [] \<Longrightarrow> \<exists>s'. dispatchFromLog ex_env_rpc ex_cfg ex_init_log
          (Initialize ''0xbb'' ''0xtokena'' ''0xtokenb'' 3000 60 ADDRESS_ZERO
                         79228162514264337593543950336 0) s = (None, s') \<and> length (pools s') = 1"
    by (auto simp: handleInitializeEvent_def ex_env_rpc_def ex_init_log_def Let_def create_def
          updateTokenWhitelists_frame
          split: prod.splits dest!: fetchTokenDecimals_frame)
  obtain s' where s': "dispatchFromLog ex_env_rpc ex_cfg ex_init_log
          (Initialize ''0xbb'' ''0xtokena'' ''0xtokenb'' 3000 60 ADDRESS_ZERO
                         79228162514264337593543950336 0)
            (logger ERROR ''Error processing event from queue'' ex_state) = (None, s')"
      and l: "length (pools s') = 1"
    using i[of "logger ERROR ''Error processing event from queue'' ex_state"]
    by (auto simp: ex_state_def)
  have b: "processQueue ex_env_rpc ex_cfg [ex_swap_log, ex_init_log] ex_state = s'"
    using p q n dispatchFromLog_swap_rpc s' by simp
  show ?thesis using a b l by (simp add: ex_state_def)
qed

lemma truthy_iff: "truthy x \<longleftrightarrow> x \<noteq> NaN \<and> \<not> strict_eq x (Zero False)"
  by (cases x) (auto simp: strict_eq_def)

lemma getNativePriceInUSD_not_NaN: "fst (getNativePriceInUSD cfg st) \<noteq> NaN"
  by (auto simp: getNativePriceInUSD_def ZERO_BD_def Let_def split: option.splits)

text \<open>
  C9. \<^verbatim>\<open>findNativePerToken\<close> returns 1 for the wrapped-native and the zero address; for any
  other token among the stablecoin addresses it returns 1 when the native price in USD is
  0, and 1 divided by that price otherwise. The two cases are tested in this order.
\<close>

theorem C9_derived_native_per_token:
  "(address tok = wn \<or> address tok = ADDRESS_ZERO \<longrightarrow>
      fst (findNativePerToken cfg tok wn stables m st) = Fin 1)
   \<and> (address tok \<noteq> wn \<and> address tok \<noteq> ADDRESS_ZERO \<and> address tok \<in> set stables \<longrightarrow>
      fst (findNativePerToken cfg tok wn stables m st) =
        (if strict_eq (fst (getNativePriceInUSD cfg st)) (Zero False) then Fin 1
         else num_div (Fin 1) (fst (getNativePriceInUSD cfg st))))"
  using getNativePriceInUSD_not_NaN[of cfg st]
  by (auto simp: findNativePerToken_def Let_def truthy_iff split: prod.splits)

lemma ex_native_price:
  "fst (getNativePriceInUSD ex_cfg (ex_state\<lparr>pools := [ex_usd_pool]\<rparr>)) = Fin 2000"
  by code_simp

theorem C9_derived_native_per_token_witness:
  "fst (findNativePerToken ex_cfg (ex_token ''0xweth'') ''0xweth'' [''0xusdc''] 0
          (ex_state\<lparr>pools := [ex_usd_pool]\<rparr>)) = Fin 1
   \<and> fst (findNativePerToken ex_cfg (ex_token ''0xusdc'') ''0xweth'' [''0xusdc''] 0
          (ex_state\<lparr>pools := [ex_usd_pool]\<rparr>)) = num_div (Fin 1) (Fin 2000)"
  using C9_derived_native_per_token[of "ex_token ''0xweth''" "''0xweth''" ex_cfg "[''0xusdc'']" 0
          "ex_state\<lparr>pools := [ex_usd_pool]\<rparr>"]
        C9_derived_native_per_token[of "ex_token ''0xusdc''" "''0xweth''" ex_cfg "[''0xusdc'']" 0
          "ex_state\<lparr>pools := [ex_usd_pool]\<rparr>"]
  by (simp add: ex_native_price ex_token_def ADDRESS_ZERO_def strict_eq_def)

text \<open>
  C10. Where \<^verbatim>\<open>price1\<close> is zero, \<^verbatim>\<open>safeDiv\<close> does not divide: \<^verbatim>\<open>token0Price\<close> is the string
  \<^verbatim>\<open>0\<close>, not \<^verbatim>\<open>Infinity\<close>. This holds whatever the runtime returns for \<^verbatim>\<open>Math.pow\<close>.
\<close>

theorem C10_zero_price_guarded:
  "strict_eq (price1_of env p d0 d1) (Zero False) \<Longrightarrow>
     sqrtPriceX96ToTokenPrices env p d0 d1 = (''0'', Number_toString (price1_of env p d0 d1))
     \<and> fst (sqrtPriceX96ToTokenPrices env p d0 d1) \<noteq> ''Infinity''"
  by (simp add: sqrtPriceX96ToTokenPrices_def safeDiv_def Let_def)

lemma price1_of_zero: "price1_of ex_env 0 18 18 = Zero False"
  by code_simp

theorem C10_zero_price_guarded_witness:
  "strict_eq (price1_of ex_env 0 18 18) (Zero False)
   \<and> sqrtPriceX96ToTokenPrices ex_env 0 18 18 = (''0'', ''0'')"
proof -
  have s: "strict_eq (price1_of ex_env 0 18 18) (Zero False)"
    by (simp add: price1_of_zero strict_eq_def)
  show ?thesis using C10_zero_price_guarded[OF s] s by (simp add: price1_of_zero)
qed

lemma finalized_kept_refl [simp]: "finalized_kept st st"
  by (simp add: finalized_kept_def)

lemma finalized_kept_trans:
  "finalized_kept a b \<Longrightarrow> finalized_kept b c \<Longrightarrow> finalized_kept a c"
  unfolding finalized_kept_def by metis

lemma finalized_kept_same:
  "(\<And>I. getModelByInterval I st' = getModelByInterval I st) \<Longrightarrow> finalized_kept st st'"
  by (simp add: finalized_kept_def)

lemma findIndex_Some: "findIndex P xs = Some i \<Longrightarrow> i < length xs \<and> P (xs ! i)"
  by (induction xs arbitrary: i) (auto split: if_splits)

lemma findIndex_None: "findIndex P xs = None \<longleftrightarrow> (\<forall>x \<in> set xs. \<not> P x)"
  by (induction xs) auto

lemma findCurrentRecord_Some:
  assumes "findCurrentRecord env a I ts st = Some (i, c)"
  shows "i < length (getModelByInterval I st) \<and> getModelByInterval I st ! i = c
         \<and> tokenAddress c = candleAddress env I a \<and> c_date c = roundTimestamp env ts I
         \<and> status c = CURRENT"
proof -
  let ?m = "getModelByInterval I st"
  let ?P = "\<lambda>c. tokenAddress c = candleAddress env I a \<and> c_date c = roundTimestamp env ts I
                 \<and> status c = CURRENT"
  from assms have "findIndex ?P ?m = Some i" and "?m ! i = c"
    by (auto simp: findCurrentRecord_def Let_def split: option.splits)
  then show ?thesis using findIndex_Some[of ?P ?m i] by auto
qed

lemma updateOrCreateCurrentRecord_kept:
  "finalized_kept st (snd (updateOrCreateCurrentRecord env a I ts v vu fd pr tvl tu st))"
proof -
  let ?m = "getModelByInterval I st"
  let ?P = "\<lambda>c. tokenAddress c = candleAddress env I a \<and> c_date c = roundTimestamp env ts I
                 \<and> status c = CURRENT"
  show ?thesis
  proof (cases "findIndex ?P ?m")
    case None
    then show ?thesis
      by (auto simp: updateOrCreateCurrentRecord_def findCurrentRecord_def writeRecord_def
            Let_def create_def finalized_kept_def nth_append)
  next
    case (Some i)
    then have "i < length ?m" and "status (?m ! i) = CURRENT"
      using findIndex_Some[of ?P ?m i] by auto
    then show ?thesis using Some
      by (auto simp: updateOrCreateCurrentRecord_def findCurrentRecord_def writeRecord_def
            Let_def finalized_kept_def nth_list_update)
  qed
qed

lemma finalizeRecords_models:
  "getModelByInterval J (finalizeRecords env I st) =
     (if J = I
      then updateMany (\<lambda>c. c_date c = roundTimestamp env (getPreviousPeriod env (now env) I) I
                             \<and> status c = CURRENT)
             (\<lambda>c. c\<lparr>status := FINALIZED\<rparr>) (getModelByInterval I st)
      else getModelByInterval J st)"
proof -
  have "\<And>s rs. getModelByInterval J (foldl (\<lambda>s r. emit (CandleFinalized I r) s) s rs) =
          getModelByInterval J s"
    by (induct_tac rs rule: rev_induct) simp_all
  then show ?thesis by (simp add: finalizeRecords_def Let_def)
qed

lemma finalizeRecords_logs:
  "logs (finalizeRecords env I st) = logs st @ [(LOG, ''Finalized records'')]"
proof -
  have "\<And>s rs. logs (foldl (\<lambda>s r. emit (CandleFinalized I r) s) s rs) = logs s"
    by (induct_tac rs rule: rev_induct) simp_all
  then show ?thesis by (simp add: finalizeRecords_def Let_def)
qed

lemma finalizeRecords_kept: "finalized_kept st (finalizeRecords env I st)"
  by (auto simp: finalized_kept_def finalizeRecords_models updateMany_def)

lemma updateCandles_kept:
  "finalized_kept st (snd (updateCandles env a ts v vu fd pr tvl tu st))"
proof -
  let ?s1 = "snd (updateOrCreateCurrentRecord env a MINUTE ts v vu fd pr tvl tu st)"
  let ?s2 = "snd (updateOrCreateCurrentRecord env a HOUR ts v vu fd pr tvl tu ?s1)"
  let ?s3 = "snd (updateOrCreateCurrentRecord env a DAY ts v vu fd pr tvl tu ?s2)"
  have "snd (updateCandles env a ts v vu fd pr tvl tu st) = ?s3"
    by (simp add: updateCandles_def Let_def split_def)
  moreover have "finalized_kept st ?s3"
    by (rule finalized_kept_trans[OF finalized_kept_trans[OF
          updateOrCreateCurrentRecord_kept updateOrCreateCurrentRecord_kept]
          updateOrCreateCurrentRecord_kept])
  ultimately show ?thesis by simp
qed

lemma updateCurrentRecord_kept:
  "finalized_kept st (snd (updateCurrentRecord env cfg sw a b st))"
proof -
  obtain t0 s1 where g: "getOrCreateToken env cfg a st = (t0, s1)" by force
  have k1: "finalized_kept st s1"
    using getOrCreateToken_frame[OF g] by (intro finalized_kept_same) simp
  show ?thesis
  proof (cases t0)
    case None
    then show ?thesis using g k1 by (simp add: updateCurrentRecord_def)
  next
    case (Some t)
    obtain tok s2 where r: "refreshTokenMetadata env cfg a t s1 = (tok, s2)" by force
    obtain dv s3 where f: "findNativePerToken cfg tok (wrappedNativeAddress cfg)
                              (stablecoinAddresses cfg) ZERO_BI s2 = (dv, s3)" by force
    have k2: "finalized_kept s1 s2"
      using refreshTokenMetadata_frame[OF r] by (intro finalized_kept_same) simp
    have k3: "finalized_kept s2 s3"
      using findNativePerToken_frame[OF f] by (intro finalized_kept_same) simp
    let ?v = "abs_bigint (if b then amount0 sw else amount1 sw)"
    let ?s4 = "updateTokenTotals a tok ?v amountUSD_const (swap_feesUSD sw) dv s3"
    have k4: "finalized_kept s3 ?s4"
      by (intro finalized_kept_same) simp
    have k5: "finalized_kept ?s4
                (snd (updateCandles env a (se_blockTimestamp sw) ?v amountUSD_const
                        (swap_feesUSD sw) dv 0 (Zero False) ?s4))"
      by (rule updateCandles_kept)
    have "updateCurrentRecord env cfg sw a b st =
            updateCandles env a (se_blockTimestamp sw) ?v amountUSD_const
              (swap_feesUSD sw) dv 0 (Zero False) ?s4"
      using g Some r f by (simp add: updateCurrentRecord_def Let_def)
    then show ?thesis
      using k1 k2 k3 k4 k5 finalized_kept_trans by metis
  qed
qed

lemma logger_kept: "finalized_kept st st' \<Longrightarrow> finalized_kept st (logger lv m st')"
  by (simp add: finalized_kept_def)

lemma processSwapEvent_kept: "finalized_kept st (processSwapEvent env cfg sw st)"
proof -
  obtain e1 s1 where a: "updateCurrentRecord env cfg sw (token0Address sw) True st = (e1, s1)"
    by force
  obtain e2 s2 where b: "updateCurrentRecord env cfg sw (token1Address sw) False s1 = (e2, s2)"
    by force
  have k1: "finalized_kept st s1"
    using updateCurrentRecord_kept[of st env cfg sw "token0Address sw" True] a by simp
  have k2: "finalized_kept s1 s2"
    using updateCurrentRecord_kept[of s1 env cfg sw "token1Address sw" False] b by simp
  have k3: "finalized_kept st s2" using k1 k2 by (rule finalized_kept_trans)
  show ?thesis
    using a b k1 k3 by (cases e1; cases e2) (simp_all add: processSwapEvent_def logger_kept)
qed

lemma applySwapToPool_frame:
  "swapEvents (applySwapToPool env d p st) = swapEvents st
   \<and> syncStates (applySwapToPool env d p st) = syncStates st
   \<and> tokens (applySwapToPool env d p st) = tokens st
   \<and> (\<forall>I. getModelByInterval I (applySwapToPool env d p st) = getModelByInterval I st)
   \<and> isSyncing (applySwapToPool env d p st) = isSyncing st
   \<and> emitted (applySwapToPool env d p st) = emitted st"
proof -
  obtain d0 s1 where a: "fetchTokenDecimals env (currency0 p) st = (d0, s1)" by force
  obtain d1 s2 where b: "fetchTokenDecimals env (currency1 p) s1 = (d1, s2)" by force
  show ?thesis
    using fetchTokenDecimals_frame[OF a] fetchTokenDecimals_frame[OF b] a b
    by (simp add: applySwapToPool_def Let_def split_def)
qed

lemma recordSwapEvent_kept: "finalized_kept st (snd (recordSwapEvent env cfg d sw st))"
proof (cases "case d_fee d of BigIntFee f \<Rightarrow> Inl ValidationError
              | NumberFee f \<Rightarrow> create swap_key sw (swapEvents st)")
  case (Inl e)
  then show ?thesis by (simp add: recordSwapEvent_def logger_kept)
next
  case (Inr evs)
  let ?s5 = "emit (SwapCreated sw) (logger LOG ''New swap event'' (st\<lparr>swapEvents := evs\<rparr>))"
  have "finalized_kept st ?s5" by (intro finalized_kept_same) simp
  then have "finalized_kept st (processSwapEvent env cfg sw ?s5)"
    using processSwapEvent_kept finalized_kept_trans by blast
  then show ?thesis using Inr
    by (simp add: recordSwapEvent_def Let_def finalized_kept_def)
qed

lemma handleSwapEvent_kept: "finalized_kept st (snd (handleSwapEvent env cfg d st))"
proof -
  have a: "\<And>p. finalized_kept st (applySwapToPool env d p st)"
    using applySwapToPool_frame by (intro finalized_kept_same) simp
  have "\<And>p ts. finalized_kept st
          (snd (recordSwapEvent env cfg d (makeSwapEvent d p ts) (applySwapToPool env d p st)))"
    using a recordSwapEvent_kept finalized_kept_trans by blast
  then show ?thesis using a
    by (auto simp: handleSwapEvent_def Let_def logger_kept split: sum.splits option.splits)
qed

lemma handleModifyLiquidityEvent_kept:
  "finalized_kept st (snd (handleModifyLiquidityEvent env cfg d st))"
  by (auto simp: handleModifyLiquidityEvent_def Let_def finalized_kept_def
        split: sum.splits option.splits)

lemma handleInitializeEvent_kept:
  "finalized_kept st (snd (handleInitializeEvent env cfg lg pid c0 c1 f ts hk sp tk st))"
proof -
  obtain d0 s1 where a: "fetchTokenDecimals env c0 st = (d0, s1)" by force
  obtain d1 s2 where b: "fetchTokenDecimals env c1 s1 = (d1, s2)" by force
  have "\<And>I. getModelByInterval I s2 = getModelByInterval I st"
    using fetchTokenDecimals_frame[OF a] fetchTokenDecimals_frame[OF b] by simp
  then show ?thesis using a b
    by (auto simp: handleInitializeEvent_def Let_def split_def finalized_kept_def
          updateTokenWhitelists_frame
          split: sum.splits option.splits)
qed

lemma dispatch_kept: "finalized_kept st (snd (dispatch env cfg lg args st))"
  by (cases args)
     (simp_all add: handleSwapEvent_kept handleModifyLiquidityEvent_kept
        handleInitializeEvent_kept)

lemma dispatchFromLog_kept: "finalized_kept st (snd (dispatchFromLog env cfg lg args st))"
  by (cases args)
     (simp_all add: handleSwapEvent_kept handleModifyLiquidityEvent_kept
        handleInitializeEvent_kept handleSwapEventFromLog_def
        handleModifyLiquidityEventFromLog_def)

lemma syncBatch_logs_kept: "finalized_kept st (snd (syncBatch_logs env cfg lgs st))"
proof (induction lgs arbitrary: st)
  case Nil
  then show ?case by simp
next
  case (Cons lg rest)
  show ?case
  proof (cases "parsed lg")
    case ParseThrows
    then show ?thesis by (simp add: logger_kept)
  next
    case ParseNull
    then show ?thesis
      using Cons.IH[of "logger WARN ''Failed to parse log in batch sync'' st"]
      by (simp add: finalized_kept_def)
  next
    case (Parsed args)
    obtain e s1 where d: "dispatch env cfg lg args st = (e, s1)" by force
    have k: "finalized_kept st s1" using dispatch_kept[of st env cfg lg args] d by simp
    have k2: "finalized_kept st (snd (syncBatch_logs env cfg rest s1))"
      using k Cons.IH[of s1] by (rule finalized_kept_trans)
    show ?thesis using Parsed d k k2
      by (cases e) (simp_all add: logger_kept)
  qed
qed

lemma syncBatch_kept: "finalized_kept st (snd (syncBatch env cfg f t st))"
proof (cases "getLogs env f t")
  case (Inl e)
  then show ?thesis by (simp add: syncBatch_def logger_kept)
next
  case (Inr lgs)
  let ?s0 = "logger LOG ''Found events in blocks'' st"
  obtain e s1 where r: "syncBatch_logs env cfg lgs ?s0 = (e, s1)" by force
  have "finalized_kept ?s0 s1" using syncBatch_logs_kept[of ?s0 env cfg lgs] r by simp
  then have "finalized_kept st s1" by (simp add: finalized_kept_def)
  then show ?thesis using Inr r by (cases e) (simp_all add: syncBatch_def logger_kept)
qed

lemma processQueue_kept: "finalized_kept st (processQueue env cfg lgs st)"
proof (induction lgs arbitrary: st)
  case Nil
  then show ?case by simp
next
  case (Cons lg rest)
  show ?case
  proof (cases "isSyncing st")
    case True
    then show ?thesis using Cons.IH[of st] by simp
  next
    case False
    show ?thesis
    proof (cases "parsed lg")
      case ParseThrows
      then show ?thesis
        using False Cons.IH[of "logger ERROR ''Error processing event from queue'' st"]
        by (simp add: finalized_kept_def)
    next
      case ParseNull
      then show ?thesis
        using False Cons.IH[of "logger WARN ''Failed to parse log'' st"]
        by (simp add: finalized_kept_def)
    next
      case (Parsed args)
      obtain e s1 where d: "dispatchFromLog env cfg lg args st = (e, s1)" by force
      have k: "finalized_kept st s1" using dispatchFromLog_kept[of st env cfg lg args] d by simp
      have k1: "finalized_kept st (processQueue env cfg rest s1)"
        using k Cons.IH[of s1] by (rule finalized_kept_trans)
      have "finalized_kept st (logger ERROR ''Error processing event from queue'' s1)"
        using k by (rule logger_kept)
      then have k2: "finalized_kept st
               (processQueue env cfg rest (logger ERROR ''Error processing event from queue'' s1))"
        using Cons.IH[of "logger ERROR ''Error processing event from queue'' s1"]
        by (rule finalized_kept_trans)
      show ?thesis using Parsed False d k1 k2 by (cases e) simp_all
    qed
  qed
qed

lemma late_no_current:
  assumes "late env I a ts st"
  shows "findIndex (\<lambda>c. tokenAddress c = candleAddress env I a \<and> c_date c = roundTimestamp env ts I
                          \<and> status c = CURRENT) (getModelByInterval I st) = None"
proof -
  let ?m = "getModelByInterval I st"
  from assms obtain c where c: "c \<in> set ?m"
      "candle_key c = (candleAddress env I a, roundTimestamp env ts I)"
      "status c = FINALIZED" and d: "distinct (map candle_key ?m)"
    by (auto simp: late_def)
  have "\<And>x. x \<in> set ?m \<Longrightarrow> candle_key x = candle_key c \<Longrightarrow> x = c"
    using d c(1) by (meson distinct_map inj_onD)
  then have "\<And>x. x \<in> set ?m \<Longrightarrow> tokenAddress x = candleAddress env I a \<Longrightarrow>
               c_date x = roundTimestamp env ts I \<Longrightarrow> status x \<noteq> CURRENT"
    using c(2,3) by (fastforce simp: candle_key_def)
  then show ?thesis by (auto simp: findIndex_None)
qed

lemma updateOrCreateCurrentRecord_late:
  assumes "late env I a ts st"
  shows "updateOrCreateCurrentRecord env a I ts v vu fd pr tvl tu st = (Some DuplicateKey, st)"
proof -
  from assms obtain c where "c \<in> set (getModelByInterval I st)"
      "candle_key c = (candleAddress env I a, roundTimestamp env ts I)"
    by (auto simp: late_def)
  then have "candle_key (newCandle (candleAddress env I a) (roundTimestamp env ts I) v vu fd pr tvl tu)
               \<in> candle_key ` set (getModelByInterval I st)"
    by (force simp: candle_key_def newCandle_def)
  then show ?thesis
    using late_no_current[OF assms]
    by (simp add: updateOrCreateCurrentRecord_def findCurrentRecord_def writeRecord_def
          Let_def create_def)
qed

lemma updateOrCreateCurrentRecord_error:
  "fst (updateOrCreateCurrentRecord env a I ts v vu fd pr tvl tu st) \<noteq> None \<Longrightarrow>
     fst (updateOrCreateCurrentRecord env a I ts v vu fd pr tvl tu st) = Some DuplicateKey"
  by (cases "findIndex (\<lambda>c. tokenAddress c = candleAddress env I a
                               \<and> c_date c = roundTimestamp env ts I
                               \<and> status c = CURRENT) (getModelByInterval I st)")
     (auto simp: updateOrCreateCurrentRecord_def findCurrentRecord_def writeRecord_def
        Let_def create_def split: if_splits)

lemma updateOrCreateCurrentRecord_other:
  "J \<noteq> I \<Longrightarrow>
     getModelByInterval J (snd (updateOrCreateCurrentRecord env a I ts v vu fd pr tvl tu st)) =
       getModelByInterval J st"
  using updateOrCreateCurrentRecord_frame[of env a I ts v vu fd pr tvl tu st]
  by (metis prod.collapse)

lemma late_other:
  "getModelByInterval I st' = getModelByInterval I st \<Longrightarrow> late env I a ts st' = late env I a ts st"
  by (simp add: late_def)

lemma updateCandles_late:
  assumes "late env I a ts st"
  shows "fst (updateCandles env a ts v vu fd pr tvl tu st) = Some DuplicateKey
         \<and> getModelByInterval I (snd (updateCandles env a ts v vu fd pr tvl tu st)) =
             getModelByInterval I st"
proof -
  obtain e1 s1 where 1: "updateOrCreateCurrentRecord env a MINUTE ts v vu fd pr tvl tu st = (e1, s1)"
    by force
  obtain e2 s2 where 2: "updateOrCreateCurrentRecord env a HOUR ts v vu fd pr tvl tu s1 = (e2, s2)"
    by force
  obtain e3 s3 where 3: "updateOrCreateCurrentRecord env a DAY ts v vu fd pr tvl tu s2 = (e3, s3)"
    by force
  have r: "updateCandles env a ts v vu fd pr tvl tu st = (first_error e1 (first_error e2 e3), s3)"
    using 1 2 3 by (simp add: updateCandles_def)
  have d1: "e1 \<noteq> None \<Longrightarrow> e1 = Some DuplicateKey"
    using updateOrCreateCurrentRecord_error[of env a MINUTE ts v vu fd pr tvl tu st] 1 by simp
  have d2: "e2 \<noteq> None \<Longrightarrow> e2 = Some DuplicateKey"
    using updateOrCreateCurrentRecord_error[of env a HOUR ts v vu fd pr tvl tu s1] 2 by simp
  have d3: "e3 \<noteq> None \<Longrightarrow> e3 = Some DuplicateKey"
    using updateOrCreateCurrentRecord_error[of env a DAY ts v vu fd pr tvl tu s2] 3 by simp
  have f1: "\<And>J. J \<noteq> MINUTE \<Longrightarrow> getModelByInterval J s1 = getModelByInterval J st"
    using updateOrCreateCurrentRecord_other[of _ MINUTE env a ts v vu fd pr tvl tu st] 1 by simp
  have f2: "\<And>J. J \<noteq> HOUR \<Longrightarrow> getModelByInterval J s2 = getModelByInterval J s1"
    using updateOrCreateCurrentRecord_other[of _ HOUR env a ts v vu fd pr tvl tu s1] 2 by simp
  have f3: "\<And>J. J \<noteq> DAY \<Longrightarrow> getModelByInterval J s3 = getModelByInterval J s2"
    using updateOrCreateCurrentRecord_other[of _ DAY env a ts v vu fd pr tvl tu s2] 3 by simp
  show ?thesis
  proof (cases I)
    case MINUTE
    then have "e1 = Some DuplicateKey" "s1 = st"
      using updateOrCreateCurrentRecord_late[OF assms, of v vu fd pr tvl tu] 1 by simp_all
    moreover have "getModelByInterval MINUTE s3 = getModelByInterval MINUTE s1"
      using f2[of MINUTE] f3[of MINUTE] by simp
    ultimately show ?thesis using r MINUTE by (simp add: first_error_def)
  next
    case HOUR
    have "late env HOUR a ts s1"
      using assms HOUR f1[of HOUR] late_other[of HOUR s1 st env a ts] by simp
    then have "e2 = Some DuplicateKey" "s2 = s1"
      using updateOrCreateCurrentRecord_late[of env HOUR a ts s1 v vu fd pr tvl tu] 2 by simp_all
    moreover have "getModelByInterval HOUR s3 = getModelByInterval HOUR st"
      using f1[of HOUR] f3[of HOUR] calculation(2) by simp
    ultimately show ?thesis using r HOUR d1 by (cases e1) (auto simp: first_error_def)
  next
    case DAY
    have "getModelByInterval DAY s2 = getModelByInterval DAY st"
      using f1[of DAY] f2[of DAY] by simp
    then have "late env DAY a ts s2"
      using assms DAY late_other[of DAY s2 st env a ts] by simp
    then have "e3 = Some DuplicateKey" "s3 = s2"
      using updateOrCreateCurrentRecord_late[of env DAY a ts s2 v vu fd pr tvl tu] 3 by simp_all
    moreover have "getModelByInterval DAY s3 = getModelByInterval DAY st"
      using f1[of DAY] f2[of DAY] calculation(2) by simp
    ultimately show ?thesis using r DAY d1 d2
      by (cases e1; cases e2) (auto simp: first_error_def)
  qed
qed

lemma create_absent:
  "find (\<lambda>y. key y = key x) xs = None \<Longrightarrow> create key x xs = Inr (xs @ [x])"
  by (auto simp: create_def find_None_iff)

lemma getOrCreateToken_Some: "\<exists>t. fst (getOrCreateToken env cfg a st) = Some t"
proof (cases "findOne (\<lambda>t. address t = toLowerCase a) (tokens st)")
  case None
  obtain md sa where m: "fetchTokenMetadata env cfg a st = (md, sa)"
    by (cases "fetchTokenMetadata env cfg a st") auto
  have "tokens sa = tokens st" using fetchTokenMetadata_frame[OF m] by simp
  then show ?thesis using None m
    by (auto simp: getOrCreateToken_def Let_def split_def findOne_def create_absent)
next
  case (Some t)
  then show ?thesis by (simp add: getOrCreateToken_def)
qed

lemma updateCurrentRecord_late:
  assumes "late env I a (se_blockTimestamp sw) st"
  shows "fst (updateCurrentRecord env cfg sw a b st) = Some DuplicateKey
         \<and> getModelByInterval I (snd (updateCurrentRecord env cfg sw a b st)) =
             getModelByInterval I st"
proof -
  obtain t0 s1 where g: "getOrCreateToken env cfg a st = (t0, s1)" by force
  obtain t where t: "t0 = Some t" using getOrCreateToken_Some[of env cfg a st] g by auto
  obtain tok s2 where r: "refreshTokenMetadata env cfg a t s1 = (tok, s2)" by force
  obtain dv s3 where f: "findNativePerToken cfg tok (wrappedNativeAddress cfg)
                            (stablecoinAddresses cfg) ZERO_BI s2 = (dv, s3)" by force
  let ?v = "abs_bigint (if b then amount0 sw else amount1 sw)"
  let ?s4 = "updateTokenTotals a tok ?v amountUSD_const (swap_feesUSD sw) dv s3"
  have m: "getModelByInterval I ?s4 = getModelByInterval I st"
    using getOrCreateToken_frame[OF g] refreshTokenMetadata_frame[OF r]
      findNativePerToken_frame[OF f] by simp
  then have l: "late env I a (se_blockTimestamp sw) ?s4"
    using assms late_other[of I ?s4 st env a "se_blockTimestamp sw"] by simp
  have "updateCurrentRecord env cfg sw a b st =
          updateCandles env a (se_blockTimestamp sw) ?v amountUSD_const
            (swap_feesUSD sw) dv 0 (Zero False) ?s4"
    using g t r f by (simp add: updateCurrentRecord_def Let_def)
  then show ?thesis
    using updateCandles_late[OF l, of ?v amountUSD_const "swap_feesUSD sw" dv 0 "Zero False"] m
    by simp
qed

text \<open>
  Where nothing runs between the read and the write of a fold, a finalized candle is kept by
  every operation: the fold of a swap into an interval, the finalizer, the handling of an
  event, a batch of the backfill, the live queue. A swap whose bucket is finalized leaves the
  collection of that interval as it is: the insert is refused by the unique index, and the
  aggregation logs the refusal at error level.
\<close>

lemma finalized_kept_sequential:
  "finalized_kept st (snd (updateOrCreateCurrentRecord env a I ts v vu fd pr tvl tu st))
   \<and> finalized_kept st (finalizeRecords env I st)
   \<and> finalized_kept st (snd (dispatch env cfg lg args st))
   \<and> finalized_kept st (snd (dispatchFromLog env cfg lg args st))
   \<and> finalized_kept st (snd (syncBatch env cfg fromBlock toBlock st))
   \<and> finalized_kept st (processQueue env cfg lgs st)
   \<and> (late env I a ts st \<longrightarrow>
        updateOrCreateCurrentRecord env a I ts v vu fd pr tvl tu st = (Some DuplicateKey, st))
   \<and> (late env I (token0Address sw) (se_blockTimestamp sw) st \<longrightarrow>
        (\<exists>s1. processSwapEvent env cfg sw st =
                 logger ERROR ''Error handling swap event for aggregation'' s1
              \<and> getModelByInterval I s1 = getModelByInterval I st))"
proof -
  have "late env I (token0Address sw) (se_blockTimestamp sw) st \<longrightarrow>
        (\<exists>s1. processSwapEvent env cfg sw st =
                 logger ERROR ''Error handling swap event for aggregation'' s1
              \<and> getModelByInterval I s1 = getModelByInterval I st)"
  proof
    assume l: "late env I (token0Address sw) (se_blockTimestamp sw) st"
    obtain e s1 where u: "updateCurrentRecord env cfg sw (token0Address sw) True st = (e, s1)"
      by force
    have "e = Some DuplicateKey" "getModelByInterval I s1 = getModelByInterval I st"
      using updateCurrentRecord_late[OF l, of cfg True] u by simp_all
    then show "\<exists>s1. processSwapEvent env cfg sw st =
                 logger ERROR ''Error handling swap event for aggregation'' s1
              \<and> getModelByInterval I s1 = getModelByInterval I st"
      using u by (auto simp: processSwapEvent_def)
  qed
  then show ?thesis
    by (simp add: updateOrCreateCurrentRecord_kept finalizeRecords_kept dispatch_kept
          dispatchFromLog_kept syncBatch_kept processQueue_kept updateOrCreateCurrentRecord_late)
qed

lemma setFields_foldCandle:
  "setFields (foldCandle c v vu fd pr tvl tu) (c\<lparr>status := s\<rparr>) =
     (foldCandle c v vu fd pr tvl tu)\<lparr>status := s\<rparr>"
  by (simp add: setFields_def foldCandle_def Let_def)

lemma foldCandle_fields:
  "c_volume (foldCandle c v vu fd pr tvl tu) = c_volume c + v"
  "c_txCount (foldCandle c v vu fd pr tvl tu) = c_txCount c + 1"
  "tokenAddress (foldCandle c v vu fd pr tvl tu) = tokenAddress c"
  "c_date (foldCandle c v vu fd pr tvl tu) = c_date c"
  "status (foldCandle c v vu fd pr tvl tu) = status c"
  by (simp_all add: foldCandle_def Let_def)

text \<open>
  C5. A finalized candle is changed when the finalizer's timer fires between the read and the
  write of a fold. The fold reads the current candle \<open>c\<close> of its bucket at index \<open>i\<close>; the
  finalizer, whose previous period is that bucket, makes it finalized; the write, addressed
  by \<open>_id\<close> alone, then sets the folded values on the finalized candle: its volume grows by
  the swap's volume and its count by one. The write throws nothing and logs nothing.
\<close>

theorem C5_finalizer_race:
  assumes "findCurrentRecord env a I ts st = Some (i, c)"
      and "roundTimestamp env ts I = roundTimestamp env (getPreviousPeriod env (now env) I) I"
  shows "\<exists>st2. foldAcrossFinalizer env a I ts v vu fd pr tvl tu st = (None, st2)
           \<and> i < length (getModelByInterval I (finalizeRecords env I st))
           \<and> getModelByInterval I (finalizeRecords env I st) ! i = c\<lparr>status := FINALIZED\<rparr>
           \<and> getModelByInterval I st2 ! i =
               (foldCandle c v vu fd pr tvl tu)\<lparr>status := FINALIZED\<rparr>
           \<and> status (getModelByInterval I st2 ! i) = FINALIZED
           \<and> c_volume (getModelByInterval I st2 ! i) = c_volume c + v
           \<and> c_txCount (getModelByInterval I st2 ! i) = c_txCount c + 1
           \<and> logs st2 = logs (finalizeRecords env I st)
           \<and> \<not> finalized_kept (finalizeRecords env I st) st2"
proof -
  let ?m = "getModelByInterval I st"
  let ?s1 = "finalizeRecords env I st"
  let ?m1 = "getModelByInterval I ?s1"
  let ?new = "(foldCandle c v vu fd pr tvl tu)\<lparr>status := FINALIZED\<rparr>"
  let ?s2 = "setModel I (?m1[i := ?new]) ?s1"
  note F = findCurrentRecord_Some[OF assms(1)]
  have i: "i < length ?m" using F by blast
  have c: "c = ?m ! i" using F by simp
  have d: "c_date c = roundTimestamp env ts I" using F by blast
  have s: "status c = CURRENT" using F by blast
  have l1: "i < length ?m1"
    using i by (simp add: finalizeRecords_models updateMany_def)
  have r1: "?m1 ! i = c\<lparr>status := FINALIZED\<rparr>"
    using i c d s assms(2) by (simp add: finalizeRecords_models updateMany_def)
  have w: "foldAcrossFinalizer env a I ts v vu fd pr tvl tu st = (None, ?s2)"
    using assms(1) l1 r1
    by (simp add: foldAcrossFinalizer_def writeRecord_def Let_def setFields_foldCandle)
  have r2: "getModelByInterval I ?s2 ! i = ?new"
    using l1 by simp
  have n: "\<not> finalized_kept ?s1 ?s2"
  proof
    assume "finalized_kept ?s1 ?s2"
    then have "i < length ?m1 \<and> status (?m1 ! i) = FINALIZED \<longrightarrow>
                 i < length (getModelByInterval I ?s2)
                 \<and> getModelByInterval I ?s2 ! i = ?m1 ! i"
      unfolding finalized_kept_def by blast
    moreover have "status (?m1 ! i) = FINALIZED" using r1 by simp
    ultimately have "getModelByInterval I ?s2 ! i = ?m1 ! i"
      using l1 by blast
    then have "c_txCount ?new = c_txCount (c\<lparr>status := FINALIZED\<rparr>)"
      using r1 r2 by simp
    then show False by (simp add: foldCandle_fields)
  qed
  show ?thesis
    using w l1 r1 r2 n by (intro exI[of _ ?s2]) (simp add: foldCandle_fields)
qed

lemma ex_current_read:
  "findCurrentRecord ex_env_timer ''0xtokena'' MINUTE 1700000000000 ex_current_state =
     Some (0, ex_current_candle)"
  by (simp add: findCurrentRecord_def ex_current_state_def ex_current_candle_def
        ex_state_def roundTimestamp_def LocalTime_def UTC_def ex_env_timer_def ex_env_def
        candleAddress_def toLowerCase_def lower_char_def Let_def)

lemma ex_current_bucket:
  "roundTimestamp ex_env_timer 1700000000000 MINUTE =
     roundTimestamp ex_env_timer (getPreviousPeriod ex_env_timer (now ex_env_timer) MINUTE)
       MINUTE"
  by (simp add: roundTimestamp_def getPreviousPeriod_def LocalTime_def UTC_def
        ex_env_timer_def ex_env_def Let_def)

theorem C5_finalizer_race_witness:
  "\<exists>st2. foldAcrossFinalizer ex_env_timer ''0xtokena'' MINUTE 1700000000000 7 (Zero False)
            (Zero False) (Fin (1 / 2)) 0 (Zero False) ex_current_state = (None, st2)
         \<and> tokenMinutes (finalizeRecords ex_env_timer MINUTE ex_current_state) ! 0 =
             ex_current_candle\<lparr>status := FINALIZED\<rparr>
         \<and> status (tokenMinutes st2 ! 0) = FINALIZED
         \<and> c_volume (tokenMinutes st2 ! 0) = 12
         \<and> c_txCount (tokenMinutes st2 ! 0) = 2
         \<and> \<not> finalized_kept (finalizeRecords ex_env_timer MINUTE ex_current_state) st2"
  using C5_finalizer_race[OF ex_current_read ex_current_bucket, of 7 "Zero False" "Zero False"
          "Fin (1 / 2)" 0 "Zero False"]
  by (auto simp: ex_current_candle_def)

lemma ex_late: "late ex_env MINUTE ''0xtokena'' 1700000000000 ex_late_state"
  by (simp add: late_def ex_late_state_def ex_late_candle_def ex_state_def candle_key_def
        roundTimestamp_def LocalTime_def UTC_def ex_env_def candleAddress_def toLowerCase_def
        lower_char_def Let_def)

text \<open>
  Without the race: a swap whose bucket is finalized. The candle is kept, its insert is
  refused, and the log has one entry, at error level; no warning is logged.
\<close>

theorem C5_no_warning_counterexample:
  "logs (processSwapEvent ex_env ex_cfg ex_swap ex_late_state) =
     [(ERROR, ''Error handling swap event for aggregation'')]
   \<and> tokenMinutes (processSwapEvent ex_env ex_cfg ex_swap ex_late_state) = [ex_late_candle]
   \<and> status ex_late_candle = FINALIZED
   \<and> candle_key ex_late_candle =
       (token0Address ex_swap, roundTimestamp ex_env (se_blockTimestamp ex_swap) MINUTE)"
  by code_simp

lemma parseFloat_0: "parseFloat ''0'' = Zero False"
  by code_simp

lemma low_positive_not_0: "num_gt (parseFloat s) (Zero False) \<Longrightarrow> s \<noteq> ''0''"
  using parseFloat_0 by (auto simp: num_gt_def num_lt_def)

lemma truthy_not_0: "truthy (parseFloat s) \<Longrightarrow> s \<noteq> ''0''"
  using parseFloat_0 by auto

lemma updateOrCreateCurrentRecord_absent:
  assumes "\<forall>c \<in> set (getModelByInterval I st).
             candle_key c \<noteq> (candleAddress env I a, roundTimestamp env ts I)"
  shows "updateOrCreateCurrentRecord env a I ts v vu fd price tvl tu st =
           (None, setModel I (getModelByInterval I st
              @ [newCandle (candleAddress env I a) (roundTimestamp env ts I) v vu fd price tvl tu])
              st)"
proof -
  let ?m = "getModelByInterval I st"
  let ?d = "roundTimestamp env ts I"
  let ?P = "\<lambda>c. tokenAddress c = candleAddress env I a \<and> c_date c = ?d \<and> status c = CURRENT"
  have f: "findIndex ?P ?m = None"
    using assms by (auto simp: findIndex_None candle_key_def)
  have k: "candle_key (newCandle (candleAddress env I a) ?d v vu fd price tvl tu) =
             (candleAddress env I a, ?d)"
    by (simp add: candle_key_def newCandle_def)
  have c: "create candle_key (newCandle (candleAddress env I a) ?d v vu fd price tvl tu) ?m =
             Inr (?m @ [newCandle (candleAddress env I a) ?d v vu fd price tvl tu])"
    using assms k by (auto simp: create_def)
  show ?thesis
    using f c
    by (simp add: updateOrCreateCurrentRecord_def findCurrentRecord_def writeRecord_def Let_def)
qed

lemma setFields_same: "setFields (foldCandle c v vu fd pr tvl tu) c = foldCandle c v vu fd pr tvl tu"
  by (simp add: setFields_def foldCandle_def Let_def)

lemma updateOrCreateCurrentRecord_present:
  assumes "findCurrentRecord env a I ts st = Some (i, c)"
  shows "updateOrCreateCurrentRecord env a I ts v vu fd price tvl tu st =
           (None, setModel I ((getModelByInterval I st)[i := foldCandle c v vu fd price tvl tu])
              st)"
proof -
  note F = findCurrentRecord_Some[OF assms]
  have i: "i < length (getModelByInterval I st)" using F by blast
  have c: "getModelByInterval I st ! i = c" using F by simp
  show ?thesis
    using assms i c
    by (simp add: updateOrCreateCurrentRecord_def writeRecord_def Let_def setFields_same)
qed

lemma updateOrCreateCurrentRecord_model:
  assumes "getModelByInterval I s' = getModelByInterval I s"
  shows "getModelByInterval I (snd (updateOrCreateCurrentRecord env a I ts v vu fd pr tvl tu s')) =
         getModelByInterval I (snd (updateOrCreateCurrentRecord env a I ts v vu fd pr tvl tu s))"
  using assms
  by (simp add: updateOrCreateCurrentRecord_def findCurrentRecord_def writeRecord_def Let_def
        split: option.splits sum.splits)

lemma updateCandles_model:
  "getModelByInterval I (snd (updateCandles env a ts v vu fd pr tvl tu st)) =
     getModelByInterval I (snd (updateOrCreateCurrentRecord env a I ts v vu fd pr tvl tu st))"
proof -
  obtain e1 s1 where 1: "updateOrCreateCurrentRecord env a MINUTE ts v vu fd pr tvl tu st = (e1, s1)"
    by force
  obtain e2 s2 where 2: "updateOrCreateCurrentRecord env a HOUR ts v vu fd pr tvl tu s1 = (e2, s2)"
    by force
  obtain e3 s3 where 3: "updateOrCreateCurrentRecord env a DAY ts v vu fd pr tvl tu s2 = (e3, s3)"
    by force
  have r: "snd (updateCandles env a ts v vu fd pr tvl tu st) = s3"
    using 1 2 3 by (simp add: updateCandles_def)
  have f1: "\<And>J. J \<noteq> MINUTE \<Longrightarrow> getModelByInterval J s1 = getModelByInterval J st"
    using updateOrCreateCurrentRecord_other[of _ MINUTE env a ts v vu fd pr tvl tu st] 1 by simp
  have f2: "\<And>J. J \<noteq> HOUR \<Longrightarrow> getModelByInterval J s2 = getModelByInterval J s1"
    using updateOrCreateCurrentRecord_other[of _ HOUR env a ts v vu fd pr tvl tu s1] 2 by simp
  have f3: "\<And>J. J \<noteq> DAY \<Longrightarrow> getModelByInterval J s3 = getModelByInterval J s2"
    using updateOrCreateCurrentRecord_other[of _ DAY env a ts v vu fd pr tvl tu s2] 3 by simp
  show ?thesis
  proof (cases I)
    case MINUTE
    have "getModelByInterval MINUTE s3 = getModelByInterval MINUTE s1"
      using f2[of MINUTE] f3[of MINUTE] by simp
    then show ?thesis using r 1 MINUTE by simp
  next
    case HOUR
    have a: "getModelByInterval HOUR s3 = getModelByInterval HOUR s2"
      using f3[of HOUR] by simp
    have "getModelByInterval HOUR s1 = getModelByInterval HOUR st"
      using f1[of HOUR] by simp
    then have "getModelByInterval HOUR s2 =
                 getModelByInterval HOUR
                   (snd (updateOrCreateCurrentRecord env a HOUR ts v vu fd pr tvl tu st))"
      using updateOrCreateCurrentRecord_model[of HOUR s1 st env a ts v vu fd pr tvl tu] 2
      by simp
    then show ?thesis using r a HOUR by simp
  next
    case DAY
    have "getModelByInterval DAY s2 = getModelByInterval DAY st"
      using f1[of DAY] f2[of DAY] by simp
    then have "getModelByInterval DAY s3 =
                 getModelByInterval DAY
                   (snd (updateOrCreateCurrentRecord env a DAY ts v vu fd pr tvl tu st))"
      using updateOrCreateCurrentRecord_model[of DAY s2 st env a ts v vu fd pr tvl tu] 3
      by simp
    then show ?thesis using r DAY by simp
  qed
qed

lemma findCurrentRecord_model:
  "getModelByInterval I s' = getModelByInterval I s \<Longrightarrow>
     findCurrentRecord env a I ts s' = findCurrentRecord env a I ts s"
  by (simp add: findCurrentRecord_def)

lemma updateCurrentRecord_model:
  assumes g: "getOrCreateToken env cfg a st = (Some t0, s1)"
      and r: "refreshTokenMetadata env cfg a t0 s1 = (tok, s2)"
      and f: "findNativePerToken cfg tok (wrappedNativeAddress cfg) (stablecoinAddresses cfg)
                ZERO_BI s2 = (price, s3)"
  shows "\<exists>s4. getModelByInterval I s4 = getModelByInterval I st
            \<and> getModelByInterval I (snd (updateCurrentRecord env cfg sw a b st)) =
                getModelByInterval I
                  (snd (updateOrCreateCurrentRecord env a I (se_blockTimestamp sw)
                          \<bar>if b then amount0 sw else amount1 sw\<bar> amountUSD_const
                          (swap_feesUSD sw) price 0 (Zero False) s4))"
proof -
  define v where "v = \<bar>if b then amount0 sw else amount1 sw\<bar>"
  define s4 where "s4 = updateTokenTotals a tok v amountUSD_const (swap_feesUSD sw) price s3"
  have av: "abs_bigint (if b then amount0 sw else amount1 sw) = v"
    by (simp add: abs_bigint_def v_def)
  have m: "getModelByInterval I s4 = getModelByInterval I st"
    using getOrCreateToken_frame[OF g] refreshTokenMetadata_frame[OF r]
      findNativePerToken_frame[OF f] by (simp add: s4_def)
  have "updateCurrentRecord env cfg sw a b st =
          updateCandles env a (se_blockTimestamp sw) v amountUSD_const
            (swap_feesUSD sw) price 0 (Zero False) s4"
    using g r f by (simp add: updateCurrentRecord_def Let_def av s4_def)
  then have e: "getModelByInterval I (snd (updateCurrentRecord env cfg sw a b st)) =
               getModelByInterval I
                 (snd (updateOrCreateCurrentRecord env a I (se_blockTimestamp sw) v
                         amountUSD_const (swap_feesUSD sw) price 0 (Zero False) s4))"
    by (simp only: updateCandles_model)
  show ?thesis
    using m e unfolding v_def by (intro exI[of _ s4] conjI)
qed

text \<open>
  C4 (amended). \<^verbatim>\<open>updateCurrentRecord\<close> folds one token of a swap into the candle of its
  bucket, for each interval \<open>I\<close>. The price is the one \<^verbatim>\<open>findNativePerToken\<close> returns for the
  token, the volume is the absolute value of the token's amount. When the collection has no
  row for \<open>(tokenAddress, bucket)\<close> in any status, a current row is appended with the four
  prices equal to the price (to six decimals), that volume and a count of 1. When a current
  row exists it is replaced by a row with the volume increased by that volume, the fees
  increased by the fee share, the count increased by 1, high the maximum and close the price;
  low is the minimum when the stored low is positive and the price when the stored low is
  the string \<^verbatim>\<open>0\<close>; open is written back from its stored value when that is not zero. No
  other row changes. When the row of the bucket is finalized, the collection stays as it is.
  The fee share is the amount in USD, which is the constant 0, times the fee divided by
  \<open>10000\<close>: for a fee of 24 bits that is the same number as with the divisor \<open>1000000\<close>, zero.
\<close>

theorem C4_candle_fold:
  assumes "getOrCreateToken env cfg a st = (Some t0, s1)"
      and "refreshTokenMetadata env cfg a t0 s1 = (tok, s2)"
      and "findNativePerToken cfg tok (wrappedNativeAddress cfg) (stablecoinAddresses cfg)
             ZERO_BI s2 = (price, s3)"
      and "amount = (if b then amount0 sw else amount1 sw)"
      and "bucket = roundTimestamp env (se_blockTimestamp sw) I"
      and "m = getModelByInterval I st"
      and "m' = getModelByInterval I (snd (updateCurrentRecord env cfg sw a b st))"
  shows "((\<forall>c \<in> set m. candle_key c \<noteq> (candleAddress env I a, bucket)) \<longrightarrow>
            (\<exists>r. m' = m @ [r]
               \<and> candle_key r = (candleAddress env I a, bucket) \<and> status r = CURRENT
               \<and> c_open r = toFixed 6 price \<and> c_high r = toFixed 6 price
               \<and> c_low r = toFixed 6 price \<and> c_close r = toFixed 6 price
               \<and> c_volume r = \<bar>amount\<bar> \<and> c_feesUSD r = toFixed 6 (swap_feesUSD sw)
               \<and> c_txCount r = 1))
     \<and> (\<forall>i c. findCurrentRecord env a I (se_blockTimestamp sw) st = Some (i, c) \<longrightarrow>
            (\<exists>r'. m' = m[i := r']
               \<and> candle_key r' = (candleAddress env I a, bucket) \<and> status r' = CURRENT
               \<and> c_volume r' = c_volume c + \<bar>amount\<bar>
               \<and> c_feesUSD r' =
                   toFixed 6 (num_add (parseFloat (c_feesUSD c)) (swap_feesUSD sw))
               \<and> c_txCount r' = c_txCount c + 1
               \<and> c_high r' = toFixed 6 (Math_max (parseFloat (c_high c)) price)
               \<and> (num_gt (parseFloat (c_low c)) (Zero False) \<longrightarrow>
                    c_low r' = toFixed 6 (Math_min (parseFloat (c_low c)) price))
               \<and> (c_low c = ''0'' \<longrightarrow> c_low r' = toFixed 6 price)
               \<and> c_close r' = toFixed 6 price
               \<and> (truthy (parseFloat (c_open c)) \<longrightarrow>
                    c_open r' = toFixed 6 (parseFloat (c_open c)))))
     \<and> (late env I a (se_blockTimestamp sw) st \<longrightarrow>
            m' = m \<and> fst (updateCurrentRecord env cfg sw a b st) = Some DuplicateKey)
     \<and> (0 \<le> se_fee sw \<and> se_fee sw < 2 ^ 24 \<longrightarrow>
            swap_feesUSD sw =
              num_mul amountUSD_const (num_div (number_of_int (se_fee sw)) (Fin 1000000))
          \<and> swap_feesUSD sw = Zero False)"
proof -
  let ?ts = "se_blockTimestamp sw"
  obtain s4 where m4: "getModelByInterval I s4 = m"
    and u: "m' = getModelByInterval I
                  (snd (updateOrCreateCurrentRecord env a I ?ts \<bar>amount\<bar> amountUSD_const
                          (swap_feesUSD sw) price 0 (Zero False) s4))"
    using updateCurrentRecord_model[OF assms(1,2,3), of I sw b] assms(4,6,7) by auto
  have A: "(\<forall>c \<in> set m. candle_key c \<noteq> (candleAddress env I a, bucket)) \<longrightarrow>
            (\<exists>r. m' = m @ [r]
               \<and> candle_key r = (candleAddress env I a, bucket) \<and> status r = CURRENT
               \<and> c_open r = toFixed 6 price \<and> c_high r = toFixed 6 price
               \<and> c_low r = toFixed 6 price \<and> c_close r = toFixed 6 price
               \<and> c_volume r = \<bar>amount\<bar> \<and> c_feesUSD r = toFixed 6 (swap_feesUSD sw)
               \<and> c_txCount r = 1)"
  proof
    assume n: "\<forall>c \<in> set m. candle_key c \<noteq> (candleAddress env I a, bucket)"
    then have "\<forall>c \<in> set (getModelByInterval I s4).
                 candle_key c \<noteq> (candleAddress env I a, roundTimestamp env ?ts I)"
      using m4 assms(5) by simp
    from updateOrCreateCurrentRecord_absent[OF this]
    have "m' = m @ [newCandle (candleAddress env I a) bucket \<bar>amount\<bar> amountUSD_const
                      (swap_feesUSD sw) price 0 (Zero False)]"
      unfolding u using m4 assms(5) by simp
    then show "\<exists>r. m' = m @ [r]
               \<and> candle_key r = (candleAddress env I a, bucket) \<and> status r = CURRENT
               \<and> c_open r = toFixed 6 price \<and> c_high r = toFixed 6 price
               \<and> c_low r = toFixed 6 price \<and> c_close r = toFixed 6 price
               \<and> c_volume r = \<bar>amount\<bar> \<and> c_feesUSD r = toFixed 6 (swap_feesUSD sw)
               \<and> c_txCount r = 1"
      by (intro exI[of _ "newCandle (candleAddress env I a) bucket \<bar>amount\<bar> amountUSD_const
                      (swap_feesUSD sw) price 0 (Zero False)"])
         (simp add: newCandle_def candle_key_def)
  qed
  have B: "\<forall>i c. findCurrentRecord env a I ?ts st = Some (i, c) \<longrightarrow>
            (\<exists>r'. m' = m[i := r']
               \<and> candle_key r' = (candleAddress env I a, bucket) \<and> status r' = CURRENT
               \<and> c_volume r' = c_volume c + \<bar>amount\<bar>
               \<and> c_feesUSD r' =
                   toFixed 6 (num_add (parseFloat (c_feesUSD c)) (swap_feesUSD sw))
               \<and> c_txCount r' = c_txCount c + 1
               \<and> c_high r' = toFixed 6 (Math_max (parseFloat (c_high c)) price)
               \<and> (num_gt (parseFloat (c_low c)) (Zero False) \<longrightarrow>
                    c_low r' = toFixed 6 (Math_min (parseFloat (c_low c)) price))
               \<and> (c_low c = ''0'' \<longrightarrow> c_low r' = toFixed 6 price)
               \<and> c_close r' = toFixed 6 price
               \<and> (truthy (parseFloat (c_open c)) \<longrightarrow>
                    c_open r' = toFixed 6 (parseFloat (c_open c))))"
  proof (intro allI impI)
    fix i c
    assume f: "findCurrentRecord env a I ?ts st = Some (i, c)"
    then have f4: "findCurrentRecord env a I ?ts s4 = Some (i, c)"
      using findCurrentRecord_model[of I s4 st env a ?ts] m4 assms(6) by simp
    note F = findCurrentRecord_Some[OF f]
    have k: "tokenAddress c = candleAddress env I a" "c_date c = bucket" "status c = CURRENT"
      using F assms(5) by simp_all
    let ?r = "foldCandle c \<bar>amount\<bar> amountUSD_const (swap_feesUSD sw) price 0 (Zero False)"
    have "m' = m[i := ?r]"
      unfolding u using updateOrCreateCurrentRecord_present[OF f4] m4 by simp
    then show "\<exists>r'. m' = m[i := r']
               \<and> candle_key r' = (candleAddress env I a, bucket) \<and> status r' = CURRENT
               \<and> c_volume r' = c_volume c + \<bar>amount\<bar>
               \<and> c_feesUSD r' =
                   toFixed 6 (num_add (parseFloat (c_feesUSD c)) (swap_feesUSD sw))
               \<and> c_txCount r' = c_txCount c + 1
               \<and> c_high r' = toFixed 6 (Math_max (parseFloat (c_high c)) price)
               \<and> (num_gt (parseFloat (c_low c)) (Zero False) \<longrightarrow>
                    c_low r' = toFixed 6 (Math_min (parseFloat (c_low c)) price))
               \<and> (c_low c = ''0'' \<longrightarrow> c_low r' = toFixed 6 price)
               \<and> c_close r' = toFixed 6 price
               \<and> (truthy (parseFloat (c_open c)) \<longrightarrow>
                    c_open r' = toFixed 6 (parseFloat (c_open c)))"
      using k low_positive_not_0[of "c_low c"] truthy_not_0[of "c_open c"]
      by (intro exI[of _ ?r]) (auto simp: foldCandle_def Let_def candle_key_def)
  qed
  have C: "late env I a ?ts st \<longrightarrow>
            m' = m \<and> fst (updateCurrentRecord env cfg sw a b st) = Some DuplicateKey"
    using updateCurrentRecord_late[of env I a sw st cfg b] assms(6,7) by simp
  have D: "0 \<le> se_fee sw \<and> se_fee sw < 2 ^ 24 \<longrightarrow>
            swap_feesUSD sw =
              num_mul amountUSD_const (num_div (number_of_int (se_fee sw)) (Fin 1000000))
          \<and> swap_feesUSD sw = Zero False"
    using fee_share_zero[of "se_fee sw" 10000] fee_share_zero[of "se_fee sw" 1000000]
    by (simp add: swap_feesUSD_def amountUSD_const_def Let_def)
  show ?thesis using A B C D by blast
qed

lemma ex_weth_steps:
  "getOrCreateToken ex_env ex_cfg ''0xweth'' ex_state =
     (Some ((ex_token ''0xweth'')\<lparr>symbol := ''ETH'', name := ''Ethereum''\<rparr>),
      ex_state\<lparr>tokens := [(ex_token ''0xweth'')\<lparr>symbol := ''ETH'', name := ''Ethereum''\<rparr>]\<rparr>)"
  "refreshTokenMetadata ex_env ex_cfg ''0xweth''
     ((ex_token ''0xweth'')\<lparr>symbol := ''ETH'', name := ''Ethereum''\<rparr>)
     (ex_state\<lparr>tokens := [(ex_token ''0xweth'')\<lparr>symbol := ''ETH'', name := ''Ethereum''\<rparr>]\<rparr>) =
     ((ex_token ''0xweth'')\<lparr>symbol := ''ETH'', name := ''Ethereum''\<rparr>,
      ex_state\<lparr>tokens := [(ex_token ''0xweth'')\<lparr>symbol := ''ETH'', name := ''Ethereum''\<rparr>]\<rparr>)"
  "findNativePerToken ex_cfg ((ex_token ''0xweth'')\<lparr>symbol := ''ETH'', name := ''Ethereum''\<rparr>)
     (wrappedNativeAddress ex_cfg) (stablecoinAddresses ex_cfg) ZERO_BI
     (ex_state\<lparr>tokens := [(ex_token ''0xweth'')\<lparr>symbol := ''ETH'', name := ''Ethereum''\<rparr>]\<rparr>) =
     (Fin 1,
      ex_state\<lparr>tokens := [(ex_token ''0xweth'')\<lparr>symbol := ''ETH'', name := ''Ethereum''\<rparr>]\<rparr>)"
  by code_simp+

lemma ex_tokena_steps:
  "getOrCreateToken ex_env ex_cfg ''0xtokena'' ex_current_state =
     (Some (ex_token ''0xtokena''),
      (logger LOG ''Fetched metadata'' ex_current_state)\<lparr>tokens := [ex_token ''0xtokena'']\<rparr>)"
  "refreshTokenMetadata ex_env ex_cfg ''0xtokena'' (ex_token ''0xtokena'')
     ((logger LOG ''Fetched metadata'' ex_current_state)\<lparr>tokens := [ex_token ''0xtokena'']\<rparr>) =
     (ex_token ''0xtokena'',
      (logger LOG ''Fetched metadata'' ex_current_state)\<lparr>tokens := [ex_token ''0xtokena'']\<rparr>)"
  "findNativePerToken ex_cfg (ex_token ''0xtokena'')
     (wrappedNativeAddress ex_cfg) (stablecoinAddresses ex_cfg) ZERO_BI
     ((logger LOG ''Fetched metadata'' ex_current_state)\<lparr>tokens := [ex_token ''0xtokena'']\<rparr>) =
     (Zero False,
      (logger LOG ''Fetched metadata'' ex_current_state)\<lparr>tokens := [ex_token ''0xtokena'']\<rparr>)"
  by code_simp+

lemma ex_fold_values:
  "toFixed 6 (Fin 1) = ''1.000000''"
  "toFixed 6 (Zero False) = ''0.000000''"
  "toFixed 6 (Math_max (parseFloat ''0.500000'') (Zero False)) = ''0.500000''"
  "toFixed 6 (Math_min (parseFloat ''0.500000'') (Zero False)) = ''0.000000''"
  "toFixed 6 (parseFloat ''0.500000'') = ''0.500000''"
  "num_gt (parseFloat ''0.500000'') (Zero False)"
  "truthy (parseFloat ''0.500000'')"
  by code_simp+

lemma ex_current_found:
  "findCurrentRecord ex_env ''0xtokena'' MINUTE (se_blockTimestamp ex_swap) ex_current_state =
     Some (0, ex_current_candle)"
  by code_simp

theorem C4_candle_fold_witness:
  "(\<exists>r. tokenMinutes (snd (updateCurrentRecord ex_env ex_cfg ex_swap_weth ''0xweth'' True
                             ex_state)) = [r]
         \<and> status r = CURRENT \<and> c_open r = ''1.000000'' \<and> c_high r = ''1.000000''
         \<and> c_low r = ''1.000000'' \<and> c_close r = ''1.000000''
         \<and> c_volume r = 1000000000000000000 \<and> c_txCount r = 1)
   \<and> (\<exists>r'. tokenMinutes (snd (updateCurrentRecord ex_env ex_cfg ex_swap ''0xtokena'' True
                              ex_current_state)) = [r']
         \<and> c_volume r' = 1000000000000000005 \<and> c_txCount r' = 2
         \<and> c_high r' = ''0.500000'' \<and> c_low r' = ''0.000000''
         \<and> c_close r' = ''0.000000'' \<and> c_open r' = ''0.500000'')
   \<and> swap_feesUSD ex_swap = Zero False"
proof -
  note A = C4_candle_fold[where b = True and sw = ex_swap_weth and I = MINUTE,
             OF ex_weth_steps refl refl refl refl, THEN conjunct1]
  note B = C4_candle_fold[where b = True and sw = ex_swap and I = MINUTE,
             OF ex_tokena_steps refl refl refl refl, THEN conjunct2, THEN conjunct1,
             rule_format, OF ex_current_found]
  note D = C4_candle_fold[where b = True and sw = ex_swap and I = MINUTE,
             OF ex_tokena_steps refl refl refl refl, THEN conjunct2, THEN conjunct2,
             THEN conjunct2]
  have g: "getModelByInterval MINUTE ex_state = []" by (simp add: ex_state_def)
  have m: "getModelByInterval MINUTE ex_current_state = [ex_current_candle]"
    by (simp add: ex_current_state_def)
  have v: "c_volume ex_current_candle = 5" "c_txCount ex_current_candle = 1"
      "c_high ex_current_candle = ''0.500000''" "c_low ex_current_candle = ''0.500000''"
      "c_open ex_current_candle = ''0.500000''" "c_feesUSD ex_current_candle = ''0.000000''"
    by (simp_all add: ex_current_candle_def)
  have a: "amount0 ex_swap_weth = 1000000000000000000" "amount0 ex_swap = 1000000000000000000"
      "se_fee ex_swap = 3000"
    by (simp_all add: ex_swap_weth_def ex_swap_def)
  from A have 1: "\<exists>r. tokenMinutes (snd (updateCurrentRecord ex_env ex_cfg ex_swap_weth ''0xweth'' True
                             ex_state)) = [r]
         \<and> status r = CURRENT \<and> c_open r = ''1.000000'' \<and> c_high r = ''1.000000''
         \<and> c_low r = ''1.000000'' \<and> c_close r = ''1.000000''
         \<and> c_volume r = 1000000000000000000 \<and> c_txCount r = 1"
    unfolding g ex_fold_values by (auto simp: a)
  from B have 2: "\<exists>r'. tokenMinutes (snd (updateCurrentRecord ex_env ex_cfg ex_swap ''0xtokena'' True
                              ex_current_state)) = [r']
         \<and> c_volume r' = 1000000000000000005 \<and> c_txCount r' = 2
         \<and> c_high r' = ''0.500000'' \<and> c_low r' = ''0.000000''
         \<and> c_close r' = ''0.000000'' \<and> c_open r' = ''0.500000''"
    unfolding m using ex_fold_values v by (auto simp: a)
  have "0 \<le> se_fee ex_swap \<and> se_fee ex_swap < 2 ^ 24" by (simp add: a)
  from D[THEN mp, OF this] have 3: "swap_feesUSD ex_swap = Zero False" by (rule conjunct2)
  show ?thesis using 1 2 3 by simp
qed

text \<open>
  Two inputs on which the claim fails. With a finalized row for the bucket there is no current
  row, and no row is created: the insert is refused. And a current row whose low is zero,
  as the fold creates it at price 0, keeps the low 0 at the next swap, at price 0.5: the
  stored low is \<^verbatim>\<open>0.000000\<close>, which is not the string \<^verbatim>\<open>0\<close> the fold compares with.
\<close>

theorem C4_candle_fold_counterexample:
  "findCurrentRecord ex_env ''0xtokena'' MINUTE (se_blockTimestamp ex_swap) ex_late_state = None
   \<and> fst (updateCurrentRecord ex_env ex_cfg ex_swap ''0xtokena'' True ex_late_state) =
       Some DuplicateKey
   \<and> tokenMinutes (snd (updateCurrentRecord ex_env ex_cfg ex_swap ''0xtokena'' True
                          ex_late_state)) = [ex_late_candle]
   \<and> updateOrCreateCurrentRecord ex_env ''0xtokena'' MINUTE 1700000000000 5 (Zero False)
       (Zero False) (Zero False) 0 (Zero False) ex_state = (None, ex_zero_state)
   \<and> \<not> num_gt (parseFloat (c_low ex_zero_candle)) (Zero False)
   \<and> map c_low (tokenMinutes (snd (updateOrCreateCurrentRecord ex_env ''0xtokena'' MINUTE
         1700000000000 7 (Zero False) (Zero False) (Fin (1 / 2)) 0 (Zero False) ex_zero_state))) =
       [''0.000000'']
   \<and> toFixed 6 (Fin (1 / 2)) = ''0.500000''"
  by code_simp

lemma syncRow_upd [simp]:
  "syncRow cfg (st\<lparr>pools := ps\<rparr>) = syncRow cfg st"
  "syncRow cfg (st\<lparr>swapEvents := es\<rparr>) = syncRow cfg st"
  "syncRow cfg (st\<lparr>tokens := ts\<rparr>) = syncRow cfg st"
  "syncRow cfg (st\<lparr>isSyncing := b\<rparr>) = syncRow cfg st"
  "syncRow cfg (emit ev st) = syncRow cfg st"
  by (simp_all add: syncRow_def)

lemma syncRow_cong: "syncStates st' = syncStates st \<Longrightarrow> syncRow cfg st' = syncRow cfg st"
  by (simp add: syncRow_def)

lemma recordSwapEvent_row:
  "syncRow cfg st \<noteq> None \<Longrightarrow> syncRow cfg (snd (recordSwapEvent env cfg d sw st)) \<noteq> None"
proof (cases "case d_fee d of BigIntFee f \<Rightarrow> Inl ValidationError
              | NumberFee f \<Rightarrow> create swap_key sw (swapEvents st)")
  case (Inl e)
  then show "syncRow cfg st \<noteq> None \<Longrightarrow> ?thesis" by (simp add: recordSwapEvent_def)
next
  case (Inr evs)
  let ?s5 = "emit (SwapCreated sw) (logger LOG ''New swap event'' (st\<lparr>swapEvents := evs\<rparr>))"
  let ?s6 = "processSwapEvent env cfg sw ?s5"
  assume r: "syncRow cfg st \<noteq> None"
  have "syncStates ?s6 = syncStates st" by (simp add: processSwapEvent_frame)
  then have "syncRow cfg ?s6 \<noteq> None" using r by (simp add: syncRow_def)
  then show ?thesis using Inr
    by (auto simp: recordSwapEvent_def Let_def syncRow_def findOne_def find_updateOne_keep)
qed

lemma handleSwapEvent_row:
  "syncRow cfg st \<noteq> None \<Longrightarrow> syncRow cfg (snd (handleSwapEvent env cfg d st)) \<noteq> None"
proof -
  assume r: "syncRow cfg st \<noteq> None"
  have a: "\<And>p. syncRow cfg (applySwapToPool env d p st) \<noteq> None"
    using r applySwapToPool_frame[of env d _ st] by (simp add: syncRow_def)
  show ?thesis using r a recordSwapEvent_row
    by (auto simp: handleSwapEvent_def Let_def split: sum.splits option.splits)
qed

lemma handleModifyLiquidityEvent_row:
  "syncStates (snd (handleModifyLiquidityEvent env cfg d st)) = syncStates st"
  by (auto simp: handleModifyLiquidityEvent_def Let_def split: sum.splits option.splits)

lemma handleInitializeEvent_row:
  "syncStates (snd (handleInitializeEvent env cfg lg pid c0 c1 f ts hk sp tk st)) = syncStates st"
proof -
  obtain d0 s1 where a: "fetchTokenDecimals env c0 st = (d0, s1)" by force
  obtain d1 s2 where b: "fetchTokenDecimals env c1 s1 = (d1, s2)" by force
  have "syncStates s2 = syncStates st"
    using fetchTokenDecimals_frame[OF a] fetchTokenDecimals_frame[OF b] by simp
  then show ?thesis using a b
    by (auto simp: handleInitializeEvent_def Let_def split_def updateTokenWhitelists_frame
          split: sum.splits option.splits)
qed

lemma dispatch_row:
  "syncRow cfg st \<noteq> None \<Longrightarrow> syncRow cfg (snd (dispatch env cfg lg args st)) \<noteq> None"
  by (cases args)
     (simp_all add: handleSwapEvent_row syncRow_cong[OF handleModifyLiquidityEvent_row]
        syncRow_cong[OF handleInitializeEvent_row])

lemma syncBatch_logs_row:
  "syncRow cfg st \<noteq> None \<Longrightarrow> syncRow cfg (snd (syncBatch_logs env cfg lgs st)) \<noteq> None"
proof (induction lgs arbitrary: st)
  case Nil
  then show ?case by simp
next
  case (Cons lg rest)
  show ?case
  proof (cases "parsed lg")
    case ParseThrows
    then show ?thesis using Cons.prems by simp
  next
    case ParseNull
    then show ?thesis
      using Cons.IH[of "logger WARN ''Failed to parse log in batch sync'' st"] Cons.prems
      by simp
  next
    case (Parsed args)
    obtain e s1 where d: "dispatch env cfg lg args st = (e, s1)" by force
    have k: "syncRow cfg s1 \<noteq> None" using dispatch_row[OF Cons.prems, of env lg args] d by simp
    show ?thesis using Parsed d k Cons.IH[OF k]
      by (cases e) simp_all
  qed
qed

lemma syncBatch_row:
  "syncRow cfg st \<noteq> None \<Longrightarrow> syncRow cfg (snd (syncBatch env cfg f t st)) \<noteq> None"
proof (cases "getLogs env f t")
  case (Inl e)
  then show "syncRow cfg st \<noteq> None \<Longrightarrow> ?thesis" by (simp add: syncBatch_def)
next
  case (Inr lgs)
  assume r: "syncRow cfg st \<noteq> None"
  let ?s0 = "logger LOG ''Found events in blocks'' st"
  obtain e s1 where b: "syncBatch_logs env cfg lgs ?s0 = (e, s1)" by force
  have "syncRow cfg s1 \<noteq> None" using syncBatch_logs_row[of cfg ?s0 env lgs] r b by simp
  then show ?thesis using Inr b by (cases e) (simp_all add: syncBatch_def)
qed

lemma committed_commitBatch:
  assumes "syncRow cfg st \<noteq> None" and "t \<le> cur"
  shows "committed cfg cur (f, t, syncStates (commitBatch env cfg cur t st))"
proof -
  obtain s where s: "syncRow cfg st = Some s" using assms(1) by auto
  have "syncRow cfg (commitBatch env cfg cur t st) =
          Some (s\<lparr>lastSyncedBlock := t, currentBlock := cur, lastSyncedAt := Some (now env),
                   isInitialSyncComplete := (cur \<le> t)\<rparr>)"
    using s by (simp add: syncRow_commitBatch)
  then show ?thesis using assms(2)
    by (auto simp: committed_def syncRow_def)
qed


lemma find_snoc:
  "find P (xs @ ys) = (case find P xs of None \<Rightarrow> find P ys | Some x \<Rightarrow> Some x)"
  by (induction xs) auto

lemma windows_Cons:
  "f \<le> cur \<Longrightarrow> 1 \<le> bs \<Longrightarrow>
     windows bs cur f = (f, min (f + bs - 1) cur) # windows bs cur (min (f + bs - 1) cur + 1)"
  by (subst windows.simps) simp

lemma windows_Nil: "windows bs cur f = [] \<longleftrightarrow> \<not> (f \<le> cur \<and> 1 \<le> bs)"
  by (subst windows.simps) simp

lemma windows_bounds:
  "\<forall>(a, b) \<in> set (windows bs cur f).
     f \<le> a \<and> a \<le> b \<and> b - a + 1 \<le> bs \<and> b \<le> cur \<and> (b < cur \<longrightarrow> b - a + 1 = bs)"
proof (induction bs cur f rule: windows.induct)
  case (1 bs cur f)
  show ?case
  proof (cases "f \<le> cur \<and> 1 \<le> bs")
    case False
    then have "windows bs cur f = []" by (simp add: windows_Nil)
    then show ?thesis by simp
  next
    case True
    let ?t = "min (f + bs - 1) cur"
    have w: "windows bs cur f = (f, ?t) # windows bs cur (?t + 1)"
      using True by (simp add: windows_Cons)
    have h: "f \<le> ?t \<and> ?t - f + 1 \<le> bs \<and> ?t \<le> cur \<and> (?t < cur \<longrightarrow> ?t - f + 1 = bs)"
      using True by auto
    have "\<forall>(a, b) \<in> set (windows bs cur (?t + 1)).
            f \<le> a \<and> a \<le> b \<and> b - a + 1 \<le> bs \<and> b \<le> cur \<and> (b < cur \<longrightarrow> b - a + 1 = bs)"
      using 1[OF True] h by fastforce
    then show ?thesis unfolding w using h by simp
  qed
qed

lemma windows_consecutive:
  "Suc i < length (windows bs cur f) \<Longrightarrow>
     fst (windows bs cur f ! Suc i) = snd (windows bs cur f ! i) + 1"
proof (induction bs cur f arbitrary: i rule: windows.induct)
  case (1 bs cur f)
  let ?t = "min (f + bs - 1) cur"
  have T: "f \<le> cur \<and> 1 \<le> bs"
    using 1(2) windows_Nil[of bs cur f] by auto
  have w: "windows bs cur f = (f, ?t) # windows bs cur (?t + 1)"
    using T by (simp add: windows_Cons)
  show ?case
  proof (cases i)
    case 0
    then have n: "windows bs cur (?t + 1) \<noteq> []" using 1(2) w by auto
    then have "?t + 1 \<le> cur \<and> 1 \<le> bs" using windows_Nil[of bs cur "?t + 1"] by blast
    then have "windows bs cur (?t + 1) =
                 (?t + 1, min (?t + 1 + bs - 1) cur)
                 # windows bs cur (min (?t + 1 + bs - 1) cur + 1)"
      by (simp add: windows_Cons)
    then have "fst (windows bs cur (?t + 1) ! 0) = ?t + 1" by simp
    then show ?thesis using 0 w by simp
  next
    case (Suc j)
    then have "Suc j < length (windows bs cur (?t + 1))" using 1(2) w by simp
    from 1(1)[OF T this] show ?thesis using Suc w by simp
  qed
qed

lemma windows_hd_last:
  "f \<le> cur \<Longrightarrow> 1 \<le> bs \<Longrightarrow>
     fst (hd (windows bs cur f)) = f \<and> snd (last (windows bs cur f)) = cur"
proof (induction bs cur f rule: windows.induct)
  case (1 bs cur f)
  let ?t = "min (f + bs - 1) cur"
  have T: "f \<le> cur \<and> 1 \<le> bs" using 1(2,3) by simp
  have w: "windows bs cur f = (f, ?t) # windows bs cur (?t + 1)"
    using T by (simp add: windows_Cons)
  show ?case
  proof (cases "?t + 1 \<le> cur")
    case True
    then have n: "windows bs cur (?t + 1) \<noteq> []" using T by (simp add: windows_Nil)
    have "snd (last (windows bs cur (?t + 1))) = cur"
      using 1(1)[OF T True] T by simp
    then show ?thesis unfolding w using n by simp
  next
    case False
    then have "windows bs cur (?t + 1) = []" by (simp add: windows_Nil)
    moreover have "?t = cur" using False T by auto
    ultimately show ?thesis unfolding w by simp
  qed
qed

lemma syncLoop_runBatches:
  assumes "1 \<le> syncBatchSize cfg"
  shows "syncLoop env cfg cur f st tr =
           Some (runBatches env cfg cur (windows (syncBatchSize cfg) cur f) st tr)"
proof (induction "nat (cur + 1 - f)" arbitrary: f st tr rule: less_induct)
  case less
  show ?case
  proof (cases "f \<le> cur")
    case False
    then have "windows (syncBatchSize cfg) cur f = []" by (simp add: windows_Nil)
    moreover have "syncLoop env cfg cur f st tr = Some (None, st, tr)"
      using False by (subst syncLoop.simps) simp
    ultimately show ?thesis by simp
  next
    case True
    let ?t = "min (f + syncBatchSize cfg - 1) cur"
    let ?s0 = "logger LOG ''Syncing blocks'' st"
    obtain e s1 where b: "syncBatch env cfg f ?t ?s0 = (e, s1)" by force
    have w: "windows (syncBatchSize cfg) cur f =
               (f, ?t) # windows (syncBatchSize cfg) cur (?t + 1)"
      using True assms by (simp add: windows_Cons)
    show ?thesis
    proof (cases e)
      case (Some x)
      then have "syncLoop env cfg cur f st tr = Some (Some x, s1, tr)"
        using True b by (subst syncLoop.simps) (simp add: Let_def)
      then show ?thesis unfolding w using b Some by simp
    next
      case None
      let ?s2 = "commitBatch env cfg cur ?t s1"
      let ?w = "(f, ?t, syncStates ?s2)"
      have m: "nat (cur + 1 - (?t + 1)) < nat (cur + 1 - f)" using True assms by auto
      have "syncLoop env cfg cur f st tr = syncLoop env cfg cur (?t + 1) ?s2 (tr @ [?w])"
        using True b None by (subst syncLoop.simps) (simp add: Let_def)
      also have "\<dots> = Some (runBatches env cfg cur
                            (windows (syncBatchSize cfg) cur (?t + 1)) ?s2 (tr @ [?w]))"
        using less.hyps[OF m] .
      finally show ?thesis unfolding w using b None by simp
    qed
  qed
qed

lemma runBatches_trace:
  assumes "syncRow cfg st \<noteq> None" and "\<forall>(a, b) \<in> set ws. b \<le> cur"
  shows "\<exists>tr'. snd (snd (runBatches env cfg cur ws st tr)) = tr @ tr'
           \<and> map window_of tr' = take (length tr') ws
           \<and> length tr' \<le> length ws
           \<and> (fst (runBatches env cfg cur ws st tr) = None \<longleftrightarrow> length tr' = length ws)
           \<and> (\<forall>w \<in> set tr'. committed cfg cur w)
           \<and> (fst (runBatches env cfg cur ws st tr) = None \<and> ws \<noteq> [] \<longrightarrow>
                syncStates (fst (snd (runBatches env cfg cur ws st tr))) =
                  snd (snd (last tr')))
           \<and> (\<forall>e. fst (runBatches env cfg cur ws st tr) = Some e \<longrightarrow>
                (\<exists>s. fst (syncBatch env cfg (fst (ws ! length tr')) (snd (ws ! length tr')) s) =
                        Some e))
           \<and> ((\<forall>a b s. fst (syncBatch env cfg a b s) = None) \<longrightarrow>
                fst (runBatches env cfg cur ws st tr) = None)"
  using assms
proof (induction ws arbitrary: st tr)
  case Nil
  show ?case by (intro exI[of _ "[]"]) simp
next
  case (Cons ab ws)
  obtain a b where ab: "ab = (a, b)" by (cases ab) auto
  let ?s0 = "logger LOG ''Syncing blocks'' st"
  obtain e s1 where sb: "syncBatch env cfg a b ?s0 = (e, s1)" by force
  show ?case
  proof (cases e)
    case (Some x)
    have r: "runBatches env cfg cur (ab # ws) st tr = (Some x, s1, tr)"
      using ab sb Some by simp
    have f: "fst (syncBatch env cfg a b ?s0) = Some x" using sb Some by simp
    show ?thesis
      unfolding r using f ab by (intro exI[of _ "[]"]) auto
  next
    case None
    let ?s2 = "commitBatch env cfg cur b s1"
    let ?w = "(a, b, syncStates ?s2)"
    have r: "runBatches env cfg cur (ab # ws) st tr = runBatches env cfg cur ws ?s2 (tr @ [?w])"
      using ab sb None by simp
    have bc: "b \<le> cur" using Cons.prems(2) ab by simp
    have r1: "syncRow cfg s1 \<noteq> None"
      using syncBatch_row[of cfg ?s0 env a b] Cons.prems(1) sb by simp
    have r2: "syncRow cfg ?s2 \<noteq> None"
      using r1 by (simp add: syncRow_commitBatch)
    have cw: "committed cfg cur ?w"
      using committed_commitBatch[OF r1 bc] .
    have rest: "\<forall>(a, b) \<in> set ws. b \<le> cur" using Cons.prems(2) by simp
    let ?R = "runBatches env cfg cur ws ?s2 (tr @ [?w])"
    obtain tr' where ih:
        "snd (snd ?R) = (tr @ [?w]) @ tr'"
        "map window_of tr' = take (length tr') ws"
        "length tr' \<le> length ws"
        "fst ?R = None \<longleftrightarrow> length tr' = length ws"
        "\<forall>w \<in> set tr'. committed cfg cur w"
        "fst ?R = None \<and> ws \<noteq> [] \<longrightarrow> syncStates (fst (snd ?R)) = snd (snd (last tr'))"
        "\<forall>e. fst ?R = Some e \<longrightarrow>
           (\<exists>s. fst (syncBatch env cfg (fst (ws ! length tr')) (snd (ws ! length tr')) s) =
                  Some e)"
        "(\<forall>a b s. fst (syncBatch env cfg a b s) = None) \<longrightarrow> fst ?R = None"
      using Cons.IH[OF r2 rest, where tr = "tr @ [?w]"]
      by (elim exE conjE) (rule that; assumption)
    have 1: "snd (snd ?R) = tr @ (?w # tr')" using ih(1) by simp
    have 2: "map window_of (?w # tr') = take (length (?w # tr')) (ab # ws)"
      using ih(2) ab by (simp add: window_of_def)
    have 6: "fst ?R = None \<and> ab # ws \<noteq> [] \<longrightarrow>
               syncStates (fst (snd ?R)) = snd (snd (last (?w # tr')))"
    proof (cases ws)
      case Nil
      then show ?thesis using ih(3) by simp
    next
      case (Cons c cs)
      then have "fst ?R = None \<longrightarrow> tr' \<noteq> []" using ih(4) by auto
      then show ?thesis using ih(6) Cons by auto
    qed
    show ?thesis
      unfolding r using 1 2 ih(3,4,5,7,8) cw 6
      by (intro exI[of _ "?w # tr'"]) auto
  qed
qed

lemma startSync_row: "syncRow cfg (startSync cfg cur st) \<noteq> None"
  by (cases "syncRow cfg st")
     (auto simp: startSync_def Let_def syncRow_def findOne_def find_snoc)

lemma startSync_first:
  "syncHistoricalEvents env cfg st =
     (case getBlockNumber env of
        Inl e \<Rightarrow>
          Some (Some e,
                (logger ERROR ''Error during historical sync'' (st\<lparr>isSyncing := True\<rparr>))
                  \<lparr>isSyncing := False\<rparr>, [])
      | Inr cur \<Rightarrow>
          (case syncLoop env cfg cur (first_block cfg st) (startSync cfg cur st) [] of
             None \<Rightarrow> None
           | Some (Some e, st2, tr) \<Rightarrow>
               Some (Some e,
                     (logger ERROR ''Error during historical sync'' st2)\<lparr>isSyncing := False\<rparr>,
                     tr)
           | Some (None, st2, tr) \<Rightarrow>
               Some (None,
                     (logger LOG ''Historical sync complete'' st2)\<lparr>isSyncing := False\<rparr>, tr)))"
  by (cases "syncRow cfg st")
     (auto simp: syncHistoricalEvents_def Let_def startSync_def first_block_def syncRow_def
        split: sum.splits)

lemma syncHistoricalEvents_runBatches:
  assumes "1 \<le> syncBatchSize cfg" and "getBlockNumber env = Inr cur"
  shows "syncHistoricalEvents env cfg st =
     (case runBatches env cfg cur (windows (syncBatchSize cfg) cur (first_block cfg st))
             (startSync cfg cur st) [] of
        (Some e, st2, tr) \<Rightarrow>
          Some (Some e,
                (logger ERROR ''Error during historical sync'' st2)\<lparr>isSyncing := False\<rparr>, tr)
      | (None, st2, tr) \<Rightarrow>
          Some (None,
                (logger LOG ''Historical sync complete'' st2)\<lparr>isSyncing := False\<rparr>, tr))"
  unfolding startSync_first assms(2) syncLoop_runBatches[OF assms(1)]
  by (simp split: prod.splits option.splits)

text \<open>
  C6. With a batch size of at least 1 the backfill returns, and it is the run of the batches
  over the windows from \<open>lastSyncedBlock + 1\<close> (the starting block on a first sync) to the
  head. The windows are consecutive, each holds \<open>syncBatchSize\<close> blocks but the last, which
  ends at the head. The batches committed are the first windows, in order; all of them when
  the backfill ends without error, which it does when no batch sync throws; otherwise the
  error is the one the sync of the next window threw. Each commit leaves the batch's end
  block in \<open>lastSyncedBlock\<close> and sets \<open>isInitialSyncComplete\<close> exactly when that block is the
  head, and a backfill that ends without error leaves the head committed and the flag set.
  The batch size is 1000 when the environment sets none.
\<close>

theorem C6_backfill_batches:
  assumes "1 \<le> syncBatchSize cfg" and "getBlockNumber env = Inr cur"
      and "ws = windows (syncBatchSize cfg) cur (first_block cfg st)"
  shows "\<exists>err st' tr.
           syncHistoricalEvents env cfg st = Some (err, st', tr)
           \<and> err = fst (runBatches env cfg cur ws (startSync cfg cur st) [])
           \<and> tr = snd (snd (runBatches env cfg cur ws (startSync cfg cur st) []))
           \<and> map window_of tr = take (length tr) ws
           \<and> (err = None \<longleftrightarrow> length tr = length ws)
           \<and> (\<forall>e. err = Some e \<longrightarrow>
                (\<exists>s. fst (syncBatch env cfg (fst (ws ! length tr)) (snd (ws ! length tr)) s) =
                        Some e))
           \<and> ((\<forall>a b s. fst (syncBatch env cfg a b s) = None) \<longrightarrow> err = None)
           \<and> (\<forall>w \<in> set tr. committed cfg cur w)
           \<and> (err = None \<and> first_block cfg st \<le> cur \<longrightarrow>
                (\<exists>s. syncRow cfg st' = Some s \<and> lastSyncedBlock s = cur
                     \<and> isInitialSyncComplete s))
           \<and> (ws = [] \<longleftrightarrow> cur < first_block cfg st)
           \<and> (ws \<noteq> [] \<longrightarrow> fst (hd ws) = first_block cfg st \<and> snd (last ws) = cur)
           \<and> (\<forall>i. Suc i < length ws \<longrightarrow> fst (ws ! Suc i) = snd (ws ! i) + 1)
           \<and> (\<forall>(a, b) \<in> set ws.
                 a \<le> b \<and> b - a + 1 \<le> syncBatchSize cfg \<and> b \<le> cur
                 \<and> (b < cur \<longrightarrow> b - a + 1 = syncBatchSize cfg))
           \<and> (SYNC_BATCH_SIZE penv = None \<longrightarrow> syncBatchSize (configService penv) = 1000)"
proof -
  let ?bs = "syncBatchSize cfg"
  let ?f = "first_block cfg st"
  let ?R = "runBatches env cfg cur ws (startSync cfg cur st) []"
  obtain err st2 tr where R: "?R = (err, st2, tr)" by (cases ?R) auto
  define st' where "st' = (logger (if err = None then LOG else ERROR)
                             (if err = None then ''Historical sync complete''
                              else ''Error during historical sync'') st2)
                          \<lparr>isSyncing := False\<rparr>"
  have H: "syncHistoricalEvents env cfg st = Some (err, st', tr)"
    using syncHistoricalEvents_runBatches[OF assms(1,2), of st] R assms(3)
    by (cases err) (simp_all add: st'_def)
  have wb: "\<forall>(a, b) \<in> set ws.
              ?f \<le> a \<and> a \<le> b \<and> b - a + 1 \<le> ?bs \<and> b \<le> cur \<and> (b < cur \<longrightarrow> b - a + 1 = ?bs)"
    unfolding assms(3) by (rule windows_bounds)
  then have le: "\<forall>(a, b) \<in> set ws. b \<le> cur" by fastforce
  obtain tr' where T:
      "snd (snd ?R) = [] @ tr'"
      "map window_of tr' = take (length tr') ws"
      "length tr' \<le> length ws"
      "fst ?R = None \<longleftrightarrow> length tr' = length ws"
      "\<forall>w \<in> set tr'. committed cfg cur w"
      "fst ?R = None \<and> ws \<noteq> [] \<longrightarrow> syncStates (fst (snd ?R)) = snd (snd (last tr'))"
      "\<forall>e. fst ?R = Some e \<longrightarrow>
         (\<exists>s. fst (syncBatch env cfg (fst (ws ! length tr')) (snd (ws ! length tr')) s) = Some e)"
      "(\<forall>a b s. fst (syncBatch env cfg a b s) = None) \<longrightarrow> fst ?R = None"
    using runBatches_trace[OF startSync_row[of cfg cur st] le, where env = env and tr = "[]"]
    by (elim exE conjE) (rule that; assumption)
  have tr: "tr' = tr" using T(1) R by simp
  have e: "fst ?R = err" "fst (snd ?R) = st2" "snd (snd ?R) = tr" using R by simp_all
  have n: "ws = [] \<longleftrightarrow> cur < ?f"
    unfolding assms(3) using assms(1) by (auto simp: windows_Nil)
  have hl: "ws \<noteq> [] \<longrightarrow> fst (hd ws) = ?f \<and> snd (last ws) = cur"
    using n windows_hd_last[of ?f cur ?bs] assms(1,3) by auto
  have cs: "\<forall>i. Suc i < length ws \<longrightarrow> fst (ws ! Suc i) = snd (ws ! i) + 1"
    unfolding assms(3) using windows_consecutive by blast
  have fin: "err = None \<and> ?f \<le> cur \<longrightarrow>
               (\<exists>s. syncRow cfg st' = Some s \<and> lastSyncedBlock s = cur \<and> isInitialSyncComplete s)"
  proof
    assume a: "err = None \<and> ?f \<le> cur"
    then have ne: "ws \<noteq> []" using n by auto
    have len: "length tr = length ws" using T(4) a e(1) tr by simp
    then have tne: "tr \<noteq> []" using ne by auto
    have "map window_of tr = ws" using T(2) tr len by simp
    then have "window_of (last tr) = last ws" using tne by (metis last_map)
    then have "snd (window_of (last tr)) = cur" using hl ne by simp
    then have b: "fst (snd (last tr)) = cur"
      by (cases "last tr") (simp add: window_of_def)
    have ss: "syncStates st' = snd (snd (last tr))"
      using T(6) a ne e tr by (simp add: st'_def)
    have "committed cfg cur (last tr)" using T(5) tr tne by simp
    then show "\<exists>s. syncRow cfg st' = Some s \<and> lastSyncedBlock s = cur \<and> isInitialSyncComplete s"
      using b ss
      by (cases "last tr") (auto simp: committed_def syncRow_def split: option.splits)
  qed
  have d: "SYNC_BATCH_SIZE penv = None \<longrightarrow> syncBatchSize (configService penv) = 1000"
    by (simp add: configService_def)
  have wb': "\<forall>(a, b) \<in> set ws.
              a \<le> b \<and> b - a + 1 \<le> ?bs \<and> b \<le> cur \<and> (b < cur \<longrightarrow> b - a + 1 = ?bs)"
    using wb by fastforce
  show ?thesis
    using H e T(2-8)[unfolded tr e] fin n hl cs wb' d
    by (intro exI[of _ err] exI[of _ st'] exI[of _ tr]) (simp only: simp_thms)
qed

lemma ex_windows:
  "windows (syncBatchSize ex_cfg10) 120 (first_block ex_cfg10 ex_state) =
     [(100, 109), (110, 119), (120, 120)]"
  by code_simp

lemma ex_batches_succeed:
  "fst (runBatches ex_env ex_cfg10 120 [(100, 109), (110, 119), (120, 120)]
          (startSync ex_cfg10 120 ex_state) []) = None"
  by code_simp

lemma ex_windows_default:
  "windows (syncBatchSize (configService ex_penv)) 120
     (first_block (configService ex_penv) ex_state) = [(100, 120)]"
  by code_simp

lemma ex_batches_succeed_default:
  "fst (runBatches ex_env (configService ex_penv) 120 [(100, 120)]
          (startSync (configService ex_penv) 120 ex_state) []) = None"
  by code_simp

theorem C6_backfill_batches_witness:
  "(\<exists>st' tr. syncHistoricalEvents ex_env ex_cfg10 ex_state = Some (None, st', tr)
      \<and> map window_of tr = [(100, 109), (110, 119), (120, 120)]
      \<and> (\<forall>w \<in> set tr. committed ex_cfg10 120 w)
      \<and> (\<exists>s. syncRow ex_cfg10 st' = Some s \<and> lastSyncedBlock s = 120
              \<and> isInitialSyncComplete s))
   \<and> syncBatchSize (configService ex_penv) = 1000
   \<and> (\<exists>st' tr. syncHistoricalEvents ex_env (configService ex_penv) ex_state =
                   Some (None, st', tr)
      \<and> map window_of tr = [(100, 120)])"
proof -
  have b: "1 \<le> syncBatchSize ex_cfg10" by (simp add: ex_cfg10_def ex_cfg_def)
  have b': "1 \<le> syncBatchSize (configService ex_penv)"
    by (simp add: configService_def ex_penv_def)
  have h: "getBlockNumber ex_env = Inr 120" by (simp add: ex_env_def)
  have f: "first_block ex_cfg10 ex_state = 100"
    by (simp add: first_block_def syncRow_def findOne_def ex_cfg10_def ex_cfg_def ex_state_def
          ex_sync_row_def)
  have p: "SYNC_BATCH_SIZE ex_penv = None" by (simp add: ex_penv_def)
  from C6_backfill_batches[OF b h ex_windows[symmetric], of ex_penv]
  obtain err st' tr where
    t: "syncHistoricalEvents ex_env ex_cfg10 ex_state = Some (err, st', tr)"
       "err = fst (runBatches ex_env ex_cfg10 120 [(100, 109), (110, 119), (120, 120)]
                     (startSync ex_cfg10 120 ex_state) [])"
       "map window_of tr = take (length tr) [(100, 109), (110, 119), (120, 120)]"
       "err = None \<longleftrightarrow> length tr = length [(100::int, 109::int), (110, 119), (120, 120)]"
       "\<forall>w \<in> set tr. committed ex_cfg10 120 w"
       "err = None \<and> first_block ex_cfg10 ex_state \<le> 120 \<longrightarrow>
          (\<exists>s. syncRow ex_cfg10 st' = Some s \<and> lastSyncedBlock s = 120
               \<and> isInitialSyncComplete s)"
       "SYNC_BATCH_SIZE ex_penv = None \<longrightarrow> syncBatchSize (configService ex_penv) = 1000"
    by (elim exE conjE) (rule that; assumption)
  have e: "err = None" using t(2) ex_batches_succeed by simp
  then have l: "length tr = 3" using t(4) by simp
  have m: "map window_of tr = [(100, 109), (110, 119), (120, 120)]"
    using t(3) l by simp
  have 1: "\<exists>st' tr. syncHistoricalEvents ex_env ex_cfg10 ex_state = Some (None, st', tr)
      \<and> map window_of tr = [(100, 109), (110, 119), (120, 120)]
      \<and> (\<forall>w \<in> set tr. committed ex_cfg10 120 w)
      \<and> (\<exists>s. syncRow ex_cfg10 st' = Some s \<and> lastSyncedBlock s = 120
              \<and> isInitialSyncComplete s)"
    using t(1,5,6) e m f by (intro exI[of _ st'] exI[of _ tr]) simp
  have 2: "syncBatchSize (configService ex_penv) = 1000" using t(7) p by simp
  from C6_backfill_batches[OF b' h ex_windows_default[symmetric], of ex_penv]
  obtain err2 st2 tr2 where
    u: "syncHistoricalEvents ex_env (configService ex_penv) ex_state = Some (err2, st2, tr2)"
       "err2 = fst (runBatches ex_env (configService ex_penv) 120 [(100, 120)]
                      (startSync (configService ex_penv) 120 ex_state) [])"
       "map window_of tr2 = take (length tr2) [(100, 120)]"
       "err2 = None \<longleftrightarrow> length tr2 = length [(100::int, 120::int)]"
    by (elim exE conjE) (rule that; assumption)
  have e2: "err2 = None" using u(2) ex_batches_succeed_default by simp
  then have "length tr2 = 1" using u(4) by simp
  then have "map window_of tr2 = [(100, 120)]" using u(3) by simp
  then have 3: "\<exists>st' tr. syncHistoricalEvents ex_env (configService ex_penv) ex_state =
                   Some (None, st', tr)
      \<and> map window_of tr = [(100, 120)]"
    using u(1) e2 by (intro exI[of _ st2] exI[of _ tr2]) simp
  show ?thesis using 1 2 3 by simp
qed

lemma findOne_updateOne:
  "findOne P xs = Some x \<Longrightarrow> P (f x) \<Longrightarrow> findOne P (updateOne P f xs) = Some (f x)"
  by (induction xs) (auto simp: findOne_def split: if_splits)

lemma applySwapToPool_pools:
  "\<exists>t0p t1p.
     pools (applySwapToPool env d p st) =
       updateOne (\<lambda>q. poolId q = toLowerCase (d_poolId d))
         (\<lambda>q. q\<lparr>sqrtPriceX96 := d_sqrtPriceX96 d, tick := d_tick d, token0Price := t0p,
                token1Price := t1p, liquidity := d_liquidity d,
                totalValueLockedToken0 := totalValueLockedToken0 p + d_amount0 d,
                totalValueLockedToken1 := totalValueLockedToken1 p + d_amount1 d\<rparr>)
         (pools st)"
proof -
  obtain d0 s1 where a: "fetchTokenDecimals env (currency0 p) st = (d0, s1)" by force
  obtain d1 s2 where b: "fetchTokenDecimals env (currency1 p) s1 = (d1, s2)" by force
  obtain t0p t1p where c: "sqrtPriceX96ToTokenPrices env (d_sqrtPriceX96 d) d0 d1 = (t0p, t1p)"
    by force
  show ?thesis
    using fetchTokenDecimals_frame[OF a] fetchTokenDecimals_frame[OF b] a b c
    by (intro exI[of _ t0p] exI[of _ t1p]) (simp add: applySwapToPool_def Let_def)
qed

text \<open>
  C1. A Swap log whose \<open>(transactionHash, logIndex)\<close> is already in SwapEvent, handled
  again. With the fee as a number, as the batch sync hands it over, the duplicate key is
  logged as a warning and swallowed, and SwapEvent, Token, the candles and SyncState stay as
  they are; but the pool was written before the insert was tried, so its locked amounts have
  moved by the swap's amounts once more. With the fee as a \<^verbatim>\<open>bigint\<close>, as the live queue
  hands it over, the insert fails validation and the handler throws; the pool has moved all
  the same.
\<close>

theorem C1_replayed_swap:
  assumes "getBlock env (l_blockNumber (d_event data)) = Inr (Some ts)"
    and "findOne (\<lambda>p. poolId p = toLowerCase (d_poolId data)) (pools st) = Some pool"
    and "(l_transactionHash (d_event data), l_index (d_event data))
           \<in> swap_key ` set (swapEvents st)"
  shows "\<exists>st' pool'.
           snd (handleSwapEvent env cfg data st) = st'
           \<and> (\<forall>f. d_fee data = NumberFee f \<longrightarrow>
                  fst (handleSwapEvent env cfg data st) = None
                  \<and> last (logs st') = (WARN, ''Duplicate swap event''))
           \<and> (\<forall>f. d_fee data = BigIntFee f \<longrightarrow>
                  fst (handleSwapEvent env cfg data st) = Some ValidationError)
           \<and> swapEvents st' = swapEvents st \<and> tokens st' = tokens st
           \<and> candles st' = candles st \<and> syncStates st' = syncStates st
           \<and> findOne (\<lambda>p. poolId p = toLowerCase (d_poolId data)) (pools st') = Some pool'
           \<and> totalValueLockedToken0 pool' = totalValueLockedToken0 pool + d_amount0 data
           \<and> totalValueLockedToken1 pool' = totalValueLockedToken1 pool + d_amount1 data"
proof -
  let ?P = "\<lambda>p. poolId p = toLowerCase (d_poolId data)"
  let ?s3 = "applySwapToPool env data pool st"
  let ?sw = "makeSwapEvent data pool ts"
  obtain t0p t1p where
    p: "pools ?s3 =
          updateOne ?P
            (\<lambda>q. q\<lparr>sqrtPriceX96 := d_sqrtPriceX96 data, tick := d_tick data,
                   token0Price := t0p, token1Price := t1p, liquidity := d_liquidity data,
                   totalValueLockedToken0 := totalValueLockedToken0 pool + d_amount0 data,
                   totalValueLockedToken1 := totalValueLockedToken1 pool + d_amount1 data\<rparr>)
            (pools st)"
    using applySwapToPool_pools[of env data pool st] by auto
  have pid: "poolId pool = toLowerCase (d_poolId data)"
    using assms(2) by (auto simp: findOne_def dest: find_Some_iff[THEN iffD1])
  have g: "getModelByInterval I ?s3 = getModelByInterval I st" for I
    using applySwapToPool_frame[of env data pool st] by simp
  have c: "candles ?s3 = candles st"
    using g[of MINUTE] g[of HOUR] g[of DAY] by (simp add: candles_def)
  have f: "swapEvents ?s3 = swapEvents st" "tokens ?s3 = tokens st"
    "syncStates ?s3 = syncStates st"
    using applySwapToPool_frame[of env data pool st] by simp_all
  have k: "swap_key ?sw = (l_transactionHash (d_event data), l_index (d_event data))"
    by (simp add: swap_key_def makeSwapEvent_def)
  have r: "recordSwapEvent env cfg data ?sw ?s3 =
             (case d_fee data of
                NumberFee f \<Rightarrow> (None, logger WARN ''Duplicate swap event'' ?s3)
              | BigIntFee f \<Rightarrow> (Some ValidationError, ?s3))"
    using assms(3) k f(1) by (simp add: recordSwapEvent_def create_def split: fee_arg.splits)
  have h: "handleSwapEvent env cfg data st =
             (case d_fee data of
                NumberFee f \<Rightarrow> (None, logger WARN ''Duplicate swap event'' ?s3)
              | BigIntFee f \<Rightarrow> (Some ValidationError, ?s3))"
    using assms(1,2) r by (simp add: handleSwapEvent_def Let_def)
  have q: "findOne ?P (pools ?s3) =
             Some (pool\<lparr>sqrtPriceX96 := d_sqrtPriceX96 data, tick := d_tick data,
                   token0Price := t0p, token1Price := t1p, liquidity := d_liquidity data,
                   totalValueLockedToken0 := totalValueLockedToken0 pool + d_amount0 data,
                   totalValueLockedToken1 := totalValueLockedToken1 pool + d_amount1 data\<rparr>)"
    unfolding p using assms(2) pid by (intro findOne_updateOne) simp_all
  show ?thesis
    using h f c q by (cases "d_fee data") (simp_all add: candles_def logger_def)
qed

theorem C1_replayed_swap_witness:
  "getBlock ex_env (l_blockNumber (d_event ex_swap_data)) = Inr (Some 1700000000)
   \<and> findOne (\<lambda>p. poolId p = toLowerCase (d_poolId ex_swap_data)) (pools ex_replay_state) =
       Some ex_pool_aa
   \<and> (\<exists>st' pool'.
         handleSwapEvent ex_env ex_cfg ex_swap_data ex_replay_state = (None, st')
         \<and> swapEvents st' = [ex_swap_aa]
         \<and> last (logs st') = (WARN, ''Duplicate swap event'')
         \<and> findOne (\<lambda>p. poolId p = ''0xaa'') (pools st') = Some pool'
         \<and> totalValueLockedToken0 pool' = 2000000000000000000
         \<and> totalValueLockedToken1 pool' = - 4000000000000000000)"
proof -
  have b: "getBlock ex_env (l_blockNumber (d_event ex_swap_data)) = Inr (Some 1700000000)"
    by (simp add: ex_env_def ex_swap_data_def ex_swap_log_def)
  have l: "toLowerCase (d_poolId ex_swap_data) = ''0xaa''" by code_simp
  have p: "findOne (\<lambda>p. poolId p = toLowerCase (d_poolId ex_swap_data)) (pools ex_replay_state) =
             Some ex_pool_aa"
    unfolding l by (simp add: findOne_def ex_replay_state_def ex_pool_aa_def)
  have k: "(l_transactionHash (d_event ex_swap_data), l_index (d_event ex_swap_data))
             \<in> swap_key ` set (swapEvents ex_replay_state)"
    by (simp add: ex_replay_state_def ex_swap_data_def ex_swap_log_def ex_swap_aa_def
          swap_key_def)
  have v: "d_fee ex_swap_data = NumberFee 3000" "d_amount0 ex_swap_data = 1000000000000000000"
    "d_amount1 ex_swap_data = - 2000000000000000000"
    "swapEvents ex_replay_state = [ex_swap_aa]"
    "totalValueLockedToken0 ex_pool_aa = 1000000000000000000"
    "totalValueLockedToken1 ex_pool_aa = - 2000000000000000000"
    by (simp_all add: ex_swap_data_def ex_replay_state_def ex_pool_aa_def)
  obtain st' pool' where
    t: "snd (handleSwapEvent ex_env ex_cfg ex_swap_data ex_replay_state) = st'"
       "\<forall>f. d_fee ex_swap_data = NumberFee f \<longrightarrow>
              fst (handleSwapEvent ex_env ex_cfg ex_swap_data ex_replay_state) = None
              \<and> last (logs st') = (WARN, ''Duplicate swap event'')"
       "swapEvents st' = swapEvents ex_replay_state"
       "findOne (\<lambda>p. poolId p = toLowerCase (d_poolId ex_swap_data)) (pools st') = Some pool'"
       "totalValueLockedToken0 pool' =
          totalValueLockedToken0 ex_pool_aa + d_amount0 ex_swap_data"
       "totalValueLockedToken1 pool' =
          totalValueLockedToken1 ex_pool_aa + d_amount1 ex_swap_data"
    using C1_replayed_swap[OF b p k, of ex_cfg]
    by (elim exE conjE) (rule that; assumption)
  have n: "fst (handleSwapEvent ex_env ex_cfg ex_swap_data ex_replay_state) = None"
      "last (logs st') = (WARN, ''Duplicate swap event'')"
    using t(2) v(1) by simp_all
  have h: "handleSwapEvent ex_env ex_cfg ex_swap_data ex_replay_state = (None, st')"
    using n(1) t(1) by (simp add: prod_eq_iff)
  show ?thesis
    using b p h n(2) t(3,4,5,6) unfolding l v
    by (intro conjI exI[of _ st'] exI[of _ pool']) simp_all
qed

text \<open>
  The batch of block 100 run twice: the second run logs the two duplicates and moves the
  pool's locked amounts again, so the collections are not what they were after the first.
\<close>

theorem C1_replay_counterexample:
  "fst (syncBatch ex_env_stream ex_cfg 100 100 ex_state) = None
   \<and> pools synced_once = [ex_pool_aa]
   \<and> swapEvents synced_once = [ex_swap_aa]
   \<and> fst (syncBatch ex_env_stream ex_cfg 100 100 synced_once) = None
   \<and> drop 9 (logs synced_twice) =
       [(LOG, ''Found events in blocks''), (WARN, ''Duplicate pool initialization''),
        (WARN, ''Duplicate swap event'')]
   \<and> swapEvents synced_twice = [ex_swap_aa]
   \<and> map totalValueLockedToken0 (pools synced_once) = [1000000000000000000]
   \<and> map totalValueLockedToken0 (pools synced_twice) = [2000000000000000000]
   \<and> collections synced_twice \<noteq> collections synced_once"
proof -
  have a: "pools synced_once = [ex_pool_aa]" by code_simp
  have b: "map totalValueLockedToken0 (pools synced_twice) = [2000000000000000000]"
    by code_simp
  have c: "swapEvents synced_once = [ex_swap_aa]" "swapEvents synced_twice = [ex_swap_aa]"
    by code_simp+
  have d: "fst (syncBatch ex_env_stream ex_cfg 100 100 ex_state) = None"
      "fst (syncBatch ex_env_stream ex_cfg 100 100 synced_once) = None"
    by code_simp+
  have e: "drop 9 (logs synced_twice) =
       [(LOG, ''Found events in blocks''), (WARN, ''Duplicate pool initialization''),
        (WARN, ''Duplicate swap event'')]"
    by code_simp
  have f: "map totalValueLockedToken0 (pools synced_once) = [1000000000000000000]"
    unfolding a by (simp add: ex_pool_aa_def)
  have "pools synced_twice \<noteq> pools synced_once" using f b by auto
  then show ?thesis using a b c d e f by (simp add: collections_def)
qed

text \<open>
  C3. The batch of block 100 folds the pool's first swap into both tokens. The swap of block
  101 is synced after its minute was finalized: it is stored, and token0 is counted, but the
  insert of token0's minute candle is refused and the aggregation stops there, so token1's
  volume and txCount are those of one swap while SwapEvent holds two that touch it. The
  batch itself ends without error.
\<close>

theorem C3_late_swap_not_counted:
  "map (\<lambda>t. (address t, volume t, txCount t)) (tokens synced_once) =
     [(''0xtokena'', 1000000000000000000, 1), (''0xtokenb'', 2000000000000000000, 1)]
   \<and> swap_volume ''0xtokenb'' (swapEvents synced_once) = 2000000000000000000
   \<and> swap_count ''0xtokenb'' (swapEvents synced_once) = 1
   \<and> map status (tokenMinutes minute_finalized) = [FINALIZED, FINALIZED]
   \<and> fst (syncBatch ex_env_stream ex_cfg 101 101 minute_finalized) = None
   \<and> map (\<lambda>t. (address t, volume t, txCount t)) (tokens late_synced) =
       [(''0xtokena'', 2000000000000000000, 2), (''0xtokenb'', 2000000000000000000, 1)]
   \<and> map se_transactionHash (swapEvents late_synced) = [''0xtx1'', ''0xtx2'']
   \<and> swap_volume ''0xtokenb'' (swapEvents late_synced) = 4000000000000000000
   \<and> swap_count ''0xtokenb'' (swapEvents late_synced) = 2
   \<and> last (logs late_synced) = (ERROR, ''Error handling swap event for aggregation'')"
  by code_simp+




















end
